(* ===== verification/Flint_Prelude.thy ===== *)
theory Flint_Prelude
  imports Main "HOL-Library.Multiset" "HOL-Library.AList" "HOL-Library.Char_ord"
    "HOL-Library.List_Lexorder"
begin

text \<open>
  Shared vocabulary of the development.

  \<^item> \<open>outcome\<close>: what a Rust function returning \<open>Result\<close> does, with panics as a third case.
  \<^item> Hash maps that the program iterates over are association lists with distinct keys;
    \<open>hm_get_or\<close> and \<open>hm_modify\<close> are \<open>get(..).unwrap_or(d)\<close> and
    \<open>entry(k).or_insert(d)\<close> followed by an update through the reference.
  \<^item> The iteration order of a hash container is not specified by Rust. Where it can be observed
    it is a parameter (\<open>hash_order\<close>), of which only "it is a permutation" is used.
  \<^item> \<open>flint_simps\<close> collects the rewriting facts the component proofs share.
\<close>

named_theorems flint_simps

section \<open>Results\<close>

datatype ('e, 'a) outcome = Ok 'a | Err 'e | Panic

section \<open>Hash maps as association lists\<close>

definition hm_get_or :: "('k \<times> 'v) list \<Rightarrow> 'k \<Rightarrow> 'v \<Rightarrow> 'v" where
  "hm_get_or m k d = (case map_of m k of None \<Rightarrow> d | Some v \<Rightarrow> v)"

definition hm_modify :: "'k \<Rightarrow> 'v \<Rightarrow> ('v \<Rightarrow> 'v) \<Rightarrow> ('k \<times> 'v) list \<Rightarrow> ('k \<times> 'v) list" where
  "hm_modify k d f m = AList.update k (f (hm_get_or m k d)) m"

definition hm_keys :: "('k \<times> 'v) list \<Rightarrow> 'k list" where
  "hm_keys m = map fst m"

text \<open>The order in which the container called \<open>t\<close> in the source yields its elements.\<close>

type_synonym hash_order = "string \<Rightarrow> string list \<Rightarrow> string list"

definition is_hash_order :: "hash_order \<Rightarrow> bool" where
  "is_hash_order ho \<longleftrightarrow> (\<forall>t xs. mset (ho t xs) = mset xs)"

section \<open>Facts about hash maps\<close>

lemma map_of_hm_modify [simp, flint_simps]:
  "map_of (hm_modify k d f m) = (map_of m)(k \<mapsto> f (hm_get_or m k d))"
  by (simp add: hm_modify_def update_conv')

lemma hm_get_or_update [simp, flint_simps]:
  "hm_get_or (AList.update k v m) x d = (if x = k then v else hm_get_or m x d)"
  by (simp add: hm_get_or_def update_conv')

lemma hm_get_or_modify [simp, flint_simps]:
  "hm_get_or (hm_modify k d f m) x e =
     (if x = k then f (hm_get_or m k d) else hm_get_or m x e)"
  by (simp add: hm_modify_def)

lemma hm_get_or_Nil [simp]: "hm_get_or [] k d = d"
  by (simp add: hm_get_or_def)

lemma hm_get_or_Cons [simp]:
  "hm_get_or (kv # m) x d = (if x = fst kv then snd kv else hm_get_or m x d)"
  by (cases kv) (simp add: hm_get_or_def)

lemma set_keys_update [simp, flint_simps]:
  "fst ` set (AList.update k v m) = insert k (fst ` set m)"
  by (induction m) auto

lemma set_keys_modify [simp, flint_simps]:
  "fst ` set (hm_modify k d f m) = insert k (fst ` set m)"
  by (simp add: hm_modify_def)

lemma distinct_keys_modify [simp, intro]:
  "distinct (map fst m) \<Longrightarrow> distinct (map fst (hm_modify k d f m))"
  by (simp add: hm_modify_def distinct_update)

lemma keys_update_present:
  "k \<in> fst ` set m \<Longrightarrow> map fst (AList.update k v m) = map fst m"
  by (induction m) auto

lemma hm_get_or_notin: "k \<notin> fst ` set m \<Longrightarrow> hm_get_or m k d = d"
  by (metis hm_get_or_def map_of_eq_None_iff option.simps(4))

lemma hm_get_or_mem:
  "distinct (map fst m) \<Longrightarrow> (k, v) \<in> set m \<Longrightarrow> hm_get_or m k d = v"
  by (simp add: hm_get_or_def)

lemma sum_list_update_le:
  fixes m :: "('k \<times> nat) list"
  assumes "map_of m k = Some (Suc v)"
  shows "Suc (sum_list (map snd (AList.update k v m))) = sum_list (map snd m)"
  using assms by (induction m) (auto split: if_splits)

section \<open>Facts about hash iteration orders\<close>

lemma hash_order_mset [simp]: "is_hash_order ho \<Longrightarrow> mset (ho t xs) = mset xs"
  by (simp add: is_hash_order_def)

lemma hash_order_set [simp]: "is_hash_order ho \<Longrightarrow> set (ho t xs) = set xs"
  by (metis hash_order_mset set_mset_mset)

lemma hash_order_distinct [simp]: "is_hash_order ho \<Longrightarrow> distinct (ho t xs) = distinct xs"
  by (metis hash_order_mset mset_eq_imp_distinct_iff)

lemma hash_order_length [simp]: "is_hash_order ho \<Longrightarrow> length (ho t xs) = length xs"
  by (metis hash_order_mset mset_eq_length)

lemma hash_order_id: "is_hash_order (\<lambda>t xs. xs)"
  by (simp add: is_hash_order_def)

section \<open>Facts about lists\<close>

lemma count_list_map_filter_distinct:
  "distinct (map f xs) \<Longrightarrow> count_list (map f (filter P xs)) v \<le> 1"
  by (induction xs) (auto simp: count_list_0_iff)

lemma distinct_count_list: "distinct xs \<Longrightarrow> count_list xs x = (if x \<in> set xs then 1 else 0)"
  by (induction xs) auto

lemma sort_filter_set: "set (sort (filter P xs)) = {x \<in> set xs. P x}"
  by simp

text \<open>Rounds of a polling loop whose clock advances by at least \<open>k\<close> between two readings.\<close>

lemma poll_step:
  fixes c :: nat
  assumes "c + k \<le> c'" "c < d" "0 < k"
  shows "(d - c' + (k - 1)) div k + 1 \<le> (d - c + (k - 1)) div k"
proof (cases "d \<le> c'")
  case True
  have "k div k \<le> (d - c + (k - 1)) div k" using assms by (intro div_le_mono) linarith
  with True assms(3) show ?thesis by simp
next
  case False
  then have "(d - c' + (k - 1) + k) div k \<le> (d - c + (k - 1)) div k"
    using assms(1) by (intro div_le_mono) linarith
  moreover have "(d - c' + (k - 1) + k) div k = (d - c' + (k - 1)) div k + 1"
    using assms(3) by (metis div_add_self2 less_not_refl)
  ultimately show ?thesis by linarith
qed

end
