(* ===== verification/Kahn.thy ===== *)
theory Kahn
  imports Flint_Prelude
begin

text \<open>
  The work-list algorithm of Kahn that \<open>graph.rs\<close> (\<open>ServiceGraph::build\<close>, lines 98-109) and
  \<open>check.rs\<close> (\<open>has_cycle\<close>, lines 153-166) run, and the decrement loop of
  \<open>ServiceGraph::mark_ready\<close>. Degrees are a hash map from node to count; \<open>dm\<close> maps a node to
  the list of its dependents.

  \<open>relax\<close> decrements with the unchecked \<open>*d -= 1\<close> of \<open>build\<close>, whose underflow is the value
  \<open>None\<close>; \<open>relax_sat\<close> is the guarded decrement of \<open>mark_ready\<close> and \<open>has_cycle\<close>. Both loops
  terminate because a node enters the queue only when its degree falls from 1 to 0.

  The correctness lemmas say: started with the true in-degrees, no decrement underflows, the
  number of visited nodes is the number of nodes that are not downstream of a cycle, and it is
  the number of all nodes exactly when the edge relation is acyclic.
\<close>

type_synonym degrees = "(string \<times> nat) list"
type_synonym adjacency = "(string \<times> string list) list"

section \<open>The loops\<close>

fun relax :: "string list \<Rightarrow> degrees \<Rightarrow> string list \<Rightarrow> (degrees \<times> string list) option" where
  "relax [] tmp q = Some (tmp, q)"
| "relax (dep # ds) tmp q =
     (case hm_get_or tmp dep 0 of
        0 \<Rightarrow> None
      | Suc d \<Rightarrow> relax ds (AList.update dep d tmp) (if d = 0 then q @ [dep] else q))"

fun relax_sat :: "string list \<Rightarrow> degrees \<Rightarrow> string list \<Rightarrow> degrees \<times> string list" where
  "relax_sat [] tmp q = (tmp, q)"
| "relax_sat (dep # ds) tmp q =
     (case hm_get_or tmp dep 0 of
        0 \<Rightarrow> relax_sat ds (AList.update dep 0 tmp) q
      | Suc d \<Rightarrow> relax_sat ds (AList.update dep d tmp) (if d = 0 then q @ [dep] else q))"

text \<open>Every pop is paid for by the queue or by a degree.\<close>

definition kahn_measure :: "string list \<Rightarrow> degrees \<Rightarrow> nat" where
  "kahn_measure q tmp = length q + sum_list (map snd tmp)"

lemma sum_list_update_pos:
  assumes "hm_get_or tmp k 0 = Suc d"
  shows "Suc (sum_list (map snd (AList.update k d tmp))) = sum_list (map snd tmp)"
  using assms by (auto simp: hm_get_or_def split: option.splits intro: sum_list_update_le)

lemma sum_list_update_zero:
  assumes "hm_get_or tmp k 0 = (0::nat)"
  shows "sum_list (map snd (AList.update k 0 tmp)) = sum_list (map snd tmp)"
  using assms by (induction tmp) (auto simp: hm_get_or_def split: if_splits)

lemma relax_measure:
  "relax ds tmp q = Some (tmp', q') \<Longrightarrow> kahn_measure q' tmp' \<le> kahn_measure q tmp"
proof (induction ds tmp q rule: relax.induct)
  case (2 dep ds tmp q)
  from 2 show ?case
    by (fastforce simp: kahn_measure_def split: nat.splits if_splits dest: sum_list_update_pos)
qed (simp add: kahn_measure_def)

lemma relax_sat_measure:
  "relax_sat ds tmp q = (tmp', q') \<Longrightarrow> kahn_measure q' tmp' \<le> kahn_measure q tmp"
proof (induction ds tmp q rule: relax_sat.induct)
  case (2 dep ds tmp q)
  from 2 show ?case
    by (fastforce simp: kahn_measure_def split: nat.splits if_splits
        dest: sum_list_update_pos sum_list_update_zero)
qed (simp add: kahn_measure_def)

function kahn_loop ::
  "adjacency \<Rightarrow> string list \<Rightarrow> degrees \<Rightarrow> nat \<Rightarrow> (nat \<times> degrees) option" where
  "kahn_loop dm [] tmp visited = Some (visited, tmp)"
| "kahn_loop dm (node # q) tmp visited =
     (case map_of dm node of
        None \<Rightarrow> kahn_loop dm q tmp (visited + 1)
      | Some ds \<Rightarrow>
          (case relax ds tmp q of
             None \<Rightarrow> None
           | Some (tmp', q') \<Rightarrow> kahn_loop dm q' tmp' (visited + 1)))"
  by pat_completeness auto
termination
  by (relation "measure (\<lambda>(dm, q, tmp, visited). kahn_measure q tmp)")
    (auto dest: relax_measure simp: kahn_measure_def)

function kahn_sat :: "adjacency \<Rightarrow> string list \<Rightarrow> degrees \<Rightarrow> nat \<Rightarrow> nat \<times> degrees" where
  "kahn_sat dm [] tmp visited = (visited, tmp)"
| "kahn_sat dm (node # q) tmp visited =
     (case map_of dm node of
        None \<Rightarrow> kahn_sat dm q tmp (visited + 1)
      | Some ds \<Rightarrow>
          (case relax_sat ds tmp q of (tmp', q') \<Rightarrow> kahn_sat dm q' tmp' (visited + 1)))"
  by pat_completeness auto
termination
  by (relation "measure (\<lambda>(dm, q, tmp, visited). kahn_measure q tmp)")
    (auto dest!: relax_sat_measure[OF sym] simp: kahn_measure_def)

section \<open>What one round of decrements does\<close>

lemma relax_sat_degree:
  "hm_get_or (fst (relax_sat ds tmp q)) v 0 = hm_get_or tmp v 0 - count_list ds v"
  by (induction ds tmp q rule: relax_sat.induct) (auto split: nat.splits)

lemma relax_sat_queue_prefix: "\<exists>new. snd (relax_sat ds tmp q) = q @ new"
  by (induction ds tmp q rule: relax_sat.induct) (fastforce split: nat.splits)+

text \<open>The names appended to the queue: those whose degree falls to 0 in this round, once each.\<close>

lemma relax_sat_new:
  "\<exists>new. snd (relax_sat ds tmp q) = q @ new \<and> distinct new \<and>
     set new = {v. 0 < hm_get_or tmp v 0 \<and> hm_get_or tmp v 0 \<le> count_list ds v}"
proof (induction ds tmp q rule: relax_sat.induct)
  case (1 tmp q)
  then show ?case by auto
next
  case (2 dep ds tmp q)
  show ?case
  proof (cases "hm_get_or tmp dep 0")
    case 0
    with "2.IH"(1) obtain new where new: "snd (relax_sat ds (AList.update dep 0 tmp) q) = q @ new"
      "distinct new" "set new = {v. 0 < hm_get_or (AList.update dep 0 tmp) v 0 \<and>
         hm_get_or (AList.update dep 0 tmp) v 0 \<le> count_list ds v}" by blast
    have "set new = {v. 0 < hm_get_or tmp v 0 \<and> hm_get_or tmp v 0 \<le> count_list (dep # ds) v}"
      using 0 by (auto simp: new(3))
    with new(1,2) 0 show ?thesis by auto
  next
    case (Suc d)
    let ?tmp = "AList.update dep d tmp" and ?q = "if d = 0 then q @ [dep] else q"
    from "2.IH"(2)[OF Suc] obtain new where new: "snd (relax_sat ds ?tmp ?q) = ?q @ new"
      "distinct new" "set new = {v. 0 < hm_get_or ?tmp v 0 \<and> hm_get_or ?tmp v 0 \<le> count_list ds v}"
      by blast
    let ?new = "if d = 0 then dep # new else new"
    have "distinct ?new" using new(2,3) by auto
    moreover have "set ?new =
        {v. 0 < hm_get_or tmp v 0 \<and> hm_get_or tmp v 0 \<le> count_list (dep # ds) v}"
      using Suc by (auto simp: new(3))
    ultimately show ?thesis using new(1) Suc by (intro exI[of _ ?new]) auto
  qed
qed

lemma relax_eq_relax_sat:
  "(\<And>v. count_list ds v \<le> hm_get_or tmp v 0) \<Longrightarrow> relax ds tmp q = Some (relax_sat ds tmp q)"
proof (induction ds tmp q rule: relax.induct)
  case (2 dep ds tmp q)
  from "2.prems"[of dep] obtain d where d: "hm_get_or tmp dep 0 = Suc d"
    by (cases "hm_get_or tmp dep 0") auto
  have "count_list ds v \<le> hm_get_or (AList.update dep d tmp) v 0" for v
    using "2.prems"[of v] d by (auto split: if_splits)
  with "2.IH"[OF d] d show ?case by simp
qed simp

lemma relax_sat_keys:
  "set ds \<subseteq> fst ` set tmp \<Longrightarrow> map fst (fst (relax_sat ds tmp q)) = map fst tmp"
proof (induction ds tmp q rule: relax_sat.induct)
  case (2 dep ds tmp q)
  then show ?case by (auto simp: keys_update_present insert_absorb split: nat.splits)
qed simp

section \<open>The invariant of the work list\<close>

definition succs :: "adjacency \<Rightarrow> string \<Rightarrow> string list" where
  "succs dm u = hm_get_or dm u []"

definition edge_rel :: "string set \<Rightarrow> adjacency \<Rightarrow> (string \<times> string) set" where
  "edge_rel V dm = {(u, v). u \<in> V \<and> v \<in> set (succs dm u)}"

definition topo_prefix :: "string set \<Rightarrow> adjacency \<Rightarrow> string list \<Rightarrow> bool" where
  "topo_prefix V dm P \<longleftrightarrow>
     (\<forall>xs n ys u. P = xs @ n # ys \<longrightarrow> u \<in> V \<longrightarrow> n \<in> set (succs dm u) \<longrightarrow> u \<in> set xs)"

definition kahn_inv ::
  "string set \<Rightarrow> adjacency \<Rightarrow> string list \<Rightarrow> string list \<Rightarrow> degrees \<Rightarrow> bool" where
  "kahn_inv V dm P q tmp \<longleftrightarrow>
     distinct (P @ q) \<and> set (P @ q) \<subseteq> V \<and>
     (\<forall>v. hm_get_or tmp v 0 = (\<Sum>u \<in> V - set P. count_list (succs dm u) v)) \<and>
     (\<forall>v \<in> V. hm_get_or tmp v 0 = 0 \<longleftrightarrow> v \<in> set (P @ q)) \<and>
     topo_prefix V dm P"

lemma topo_prefix_snoc:
  assumes "topo_prefix V dm P" "\<And>u. u \<in> V \<Longrightarrow> n \<in> set (succs dm u) \<Longrightarrow> u \<in> set P"
  shows "topo_prefix V dm (P @ [n])"
  unfolding topo_prefix_def
proof (intro allI impI)
  fix xs m ys u
  assume eq: "P @ [n] = xs @ m # ys" and u: "u \<in> V" "m \<in> set (succs dm u)"
  show "u \<in> set xs"
  proof (cases ys rule: rev_cases)
    case Nil
    with eq u assms(2) show ?thesis by auto
  next
    case (snoc zs z)
    with eq have "P = xs @ m # zs" by simp
    with assms(1) u show ?thesis unfolding topo_prefix_def by blast
  qed
qed

lemma degree_zero_preds:
  assumes "finite V" "hm_get_or tmp n 0 = (\<Sum>u \<in> V - set P. count_list (succs dm u) n)"
    "hm_get_or tmp n (0::nat) = 0" "u \<in> V" "n \<in> set (succs dm u)"
  shows "u \<in> set P"
proof (rule ccontr)
  assume "u \<notin> set P"
  with assms have "count_list (succs dm u) n = 0" by simp
  with assms(5) show False by (simp add: count_list_0_iff)
qed

text \<open>Popping a node and relaxing its dependents keeps the invariant.\<close>

lemma remaining_sum:
  assumes "finite V" "n \<in> V" "n \<notin> set P"
  shows "(\<Sum>u \<in> V - set P. count_list (succs dm u) v) =
    count_list (succs dm n) v + (\<Sum>u \<in> V - set (P @ [n]). count_list (succs dm u) v)"
proof -
  have "V - set (P @ [n]) = V - set P - {n}" by auto
  then show ?thesis
    using sum.remove[of "V - set P" n "\<lambda>u. count_list (succs dm u) v"] assms
    by (metis DiffI finite_Diff)
qed

lemma kahn_inv_topo:
  assumes "finite V" "kahn_inv V dm P (n # q) tmp"
  shows "topo_prefix V dm (P @ [n])"
proof (rule topo_prefix_snoc)
  note I = assms(2)[unfolded kahn_inv_def]
  show "topo_prefix V dm P" using I by blast
  show "u \<in> set P" if "u \<in> V" "n \<in> set (succs dm u)" for u
    using degree_zero_preds[OF assms(1) _ _ that, of tmp P] I by auto
qed

lemma kahn_inv_step:
  assumes fin: "finite V" and cl: "\<And>u. u \<in> V \<Longrightarrow> set (succs dm u) \<subseteq> V"
    and inv: "kahn_inv V dm P (n # q) tmp"
    and step: "relax_sat (succs dm n) tmp q = (tmp', q')"
  shows "kahn_inv V dm (P @ [n]) q' tmp'"
proof -
  note I = inv[unfolded kahn_inv_def]
  have nV: "n \<in> V" and nP: "n \<notin> set P" and nq: "n \<notin> set q" using I by auto
  have deg: "hm_get_or tmp' v 0 = hm_get_or tmp v 0 - count_list (succs dm n) v" for v
    using relax_sat_degree[of "succs dm n" tmp q v] step by simp
  from relax_sat_new[of "succs dm n" tmp q] step obtain new where new: "q' = q @ new"
    "distinct new"
    "set new = {v. 0 < hm_get_or tmp v 0 \<and> hm_get_or tmp v 0 \<le> count_list (succs dm n) v}"
    by auto
  note sum = remaining_sum[OF fin nV nP]
  have newV: "set new \<subseteq> V"
  proof
    fix v assume "v \<in> set new"
    then have "count_list (succs dm n) v \<noteq> 0" unfolding new(3) by auto
    with cl[OF nV] show "v \<in> V" by (auto simp: count_list_0_iff)
  qed
  have old_zero: "hm_get_or tmp v 0 = 0 \<longleftrightarrow> v \<in> set (P @ n # q)" if "v \<in> V" for v
    using I that by blast
  have new_fresh: "v \<notin> set (P @ n # q)" if "v \<in> set new" for v
  proof -
    from that newV have "v \<in> V" by blast
    moreover from that have "hm_get_or tmp v 0 \<noteq> 0" unfolding new(3) by simp
    ultimately show ?thesis by (simp only: old_zero not_False_eq_True)
  qed
  have zero: "hm_get_or tmp' v 0 = 0 \<longleftrightarrow> v \<in> set (P @ n # q) \<union> set new" if "v \<in> V" for v
    unfolding deg new(3) using old_zero[OF that] by auto
  note topo = kahn_inv_topo[OF fin inv]
  have "distinct ((P @ [n]) @ q')" using I new(2) new_fresh by (auto simp: new(1))
  moreover have "set ((P @ [n]) @ q') \<subseteq> V" using I newV by (auto simp: new(1))
  moreover have "\<forall>v. hm_get_or tmp' v 0 =
      (\<Sum>u \<in> V - set (P @ [n]). count_list (succs dm u) v)"
    using I sum by (simp add: deg)
  moreover have "\<forall>v \<in> V. hm_get_or tmp' v 0 = 0 \<longleftrightarrow> v \<in> set ((P @ [n]) @ q')"
    using zero by (auto simp: new(1))
  ultimately show ?thesis using topo unfolding kahn_inv_def by blast
qed


lemma kahn_inv_pop:
  assumes "finite V" "\<And>u. u \<in> V \<Longrightarrow> set (succs dm u) \<subseteq> V" "V \<subseteq> fst ` set dm"
    "kahn_inv V dm P (n # q) tmp"
  obtains ds where "map_of dm n = Some ds" "succs dm n = ds"
    "kahn_inv V dm (P @ [n]) (snd (relax_sat ds tmp q)) (fst (relax_sat ds tmp q))"
proof -
  have "n \<in> fst ` set dm" using assms(3,4) by (auto simp: kahn_inv_def)
  then obtain ds where ds: "map_of dm n = Some ds"
    using map_of_eq_None_iff[of dm n] by auto
  then have "succs dm n = ds" by (simp add: succs_def hm_get_or_def)
  with kahn_inv_step[OF assms(1,2,4), of "fst (relax_sat ds tmp q)" "snd (relax_sat ds tmp q)"] ds
  show thesis by (auto intro: that)
qed

text \<open>
  Run to the end: the unchecked decrements of \<open>build\<close> never underflow, both loops visit the same
  nodes \<open>P'\<close>, and no key is added to the degree map.
\<close>

lemma kahn_run:
  assumes "finite V" "\<And>u. u \<in> V \<Longrightarrow> set (succs dm u) \<subseteq> V" "V \<subseteq> fst ` set dm"
    "kahn_inv V dm P q tmp" "V \<subseteq> fst ` set tmp" "k = length P"
  shows "\<exists>P' tmp'. kahn_loop dm q tmp k = Some (length P', tmp') \<and>
    kahn_sat dm q tmp k = (length P', tmp') \<and> kahn_inv V dm P' [] tmp' \<and>
    map fst tmp' = map fst tmp"
  using assms
proof (induction dm q tmp k arbitrary: P rule: kahn_sat.induct)
  case (1 dm tmp k)
  then show ?case by auto
next
  case (2 dm n q tmp k)
  obtain ds where ds: "map_of dm n = Some ds" "succs dm n = ds"
    and inv: "kahn_inv V dm (P @ [n]) (snd (relax_sat ds tmp q)) (fst (relax_sat ds tmp q))"
    using kahn_inv_pop[OF "2.prems"(1-4)] by metis
  obtain tmp' q' where r: "relax_sat ds tmp q = (tmp', q')" by fastforce
  have nV: "n \<in> V" and nP: "n \<notin> set P" using "2.prems"(4) by (auto simp: kahn_inv_def)
  have "set ds \<subseteq> fst ` set tmp" using "2.prems"(2)[OF nV] "2.prems"(5) ds(2) by blast
  from relax_sat_keys[OF this, of q] r have keys: "map fst tmp' = map fst tmp" by simp
  then have "fst ` set tmp' = fst ` set tmp" by (metis set_map)
  with "2.prems"(5) have dom: "V \<subseteq> fst ` set tmp'" by simp
  have "count_list ds v \<le> hm_get_or tmp v 0" for v
    using "2.prems"(1,4) nV nP ds(2) member_le_sum[of n "V - set P" "\<lambda>u. count_list (succs dm u) v"]
    by (simp add: kahn_inv_def)
  then have "relax ds tmp q = Some (tmp', q')" by (simp add: relax_eq_relax_sat r)
  with "2.IH"(2)[OF ds(1) r[symmetric] "2.prems"(1-3), of "P @ [n]"] inv r dom "2.prems"(6) ds
  show ?case by (simp add: keys)
qed

section \<open>Visited nodes and cycles\<close>

text \<open>
  A visited node has only visited predecessors, earlier in the visiting order, so no cycle reaches
  it; below, a node left over is reached by a cycle.
\<close>

lemma topo_prefix_preds_closed:
  assumes "topo_prefix V dm P" "(u, v) \<in> (edge_rel V dm)\<^sup>*" "v \<in> set P"
  shows "u \<in> set P"
  using assms(2,3)
proof (induction rule: converse_rtrancl_induct)
  case (step y z)
  then obtain xs ys where "P = xs @ z # ys" by (metis split_list)
  with step.hyps(1) assms(1) have "y \<in> set xs" by (auto simp: edge_rel_def topo_prefix_def)
  with \<open>P = xs @ z # ys\<close> show ?case by simp
qed

lemma topo_prefix_no_cycle:
  assumes "topo_prefix V dm P" "distinct P" "c \<in> set P"
  shows "(c, c) \<notin> (edge_rel V dm)\<^sup>+"
proof
  define pos where "pos = (\<lambda>v. length (takeWhile (\<lambda>x. x \<noteq> v) P))"
  have lt: "pos u < pos v" if "(u, v) \<in> edge_rel V dm" "v \<in> set P" for u v
  proof -
    from that(2) obtain xs ys where P: "P = xs @ v # ys" "v \<notin> set xs" by (metis split_list_first)
    with that assms(1) have "u \<in> set xs" by (auto simp: edge_rel_def topo_prefix_def)
    then obtain as bs where "xs = as @ u # bs" "u \<notin> set as" by (metis split_list_first)
    with P show ?thesis by (auto simp: pos_def takeWhile_append)
  qed
  have "pos u < pos v" if "(u, v) \<in> (edge_rel V dm)\<^sup>+" "v \<in> set P" for u v
    using that
  proof (induction rule: converse_trancl_induct)
    case (step y z)
    then have "z \<in> set P" using topo_prefix_preds_closed[OF assms(1)] by (metis trancl_into_rtrancl)
    with step lt show ?case by fastforce
  qed (rule lt)
  moreover assume "(c, c) \<in> (edge_rel V dm)\<^sup>+"
  ultimately show False using assms(3) by blast
qed

lemma topo_prefix_acyclic:
  assumes "topo_prefix V dm P" "distinct P" "set P = V"
  shows "acyclic (edge_rel V dm)"
proof (rule acyclicI, rule allI, rule notI)
  fix c assume cyc: "(c, c) \<in> (edge_rel V dm)\<^sup>+"
  then have "c \<in> set P" using assms(3) by (auto simp: edge_rel_def dest: tranclD)
  with topo_prefix_no_cycle[OF assms(1,2)] cyc show False by blast
qed

lemma no_source_cyclic:
  assumes "finite V" "R \<subseteq> V" "R \<noteq> {}" "\<And>v. v \<in> R \<Longrightarrow> \<exists>u \<in> R. v \<in> set (succs dm u)"
  shows "\<not> acyclic (edge_rel V dm)"
proof
  assume ac: "acyclic (edge_rel V dm)"
  have "edge_rel V dm \<subseteq> V \<times> (\<Union>u \<in> V. set (succs dm u))" by (auto simp: edge_rel_def)
  with assms(1) have "finite (edge_rel V dm)" by (auto intro: finite_subset)
  with ac have "wf (edge_rel V dm)" by (simp add: finite_acyclic_wf)
  with assms(3) obtain z where "z \<in> R" "\<And>y. (y, z) \<in> edge_rel V dm \<Longrightarrow> y \<notin> R"
    by (metis ex_in_conv wfE_min)
  with assms(2,4) show False unfolding edge_rel_def by blast
qed

text \<open>At the end the nodes left over are those that still have a predecessor left over.\<close>

lemma kahn_final:
  assumes "finite V" "\<And>u. u \<in> V \<Longrightarrow> set (succs dm u) \<subseteq> V" "kahn_inv V dm P [] tmp"
  shows "set P = {v \<in> V. hm_get_or tmp v 0 = 0}"
    and "length P = card V \<longleftrightarrow> acyclic (edge_rel V dm)"
    and "v \<in> V \<Longrightarrow> 0 < hm_get_or tmp v 0 \<Longrightarrow>
      \<exists>u \<in> V. 0 < hm_get_or tmp u 0 \<and> v \<in> set (succs dm u)"
proof -
  note I = assms(3)[unfolded kahn_inv_def]
  show P: "set P = {v \<in> V. hm_get_or tmp v 0 = 0}" using I by auto
  have left: "\<exists>u \<in> V - set P. v \<in> set (succs dm u)" if "v \<in> V - set P" for v
  proof (rule ccontr)
    assume "\<not> ?thesis"
    then have "(\<Sum>u \<in> V - set P. count_list (succs dm u) v) = 0"
      by (auto simp: count_list_0_iff intro: sum.neutral)
    with I that show False by auto
  qed
  show "\<exists>u \<in> V. 0 < hm_get_or tmp u 0 \<and> v \<in> set (succs dm u)"
    if "v \<in> V" "0 < hm_get_or tmp v 0"
    using left[of v] that P by auto
  have len: "length P = card (set P)" using I by (simp add: distinct_card)
  show "length P = card V \<longleftrightarrow> acyclic (edge_rel V dm)"
  proof
    assume "length P = card V"
    with len I assms(1) have "set P = V" by (simp add: card_subset_eq)
    with I assms(2) show "acyclic (edge_rel V dm)" by (auto intro: topo_prefix_acyclic)
  next
    assume "acyclic (edge_rel V dm)"
    with no_source_cyclic[of V "V - set P" dm] left assms(1) have "V - set P = {}" by blast
    with I len show "length P = card V" by (metis Diff_eq_empty_iff append_Nil2 subset_antisym)
  qed
qed

lemma left_over_reached_by_cycle:
  assumes "finite R" "\<And>v. v \<in> R \<Longrightarrow> \<exists>u \<in> R. (u, v) \<in> E" "v \<in> R"
  shows "\<exists>c. (c, c) \<in> E\<^sup>+ \<and> (c, v) \<in> E\<^sup>*"
proof (rule ccontr)
  assume none: "\<not> ?thesis"
  define D where "D = {u \<in> R. (u, v) \<in> E\<^sup>*}"
  have "acyclic (E \<inter> D \<times> D)"
  proof (rule acyclicI, rule allI, rule notI)
    fix x assume cyc: "(x, x) \<in> (E \<inter> D \<times> D)\<^sup>+"
    then have "(x, x) \<in> E\<^sup>+" by (metis Int_lower1 trancl_mono)
    moreover from cyc have "x \<in> D" by (auto elim: converse_tranclE)
    ultimately show False using none by (auto simp: D_def)
  qed
  moreover have "finite (E \<inter> D \<times> D)"
    using assms(1) by (auto simp: D_def intro: finite_subset[of _ "D \<times> D"])
  ultimately have "wf (E \<inter> D \<times> D)" by (simp add: finite_acyclic_wf)
  moreover have "v \<in> D" using assms(3) by (simp add: D_def)
  ultimately obtain z where z: "z \<in> D" "\<And>y. (y, z) \<in> E \<inter> D \<times> D \<Longrightarrow> y \<notin> D"
    by (metis wfE_min)
  from z(1) assms(2) obtain y where "y \<in> R" "(y, z) \<in> E" by (auto simp: D_def)
  with z show False by (auto simp: D_def intro: converse_rtrancl_into_rtrancl)
qed

lemma kahn_final_left:
  assumes "finite V" "\<And>u. u \<in> V \<Longrightarrow> set (succs dm u) \<subseteq> V" "kahn_inv V dm P [] tmp" "v \<in> V"
  shows "0 < hm_get_or tmp v 0 \<longleftrightarrow>
    (\<exists>c. (c, c) \<in> (edge_rel V dm)\<^sup>+ \<and> (c, v) \<in> (edge_rel V dm)\<^sup>*)"
proof
  note P = kahn_final(1)[OF assms(1-3)]
  show "\<exists>c. (c, c) \<in> (edge_rel V dm)\<^sup>+ \<and> (c, v) \<in> (edge_rel V dm)\<^sup>*" if "0 < hm_get_or tmp v 0"
  proof (rule left_over_reached_by_cycle[of "{v \<in> V. 0 < hm_get_or tmp v 0}"])
    show "\<exists>u \<in> {v \<in> V. 0 < hm_get_or tmp v 0}. (u, w) \<in> edge_rel V dm"
      if "w \<in> {v \<in> V. 0 < hm_get_or tmp v 0}" for w
      using kahn_final(3)[OF assms(1-3), of w] that by (auto simp: edge_rel_def)
  qed (use assms that in auto)
  assume "\<exists>c. (c, c) \<in> (edge_rel V dm)\<^sup>+ \<and> (c, v) \<in> (edge_rel V dm)\<^sup>*"
  then obtain c where c: "(c, c) \<in> (edge_rel V dm)\<^sup>+" "(c, v) \<in> (edge_rel V dm)\<^sup>*" by blast
  show "0 < hm_get_or tmp v 0"
  proof (rule ccontr)
    assume "\<not> ?thesis"
    with P assms(4) have "v \<in> set P" by auto
    moreover have "topo_prefix V dm P" "distinct P" using assms(3) by (auto simp: kahn_inv_def)
    ultimately show False
      using topo_prefix_preds_closed[OF _ c(2)] topo_prefix_no_cycle c(1) by blast
  qed
qed

end
