(* ===== verification/Rust_Text.thy ===== *)
theory Rust_Text
  imports Flint_Prelude
begin

text \<open>
  The functions of Rust's \<open>str\<close> and \<open>Path\<close> that the program calls, on strings as lists of
  bytes. White space is the ASCII white space of \<open>char::is_whitespace\<close>: a string holding one of
  the multi-byte Unicode spaces is split and trimmed at fewer places here than in Rust, and
  \<open>to_lowercase\<close> maps ASCII letters only. A \<open>Path\<close> is its string.
\<close>

section \<open>Definitions\<close>

definition starts_with :: "string \<Rightarrow> string \<Rightarrow> bool" where
  "starts_with s p = (take (length p) s = p)"

definition ends_with :: "string \<Rightarrow> string \<Rightarrow> bool" where
  "ends_with s p = starts_with (rev s) (rev p)"

definition strip_prefix :: "string \<Rightarrow> string \<Rightarrow> string option" where
  "strip_prefix s p = (if starts_with s p then Some (drop (length p) s) else None)"

definition is_whitespace :: "char \<Rightarrow> bool" where
  "is_whitespace c = (c \<in> {CHR '' '', CHR 0x09, CHR 0x0A, CHR 0x0B, CHR 0x0C, CHR 0x0D})"

fun split_by :: "(char \<Rightarrow> bool) \<Rightarrow> string \<Rightarrow> string list" where
  "split_by P [] = [[]]"
| "split_by P (x # xs) =
     (if P x then [] # split_by P xs
      else (case split_by P xs of [] \<Rightarrow> [[x]] | y # ys \<Rightarrow> (x # y) # ys))"

abbreviation split_on :: "char \<Rightarrow> string \<Rightarrow> string list" where
  "split_on c \<equiv> split_by (\<lambda>x. x = c)"

definition split_whitespace :: "string \<Rightarrow> string list" where
  "split_whitespace s = filter (\<lambda>w. w \<noteq> []) (split_by is_whitespace s)"

definition trim_start :: "string \<Rightarrow> string" where
  "trim_start s = dropWhile is_whitespace s"

definition trim_end_matches :: "(char \<Rightarrow> bool) \<Rightarrow> string \<Rightarrow> string" where
  "trim_end_matches P s = rev (dropWhile P (rev s))"

definition trim :: "string \<Rightarrow> string" where
  "trim s = trim_end_matches is_whitespace (trim_start s)"

definition trim_matches :: "char \<Rightarrow> string \<Rightarrow> string" where
  "trim_matches c s = trim_end_matches (\<lambda>x. x = c) (dropWhile (\<lambda>x. x = c) s)"

fun split_inclusive_nl :: "string \<Rightarrow> string list" where
  "split_inclusive_nl [] = []"
| "split_inclusive_nl (x # xs) =
     (if x = CHR 0x0A then [x] # split_inclusive_nl xs
      else (case split_inclusive_nl xs of [] \<Rightarrow> [[x]] | y # ys \<Rightarrow> (x # y) # ys))"

definition strip_line_ending :: "string \<Rightarrow> string" where
  "strip_line_ending l =
     (if ends_with l [CHR 0x0A]
      then (let l' = butlast l in if ends_with l' [CHR 0x0D] then butlast l' else l')
      else l)"

definition lines :: "string \<Rightarrow> string list" where
  "lines s = map strip_line_ending (split_inclusive_nl s)"

fun join :: "string \<Rightarrow> string list \<Rightarrow> string" where
  "join sep [] = []"
| "join sep [x] = x"
| "join sep (x # y # zs) = x @ sep @ join sep (y # zs)"

fun contains_sub :: "string \<Rightarrow> string \<Rightarrow> bool" where
  "contains_sub [] p = (p = [])"
| "contains_sub (x # xs) p = (starts_with (x # xs) p \<or> contains_sub xs p)"

text \<open>\<open>Path::is_absolute\<close>, \<open>Path::components\<close> and the split of a file name at its last dot.\<close>

definition is_absolute :: "string \<Rightarrow> bool" where
  "is_absolute p = starts_with p ''/''"

definition path_components :: "string \<Rightarrow> string list" where
  "path_components p = filter (\<lambda>c. c \<noteq> [] \<and> c \<noteq> ''.'') (split_on (CHR ''/'') p)"

definition last_dot :: "string \<Rightarrow> (string \<times> string) option" where
  "last_dot f =
     (let r = rev f; after = takeWhile (\<lambda>c. c \<noteq> CHR ''.'') r
      in if length after = length r then None
         else Some (rev (drop (Suc (length after)) r), rev after))"

definition path_extension :: "string \<Rightarrow> string option" where
  "path_extension f =
     (if f = ''..'' then None
      else case last_dot f of None \<Rightarrow> None | Some (before, after) \<Rightarrow>
        if before = [] then None else Some after)"

definition file_stem :: "string \<Rightarrow> string" where
  "file_stem f =
     (if f = ''..'' then f
      else case last_dot f of None \<Rightarrow> f | Some (before, after) \<Rightarrow>
        if before = [] then f else before)"

text \<open>\<open>Path::join\<close>: an absolute second path replaces the first.\<close>

definition path_join :: "string \<Rightarrow> string \<Rightarrow> string" where
  "path_join dir f =
     (if is_absolute f then f
      else if dir = [] \<or> ends_with dir ''/'' then dir @ f
      else dir @ ''/'' @ f)"

text \<open>\<open>Path::parent\<close> and \<open>Path::file_name\<close>: repeated separators and \<open>.\<close> after the first component do not
  count as components.\<close>

definition trim_parts :: "string list \<Rightarrow> string list" where
  "trim_parts ps = rev (dropWhile (\<lambda>c. c = [] \<or> c = ''.'') (rev ps))"

definition path_parent :: "string \<Rightarrow> string option" where
  "path_parent p =
     (let ps = split_on (CHR ''/'') p; body = trim_parts (tl ps)
      in if body \<noteq> [] then
           (let up = trim_parts (butlast body)
            in Some (if up \<noteq> [] then join ''/'' (hd ps # up)
                     else if is_absolute p then ''/'' else hd ps))
         else if is_absolute p \<or> p = [] then None
         else Some [])"

definition path_file_name :: "string \<Rightarrow> string option" where
  "path_file_name p =
     (let ps = split_on (CHR ''/'') p; body = trim_parts (tl ps);
          f = (if body \<noteq> [] then last body else hd ps)
      in if f \<in> {[], ''.'', ''..''} then None else Some f)"

text \<open>\<open>Path::with_extension\<close>, where the directory is written in the normal form of \<open>parent\<close>.\<close>

definition path_with_extension :: "string \<Rightarrow> string \<Rightarrow> string" where
  "path_with_extension p ext =
     (case (path_parent p, path_file_name p) of
        (Some dir, Some f) \<Rightarrow> path_join dir (file_stem f @ ''.'' @ ext)
      | _ \<Rightarrow> p)"

text \<open>\<open>str::to_lowercase\<close> on ASCII, the decimal \<open>Display\<close> of an unsigned integer, and
  \<open>u32::from_str_radix\<close>: an optional plus sign, at least one digit, no overflow.\<close>

definition to_lowercase :: "string \<Rightarrow> string" where
  "to_lowercase s =
     map (\<lambda>c. let n = (of_char c :: nat) in if 65 \<le> n \<and> n \<le> 90 then char_of (n + 32) else c) s"

definition digit_char :: "nat \<Rightarrow> char" where
  "digit_char d = char_of (48 + d)"

fun show_radix :: "nat \<Rightarrow> nat \<Rightarrow> string" where
  "show_radix r n =
     (if n < r \<or> r < 2 then [digit_char n] else show_radix r (n div r) @ [digit_char (n mod r)])"

abbreviation show_nat :: "nat \<Rightarrow> string" where
  "show_nat \<equiv> show_radix 10"

definition to_digit :: "nat \<Rightarrow> char \<Rightarrow> nat option" where
  "to_digit r c = (let n = of_char c in if 48 \<le> n \<and> n < 48 + r then Some (n - 48) else None)"

fun radix_digits :: "nat \<Rightarrow> string \<Rightarrow> nat \<Rightarrow> nat option" where
  "radix_digits r [] acc = Some acc"
| "radix_digits r (c # cs) acc =
     (case to_digit r c of
        None \<Rightarrow> None
      | Some d \<Rightarrow> if acc * r + d < 2 ^ 32 then radix_digits r cs (acc * r + d) else None)"

definition from_str_radix :: "string \<Rightarrow> nat \<Rightarrow> nat option" where
  "from_str_radix s r =
     (let ds = (if starts_with s ''+'' then tl s else s)
      in if ds = [] then None else radix_digits r ds 0)"

text \<open>A string in double quotes, and the UTF-8 bytes of the dash in some messages.\<close>

definition quoted :: "string \<Rightarrow> string" where
  "quoted s = [CHR 0x22] @ s @ [CHR 0x22]"

definition em_dash :: string where
  "em_dash = [CHR 0xE2, CHR 0x80, CHR 0x94]"

section \<open>Facts\<close>

lemma starts_with_append [simp]: "starts_with (p @ s) p"
  by (simp add: starts_with_def)

lemma starts_with_iff: "starts_with s p \<longleftrightarrow> (\<exists>t. s = p @ t)"
  by (metis append_take_drop_id starts_with_append starts_with_def)

lemma strip_prefix_Some [simp]: "strip_prefix s p = Some t \<longleftrightarrow> s = p @ t"
  by (auto simp: strip_prefix_def starts_with_iff)

lemma split_by_nonempty [simp]: "split_by P s \<noteq> []"
  by (induction s) (auto split: list.split)

text \<open>Splitting and joining with the separator are inverse.\<close>

lemma join_Cons: "ys \<noteq> [] \<Longrightarrow> join sep (x # ys) = x @ sep @ join sep ys"
  by (cases ys) auto

lemma join_split_on: "join [c] (split_on c s) = s"
proof (induction s)
  case (Cons x xs)
  then show ?case
    by (cases "split_on c xs") (auto simp: join_Cons, metis join.simps(2,3) list.exhaust append_Cons)
qed simp

lemma split_by_pieces: "w \<in> set (split_by P s) \<Longrightarrow> x \<in> set w \<Longrightarrow> \<not> P x \<and> x \<in> set s"
proof (induction s arbitrary: w)
  case (Cons a s)
  then show ?case
    by (cases "split_by P s") (fastforce split: if_splits)+
qed simp

lemma split_by_no_sep: "(\<And>x. x \<in> set s \<Longrightarrow> \<not> P x) \<Longrightarrow> split_by P s = [s]"
  by (induction s) auto

lemma split_by_append_sep:
  "(\<And>x. x \<in> set s \<Longrightarrow> \<not> P x) \<Longrightarrow> P c \<Longrightarrow> split_by P (s @ c # t) = s # split_by P t"
  by (induction s) auto

lemma split_on_join:
  "ws \<noteq> [] \<Longrightarrow> (\<And>w. w \<in> set ws \<Longrightarrow> c \<notin> set w) \<Longrightarrow> split_on c (join [c] ws) = ws"
proof (induction "[c]" ws rule: join.induct)
  case (2 x)
  then show ?case by (auto intro: split_by_no_sep)
next
  case (3 x y zs)
  have "split_on c (x @ c # join [c] (y # zs)) = x # split_on c (join [c] (y # zs))"
    using "3.prems" by (intro split_by_append_sep) auto
  with 3 show ?case by simp
qed simp

lemma split_whitespace_words:
  "w \<in> set (split_whitespace s) \<Longrightarrow> w \<noteq> [] \<and> (\<forall>x \<in> set w. \<not> is_whitespace x \<and> x \<in> set s)"
  by (auto simp: split_whitespace_def dest: split_by_pieces)

lemma split_whitespace_single:
  "s \<noteq> [] \<Longrightarrow> (\<And>x. x \<in> set s \<Longrightarrow> \<not> is_whitespace x) \<Longrightarrow> split_whitespace s = [s]"
  by (simp add: split_whitespace_def split_by_no_sep)

lemma split_whitespace_Nil_iff: "split_whitespace s = [] \<longleftrightarrow> (\<forall>x \<in> set s. is_whitespace x)"
proof (induction s)
  case (Cons a s)
  then show ?case
    by (cases "split_by is_whitespace s") (auto simp: split_whitespace_def)
qed (simp add: split_whitespace_def)

lemma path_extension_stem:
  "path_extension f = Some e \<Longrightarrow> f = file_stem f @ ''.'' @ e"
proof -
  assume ext: "path_extension f = Some e"
  then obtain b where ld: "last_dot f = Some (b, e)" "b \<noteq> []" "f \<noteq> ''..''"
    by (auto simp: path_extension_def split: if_splits option.splits)
  define r where "r = rev f"
  define a where "a = takeWhile (\<lambda>c. c \<noteq> CHR ''.'') r"
  from ld(1) have len: "length a \<noteq> length r" and e: "e = rev a" and b: "b = rev (drop (Suc (length a)) r)"
    by (auto simp: last_dot_def Let_def a_def r_def split: if_splits)
  define d where "d = dropWhile (\<lambda>c. c \<noteq> CHR ''.'') r"
  have r: "r = a @ d" by (simp add: a_def d_def)
  with len have "d \<noteq> []" by auto
  then obtain c rest where d: "d = c # rest" by (cases d) auto
  have "c = CHR ''.''"
    using d by (simp add: d_def dropWhile_eq_Cons_conv)
  with r d have "r = a @ CHR ''.'' # rest" by simp
  then have "b = rev rest" "rev r = rev rest @ ''.'' @ rev a" using b by simp_all
  then have "f = b @ ''.'' @ e" using e by (simp add: r_def)
  moreover have "file_stem f = b" using ld by (simp add: file_stem_def)
  ultimately show ?thesis by simp
qed

lemma ends_with_iff: "ends_with s p \<longleftrightarrow> (\<exists>t. s = t @ p)"
proof
  assume "ends_with s p"
  then obtain t where "rev s = rev p @ t" by (auto simp: ends_with_def starts_with_iff)
  then have "rev (rev s) = rev (rev p @ t)" by simp
  then have "s = rev t @ p" by simp
  then show "\<exists>t. s = t @ p" ..
qed (auto simp: ends_with_def starts_with_iff)

lemma lines_single: "CHR 0x0A \<notin> set s \<Longrightarrow> s \<noteq> [] \<Longrightarrow> lines s = [s]"
proof -
  assume nl: "CHR 0x0A \<notin> set s" and ne: "s \<noteq> []"
  have "split_inclusive_nl s = [s]" using ne nl
  proof (induction s rule: list_nonempty_induct)
    case (cons x xs)
    then show ?case by auto
  qed auto
  moreover have "\<not> ends_with s [CHR 0x0A]"
  proof
    assume "ends_with s [CHR 0x0A]"
    then have "\<exists>t. s = t @ [CHR 0x0A]" by (simp add: ends_with_iff)
    with nl show False by auto
  qed
  ultimately show ?thesis by (simp add: lines_def strip_line_ending_def)
qed

lemma split_inclusive_line:
  "CHR 0x0A \<notin> set l \<Longrightarrow> split_inclusive_nl (l @ CHR 0x0A # rest) = (l @ [CHR 0x0A]) # split_inclusive_nl rest"
  by (induction l) auto

definition unlines :: "string list \<Rightarrow> string" where
  "unlines ls = concat (map (\<lambda>l. l @ [CHR 0x0A]) ls)"

lemma lines_unlines:
  assumes "\<And>l. l \<in> set ls \<Longrightarrow> CHR 0x0A \<notin> set l \<and> \<not> ends_with l [CHR 0x0D]"
  shows "lines (unlines ls) = ls"
proof -
  have "split_inclusive_nl (unlines ls) = map (\<lambda>l. l @ [CHR 0x0A]) ls"
    using assms by (induction ls) (auto simp: unlines_def split_inclusive_line)
  moreover have "strip_line_ending (l @ [CHR 0x0A]) = l" if "l \<in> set ls" for l
    using assms[OF that] by (simp add: strip_line_ending_def ends_with_iff Let_def)
  ultimately show ?thesis by (simp add: lines_def map_idI)
qed

lemma to_digit_digit_char [simp]: "d < r \<Longrightarrow> r \<le> 10 \<Longrightarrow> to_digit r (digit_char d) = Some d"
  by (simp add: to_digit_def digit_char_def Let_def of_char_of)

lemma radix_digits_append:
  "radix_digits r (ds @ es) acc = Option.bind (radix_digits r ds acc) (radix_digits r es)"
  by (induction ds arbitrary: acc) (auto split: option.splits)

lemma radix_digits_show:
  assumes "2 \<le> r" "r \<le> 10" "n < 2 ^ 32"
  shows "radix_digits r (show_radix r n) 0 = Some n"
  using assms
proof (induction r n rule: show_radix.induct)
  case (1 r n)
  show ?case
  proof (cases "n < r")
    case False
    then have "radix_digits r (show_radix r (n div r)) 0 = Some (n div r)"
      using 1 by (intro "1.IH") (auto simp: le_less_trans[OF div_le_dividend])
    with False 1 show ?thesis
      by (simp add: radix_digits_append div_mult_mod_eq)
  qed (use 1 in simp)
qed

lemma show_radix_head:
  assumes "2 \<le> r" "r \<le> 10"
  obtains d ds where "show_radix r n = digit_char d # ds" "d < r"
  using assms
proof (induction r n arbitrary: thesis rule: show_radix.induct)
  case (1 r n)
  show ?case
  proof (cases "n < r")
    case False
    then obtain d ds where "show_radix r (n div r) = digit_char d # ds" "d < r"
      using "1.IH" "1.prems"(2,3) by (metis not_less)
    with False show ?thesis using "1.prems"(1)[of d "ds @ [digit_char (n mod r)]"] "1.prems"(2) by simp
  qed (use 1 in simp)
qed

declare show_radix.simps [simp del]

lemma from_str_radix_show:
  assumes "2 \<le> r" "r \<le> 10" "n < 2 ^ 32"
  shows "from_str_radix (show_radix r n) r = Some n"
proof -
  obtain d ds where d: "show_radix r n = digit_char d # ds" "d < r"
    using show_radix_head[OF assms(1,2)] by blast
  have "digit_char d \<noteq> CHR ''+''"
  proof
    assume "digit_char d = CHR ''+''"
    then have "(of_char (digit_char d) :: nat) = of_char (CHR ''+'')" by simp
    with d(2) assms(2) show False by (simp add: digit_char_def of_char_of)
  qed
  with d radix_digits_show[OF assms] show ?thesis
    by (simp add: from_str_radix_def starts_with_def)
qed

end
