(* ===== verification/Service_Def.thy ===== *)
theory Service_Def
  imports Rust_Text
begin

text \<open>
  \<open>service.rs\<close>: the service definition with its sections, \<open>ServiceDef::validate\<close> and
  \<open>load_services_from_dir\<close>. Reading a directory and its files is an input: the list of entries
  with what reading each of them returns. The TOML parser (crate \<open>toml\<close>) is the parameter
  \<open>toml\<close>. The lemmas show that what the loader returns is validated, and what validation means
  for the components of a readiness path.
\<close>

section \<open>Data\<close>

datatype restart_policy = Always | OnFailure | Never

datatype ready_strategy = Pidfile | Socket

record service_section =
  svc_name :: string
  svc_exec :: string
  svc_restart :: "restart_policy option"
  svc_user :: "string option"
  svc_args :: "string list option"

record deps_section =
  deps_after :: "string list"
  deps_needs :: "string list"

record ready_section =
  rd_strategy :: ready_strategy
  rd_path :: "string option"

record resources_section =
  oom_score_adj :: "int option"

record service_def =
  sd_service :: service_section
  sd_deps :: "deps_section option"
  sd_ready :: "ready_section option"
  sd_resources :: "resources_section option"

abbreviation sd_name :: "service_def \<Rightarrow> string" where
  "sd_name d \<equiv> svc_name (sd_service d)"

definition sd_ready_path :: "service_def \<Rightarrow> string option" where
  "sd_ready_path d = (case sd_ready d of None \<Rightarrow> None | Some r \<Rightarrow> rd_path r)"

section \<open>ServiceDef::validate\<close>

datatype validate_error =
    NotAbsolute string string
  | ParentTraversal string string
  | NotUnderRun string string

definition validate :: "service_def \<Rightarrow> validate_error + unit" where
  "validate def =
     (case sd_ready def of
        None \<Rightarrow> Inr ()
      | Some r \<Rightarrow>
          (case rd_path r of
             None \<Rightarrow> Inr ()
           | Some p \<Rightarrow>
               if \<not> is_absolute p then Inl (NotAbsolute (sd_name def) p)
               else if ''..'' \<in> set (path_components p) then Inl (ParentTraversal (sd_name def) p)
               else if \<not> starts_with p ''/run/'' \<and> \<not> starts_with p ''/var/run/''
                 then Inl (NotUnderRun (sd_name def) p)
               else Inr ()))"

section \<open>load\_services\_from\_dir\<close>

type_synonym io_error = int
type_synonym toml_parser = "string \<Rightarrow> string + service_def"

record dirent =
  de_name :: string
  de_content :: "io_error + string"
  de_mtime :: "io_error + int"

datatype load_error =
    LoadIo io_error
  | LoadParse string string
  | LoadInvalid string validate_error

definition is_nul :: "char \<Rightarrow> bool" where
  "is_nul c = (c = CHR 0x00)"

fun load_entries ::
  "toml_parser \<Rightarrow> (io_error + dirent) list \<Rightarrow> service_def list \<Rightarrow> load_error + service_def list" where
  "load_entries toml [] services = Inr services"
| "load_entries toml (entry # es) services =
     (case entry of
        Inl e \<Rightarrow> Inl (LoadIo e)
      | Inr d \<Rightarrow>
          if path_extension (de_name d) = Some ''toml'' then
            (case de_content d of
               Inl e \<Rightarrow> Inl (LoadIo e)
             | Inr content \<Rightarrow>
                 (case toml (trim_end_matches is_nul content) of
                    Inl m \<Rightarrow> Inl (LoadParse (de_name d) m)
                  | Inr def \<Rightarrow>
                      (case validate def of
                         Inl v \<Rightarrow> Inl (LoadInvalid (de_name d) v)
                       | Inr _ \<Rightarrow> load_entries toml es (services @ [def]))))
          else load_entries toml es services)"

definition load_services_from_dir ::
  "toml_parser \<Rightarrow> io_error + (io_error + dirent) list \<Rightarrow> load_error + service_def list" where
  "load_services_from_dir toml rd =
     (case rd of Inl e \<Rightarrow> Inl (LoadIo e) | Inr entries \<Rightarrow> load_entries toml entries [])"

section \<open>What validation guarantees\<close>

text \<open>A path whose lexical components stay below \<open>/run\<close> or \<open>/var/run\<close>.\<close>

definition below_run :: "string \<Rightarrow> bool" where
  "below_run p \<longleftrightarrow> ''..'' \<notin> set (path_components p) \<and>
     (take 1 (path_components p) = [''run''] \<or> take 2 (path_components p) = [''var'', ''run''])"

lemma components_run:
  "starts_with p ''/run/'' \<Longrightarrow> \<exists>t. path_components p = ''run'' # path_components t"
proof -
  assume "starts_with p ''/run/''"
  then obtain t where p: "p = ''/run/'' @ t" by (auto simp: starts_with_iff)
  have "split_on (CHR ''/'') (''run'' @ CHR ''/'' # t) = ''run'' # split_on (CHR ''/'') t"
    by (rule split_by_append_sep) auto
  then show ?thesis unfolding p by (auto simp: path_components_def)
qed

lemma components_var_run:
  "starts_with p ''/var/run/'' \<Longrightarrow> \<exists>t. path_components p = ''var'' # ''run'' # path_components t"
proof -
  assume "starts_with p ''/var/run/''"
  then obtain t where p: "p = ''/var/run/'' @ t" by (auto simp: starts_with_iff)
  have "split_on (CHR ''/'') (''run'' @ CHR ''/'' # t) = ''run'' # split_on (CHR ''/'') t"
    by (rule split_by_append_sep) auto
  moreover have "split_on (CHR ''/'') (''var'' @ CHR ''/'' # ''run'' @ CHR ''/'' # t) =
      ''var'' # split_on (CHR ''/'') (''run'' @ CHR ''/'' # t)"
    by (rule split_by_append_sep) auto
  ultimately show ?thesis unfolding p by (auto simp: path_components_def)
qed

lemma validate_Inr_iff:
  "validate def = Inr () \<longleftrightarrow>
     (case sd_ready_path def of None \<Rightarrow> True | Some p \<Rightarrow>
        ''..'' \<notin> set (path_components p) \<and> (starts_with p ''/run/'' \<or> starts_with p ''/var/run/''))"
proof -
  have "is_absolute p" if "starts_with p ''/run/'' \<or> starts_with p ''/var/run/''" for p
    using that by (auto simp: is_absolute_def starts_with_iff)
  then show ?thesis
    by (auto simp: validate_def sd_ready_path_def split: option.splits)
qed

lemma validate_below_run:
  assumes "validate def = Inr ()" "sd_ready_path def = Some p"
  shows "below_run p"
  using assms
  by (auto simp: validate_Inr_iff below_run_def dest!: components_run components_var_run)

lemma load_entries_validated:
  "load_entries toml es acc = Inr ss \<Longrightarrow> (\<forall>d \<in> set acc. validate d = Inr ()) \<Longrightarrow>
   (\<forall>d \<in> set ss. validate d = Inr ())"
proof (induction es arbitrary: acc)
  case (Cons entry es)
  from Cons.prems show ?case
    by (auto split: sum.splits if_splits dest!: Cons.IH)
qed simp

text \<open>Every \<open>.toml\<close> entry, and nothing else, is loaded, in directory order.\<close>

definition toml_entries :: "(io_error + dirent) list \<Rightarrow> dirent list" where
  "toml_entries es =
     [d. Inr d \<leftarrow> es, path_extension (de_name d) = Some ''toml'']"

lemma load_entries_all:
  "load_entries toml es acc = Inr ss \<Longrightarrow>
   map Inr ss = map Inr acc @ map (\<lambda>d. case de_content d of Inl e \<Rightarrow> Inl e
     | Inr c \<Rightarrow> map_sum (\<lambda>_. 0) id (toml (trim_end_matches is_nul c))) (toml_entries es)"
proof (induction es arbitrary: acc)
  case (Cons entry es)
  from Cons.prems show ?case
    by (auto simp: toml_entries_def split: sum.splits if_splits dest!: Cons.IH)
qed (simp add: toml_entries_def)

end
