(* ===== verification/Service_Graph.thy ===== *)
theory Service_Graph
  imports Kahn Service_Def
begin

text \<open>
  \<open>graph.rs\<close>: the dependency graph. \<open>build\<close> inserts every service, counts one edge per service
  and distinct known dependency (\<open>after\<close> and \<open>needs\<close> together), records the \<open>needs\<close> edges
  separately and runs Kahn's algorithm; \<open>initially_ready\<close>, \<open>mark_ready\<close>, \<open>needs_dependents\<close>
  are the methods the executor calls. \<open>shutdown_order\<close> is in \<open>Shutdown_Order\<close>.

  The lemmas give closed forms of the maps that \<open>build\<close> computes, decide when it succeeds, say
  which services a cycle report names, and state the release discipline of \<open>mark_ready\<close> through
  the interface \<open>dep_tracker\<close>.
\<close>

section \<open>The graph\<close>

datatype graph_error = Cycle string | UnknownDep string string

record service_graph =
  g_services :: "(string \<times> service_def) list"
  g_dependents :: adjacency
  g_in_degree :: degrees
  g_needs_dependents :: adjacency

definition all_dep_names :: "service_def \<Rightarrow> string list" where
  "all_dep_names s = (case sd_deps s of None \<Rightarrow> [] | Some d \<Rightarrow> deps_after d @ deps_needs d)"

definition need_names :: "service_def \<Rightarrow> string list" where
  "need_names s = (case sd_deps s of None \<Rightarrow> [] | Some d \<Rightarrow> deps_needs d)"

section \<open>ServiceGraph::build\<close>

definition seed_service ::
  "service_def \<Rightarrow> (string \<times> service_def) list \<times> degrees \<times> adjacency
    \<Rightarrow> (string \<times> service_def) list \<times> degrees \<times> adjacency" where
  "seed_service svc st =
     (case st of (service_map, in_degree, dependents) \<Rightarrow>
        (AList.update (sd_name svc) svc service_map,
         AList.update (sd_name svc) 0 in_degree,
         hm_modify (sd_name svc) [] (\<lambda>l. l) dependents))"

fun add_edges ::
  "string list \<Rightarrow> string \<Rightarrow> string list \<Rightarrow> adjacency \<times> degrees \<Rightarrow> adjacency \<times> degrees" where
  "add_edges service_names svc [] st = st"
| "add_edges service_names svc (dep # ds) (dependents, in_degree) =
     (if dep \<notin> set service_names then add_edges service_names svc ds (dependents, in_degree)
      else add_edges service_names svc ds
        (hm_modify dep [] (\<lambda>l. l @ [svc]) dependents, hm_modify svc 0 (\<lambda>d. d + 1) in_degree))"

definition add_service_edges ::
  "hash_order \<Rightarrow> string list \<Rightarrow> service_def \<Rightarrow> adjacency \<times> degrees \<Rightarrow> adjacency \<times> degrees" where
  "add_service_edges ho service_names svc st =
     (case sd_deps svc of
        None \<Rightarrow> st
      | Some d \<Rightarrow> add_edges service_names (sd_name svc)
          (ho (''all_deps/'' @ sd_name svc) (remdups (deps_after d @ deps_needs d))) st)"

text \<open>The warnings of lines 45-53, as pairs of the unknown name and the service that needs it.\<close>

definition unknown_needs :: "hash_order \<Rightarrow> service_def list \<Rightarrow> (string \<times> string) list" where
  "unknown_needs ho services =
     concat (map (\<lambda>svc. [(dep, sd_name svc).
         dep \<leftarrow> ho (''unique_needs/'' @ sd_name svc) (remdups (need_names svc)),
         dep \<notin> set (map sd_name services)]) services)"

fun push_needs :: "string \<Rightarrow> string list \<Rightarrow> adjacency \<Rightarrow> adjacency" where
  "push_needs svc [] needs_dependents = needs_dependents"
| "push_needs svc (dep # ds) needs_dependents =
     push_needs svc ds (hm_modify dep [] (\<lambda>l. l @ [svc]) needs_dependents)"

definition build_needs :: "hash_order \<Rightarrow> service_def list \<Rightarrow> adjacency" where
  "build_needs ho services =
     fold (\<lambda>svc nd. case sd_deps svc of
             None \<Rightarrow> nd
           | Some d \<Rightarrow> push_needs (sd_name svc)
               (ho (''unique_needs/'' @ sd_name svc) (remdups (deps_needs d))) nd)
       services
       (fold (\<lambda>svc nd. hm_modify (sd_name svc) [] (\<lambda>l. l) nd) services [])"

definition zero_degree :: "degrees \<Rightarrow> string list" where
  "zero_degree in_degree = map fst (filter (\<lambda>(n, d). d = 0) in_degree)"

definition build :: "hash_order \<Rightarrow> service_def list \<Rightarrow> (graph_error, service_graph) outcome" where
  "build ho services =
     (let service_names = map sd_name services;
          (service_map, in_degree0, dependents0) = fold seed_service services ([], [], []);
          (dependents, in_degree) =
            fold (add_service_edges ho service_names) services (dependents0, in_degree0);
          needs = build_needs ho services;
          queue = ho ''in_degree'' (zero_degree in_degree)
      in case kahn_loop dependents queue in_degree 0 of
           None \<Rightarrow> Panic
         | Some (visited, tmp_degree) \<Rightarrow>
             if visited \<noteq> length services then
               Err (Cycle (join '', '' (ho ''tmp_degree''
                 (map fst (filter (\<lambda>(n, d). d > 0) tmp_degree)))))
             else Ok \<lparr>g_services = service_map, g_dependents = dependents,
                      g_in_degree = in_degree, g_needs_dependents = needs\<rparr>)"

section \<open>Queries and mark\_ready\<close>

definition initially_ready :: "service_graph \<Rightarrow> string list" where
  "initially_ready g = sort (zero_degree (g_in_degree g))"

definition mark_ready :: "service_graph \<Rightarrow> string \<Rightarrow> string list \<times> service_graph" where
  "mark_ready g name =
     (case map_of (g_dependents g) name of
        None \<Rightarrow> ([], g)
      | Some deps \<Rightarrow>
          (case relax_sat deps (g_in_degree g) [] of (in_degree, newly_ready) \<Rightarrow>
             (sort newly_ready, g\<lparr>g_in_degree := in_degree\<rparr>)))"

definition graph_len :: "service_graph \<Rightarrow> nat" where
  "graph_len g = length (g_services g)"

definition needs_dependents :: "service_graph \<Rightarrow> string \<Rightarrow> string list" where
  "needs_dependents g name =
     (case map_of (g_needs_dependents g) name of None \<Rightarrow> [] | Some l \<Rightarrow> l)"

section \<open>Specification\<close>

text \<open>The known services that the services called \<open>v\<close> wait for, and the edges of the graph.\<close>

definition deps_of :: "service_def list \<Rightarrow> string \<Rightarrow> string set" where
  "deps_of services v =
     {u \<in> sd_name ` set services.
        \<exists>s \<in> set services. sd_name s = v \<and> u \<in> set (all_dep_names s)}"

definition needs_of :: "service_def list \<Rightarrow> string \<Rightarrow> string set" where
  "needs_of services v = {u. \<exists>s \<in> set services. sd_name s = v \<and> u \<in> set (need_names s)}"

definition dep_rel :: "service_def list \<Rightarrow> (string \<times> string) set" where
  "dep_rel services = {(u, v). u \<in> deps_of services v}"

text \<open>The services on a dependency cycle or downstream of one: those that can never start.\<close>

definition stuck_of :: "service_def list \<Rightarrow> string set" where
  "stuck_of services =
     {v. \<exists>c. (c, c) \<in> (dep_rel services)\<^sup>+ \<and> (c, v) \<in> (dep_rel services)\<^sup>*}"

section \<open>Closed forms of the maps\<close>

definition names_of :: "service_def list \<Rightarrow> string set" where
  "names_of services = sd_name ` set services"

definition dependents_of :: "service_def list \<Rightarrow> string \<Rightarrow> string list" where
  "dependents_of services u = map sd_name (filter (\<lambda>s. u \<in> set (all_dep_names s)) services)"

definition degree_of :: "service_def list \<Rightarrow> service_def list \<Rightarrow> string \<Rightarrow> nat" where
  "degree_of known services v =
     (\<Sum>s \<leftarrow> filter (\<lambda>s. sd_name s = v) services. card (set (all_dep_names s) \<inter> names_of known))"

lemma finite_names_of [simp]: "finite (names_of services)"
  by (simp add: names_of_def)

lemma seed_fold:
  assumes "fold seed_service services (sm, ind, dm) = (sm', ind', dm')"
  shows "fst ` set sm' = fst ` set sm \<union> names_of services \<and>
    fst ` set ind' = fst ` set ind \<union> names_of services \<and>
    fst ` set dm' = fst ` set dm \<union> names_of services \<and>
    (distinct (map fst sm) \<longrightarrow> distinct (map fst sm')) \<and>
    (distinct (map fst ind) \<longrightarrow> distinct (map fst ind')) \<and>
    (distinct (map fst dm) \<longrightarrow> distinct (map fst dm')) \<and>
    (\<forall>v. hm_get_or ind' v 0 = (if v \<in> names_of services then 0 else hm_get_or ind v 0)) \<and>
    (\<forall>u. succs dm' u = succs dm u)"
  using assms
proof (induction services arbitrary: sm ind dm)
  case (Cons a services)
  from Cons.prems have "fold seed_service services (AList.update (sd_name a) a sm,
      AList.update (sd_name a) 0 ind, hm_modify (sd_name a) [] (\<lambda>l. l) dm) = (sm', ind', dm')"
    by (simp add: seed_service_def[of a])
  from Cons.IH[OF this] show ?case
    by (auto simp: names_of_def succs_def distinct_update)
qed (simp add: names_of_def)

lemma add_edges_maps:
  assumes "add_edges names svc ds (dm, ind) = (dm', ind')" "distinct ds"
  shows "succs dm' u = succs dm u @ (if u \<in> set ds \<inter> set names then [svc] else [])"
    and "hm_get_or ind' v 0 = hm_get_or ind v 0 + (if v = svc then card (set ds \<inter> set names) else 0)"
    and "fst ` set dm' = fst ` set dm \<union> (set ds \<inter> set names)"
    and "fst ` set ind' = fst ` set ind \<union> (if set ds \<inter> set names = {} then {} else {svc})"
  using assms
  by (induction ds arbitrary: dm ind)
    (auto simp: succs_def split: if_splits)

lemma add_edges_distinct:
  "distinct (map fst ind) \<Longrightarrow> distinct (map fst (snd (add_edges names svc ds (dm, ind))))"
  "distinct (map fst dm) \<Longrightarrow> distinct (map fst (fst (add_edges names svc ds (dm, ind))))"
  by (induction ds arbitrary: dm ind) auto

lemma add_edges_distinct_eq:
  assumes "add_edges names svc ds (dm, ind) = (dm', ind')"
  shows "distinct (map fst ind) \<Longrightarrow> distinct (map fst ind')"
    and "distinct (map fst dm) \<Longrightarrow> distinct (map fst dm')"
proof -
  from assms have "ind' = snd (add_edges names svc ds (dm, ind))"
    "dm' = fst (add_edges names svc ds (dm, ind))" by simp_all
  then show "distinct (map fst ind) \<Longrightarrow> distinct (map fst ind')"
    "distinct (map fst dm) \<Longrightarrow> distinct (map fst dm')" by (simp_all add: add_edges_distinct)
qed

lemma add_service_edges_maps:
  assumes "is_hash_order ho" "add_service_edges ho names svc (dm, ind) = (dm', ind')"
  shows "succs dm' u =
      succs dm u @ (if u \<in> set (all_dep_names svc) \<inter> set names then [sd_name svc] else [])"
    and "hm_get_or ind' v 0 = hm_get_or ind v 0 +
      (if v = sd_name svc then card (set (all_dep_names svc) \<inter> set names) else 0)"
    and "fst ` set dm' = fst ` set dm \<union> (set (all_dep_names svc) \<inter> set names)"
    and "sd_name svc \<in> fst ` set ind \<Longrightarrow> fst ` set ind' = fst ` set ind"
    and "distinct (map fst ind) \<Longrightarrow> distinct (map fst ind')"
    and "distinct (map fst dm) \<Longrightarrow> distinct (map fst dm')"
  using assms
  by (auto simp: add_service_edges_def all_dep_names_def add_edges_maps Un_def
      split: option.splits if_splits intro: arg_cong[where f = card] add_edges_distinct_eq)

lemma add_all_edges:
  assumes "is_hash_order ho" "fold (add_service_edges ho names) services (dm, ind) = (dm', ind')"
    "names_of services \<subseteq> fst ` set ind" "set names \<subseteq> fst ` set dm"
  shows "(\<forall>u. succs dm' u =
        succs dm u @ (if u \<in> set names then dependents_of services u else [])) \<and>
    (\<forall>v. hm_get_or ind' v 0 = hm_get_or ind v 0 +
      (\<Sum>s \<leftarrow> filter (\<lambda>s. sd_name s = v) services. card (set (all_dep_names s) \<inter> set names))) \<and>
    fst ` set dm' = fst ` set dm \<and> fst ` set ind' = fst ` set ind \<and>
    (distinct (map fst ind) \<longrightarrow> distinct (map fst ind')) \<and>
    (distinct (map fst dm) \<longrightarrow> distinct (map fst dm'))"
  using assms(2-)
proof (induction services arbitrary: dm ind)
  case (Cons svc services)
  obtain dm1 ind1 where s1: "add_service_edges ho names svc (dm, ind) = (dm1, ind1)" by fastforce
  note one = add_service_edges_maps[OF assms(1) s1]
  have k: "fst ` set ind1 = fst ` set ind" "fst ` set dm1 = fst ` set dm"
    using one(3,4) Cons.prems by (auto simp: names_of_def)
  moreover have "fold (add_service_edges ho names) services (dm1, ind1) = (dm', ind')"
    using Cons.prems(1) s1 by simp
  ultimately show ?case
    using Cons.IH[of dm1 ind1] Cons.prems(2,3) one(1,2,5,6)
    by (simp add: names_of_def dependents_of_def)
qed (simp add: dependents_of_def)

text \<open>Counting the edges by their targets or by their sources gives the same number.\<close>

lemma degree_count:
  "(\<Sum>u \<in> names_of known. count_list (dependents_of services u) v) = degree_of known services v"
proof (induction services)
  case Nil
  then show ?case by (simp add: dependents_of_def degree_of_def)
next
  case (Cons s services)
  have "(\<Sum>u \<in> names_of known. count_list (dependents_of (s # services) u) v) =
      (\<Sum>u \<in> names_of known. (if u \<in> set (all_dep_names s) \<and> sd_name s = v then 1 else 0) +
         count_list (dependents_of services u) v)"
    by (rule sum.cong) (auto simp: dependents_of_def)
  also have "\<dots> = (if sd_name s = v then card (set (all_dep_names s) \<inter> names_of known) else 0) +
      (\<Sum>u \<in> names_of known. count_list (dependents_of services u) v)"
    by (simp add: sum.distrib sum.If_cases Int_commute Collect_conj_eq)
  finally show ?case using Cons by (simp add: degree_of_def)
qed

lemma build_needs_get:
  assumes "is_hash_order ho"
  shows "hm_get_or (build_needs ho services) u [] =
    map sd_name (filter (\<lambda>s. u \<in> set (need_names s)) services)"
proof -
  have push: "hm_get_or (push_needs svc ds nd) u [] =
      hm_get_or nd u [] @ (if u \<in> set ds then [svc] else [])" if "distinct ds" for svc ds nd
    using that by (induction ds arbitrary: nd) auto
  let ?f = "\<lambda>svc nd. case sd_deps svc of None \<Rightarrow> nd
    | Some d \<Rightarrow> push_needs (sd_name svc)
        (ho (''unique_needs/'' @ sd_name svc) (remdups (deps_needs d))) nd"
  have "hm_get_or (?f svc nd) u [] =
      hm_get_or nd u [] @ (if u \<in> set (need_names svc) then [sd_name svc] else [])" for svc nd
    using assms by (auto simp: push need_names_def split: option.split)
  then have "hm_get_or (fold ?f ss nd) u [] =
      hm_get_or nd u [] @ map sd_name (filter (\<lambda>s. u \<in> set (need_names s)) ss)" for ss nd
    by (induction ss arbitrary: nd) auto
  moreover have "hm_get_or (fold (\<lambda>svc. hm_modify (sd_name svc) [] (\<lambda>l. l)) ss nd) u [] =
      hm_get_or nd u []" for ss and nd :: adjacency
    by (induction ss arbitrary: nd) auto
  ultimately show ?thesis by (simp add: build_needs_def hm_get_or_def)
qed

section \<open>What build returns\<close>

text \<open>The maps of a graph built from \<open>services\<close>; \<open>mark_ready\<close> changes none of them.\<close>

definition graph_shape :: "service_def list \<Rightarrow> service_graph \<Rightarrow> bool" where
  "graph_shape services g \<longleftrightarrow>
     (\<forall>u. succs (g_dependents g) u =
        (if u \<in> names_of services then dependents_of services u else [])) \<and>
     (\<forall>u. needs_dependents g u = map sd_name (filter (\<lambda>s. u \<in> set (need_names s)) services)) \<and>
     fst ` set (g_services g) = names_of services \<and> distinct (map fst (g_services g)) \<and>
     distinct (map fst (g_dependents g))"

lemma build_maps:
  assumes ho: "is_hash_order ho"
  obtains sm ind dm where
    "build ho services =
       (case kahn_loop dm (ho ''in_degree'' (zero_degree ind)) ind 0 of
          None \<Rightarrow> Panic
        | Some (visited, tmp) \<Rightarrow>
            if visited \<noteq> length services then
              Err (Cycle (join '', '' (ho ''tmp_degree'' (map fst (filter (\<lambda>(n, d). d > 0) tmp)))))
            else Ok \<lparr>g_services = sm, g_dependents = dm, g_in_degree = ind,
                     g_needs_dependents = build_needs ho services\<rparr>)"
    "\<And>u. succs dm u = (if u \<in> names_of services then dependents_of services u else [])"
    "\<And>v. hm_get_or ind v 0 = degree_of services services v"
    "fst ` set dm = names_of services" "fst ` set ind = names_of services"
    "fst ` set sm = names_of services" "distinct (map fst ind)" "distinct (map fst sm)"
    "distinct (map fst dm)"
proof -
  obtain sm ind0 dm0 where seed: "fold seed_service services ([], [], []) = (sm, ind0, dm0)"
    by (metis prod_cases3)
  note sd = seed_fold[OF seed]
  obtain dm ind where edges:
    "fold (add_service_edges ho (map sd_name services)) services (dm0, ind0) = (dm, ind)"
    by fastforce
  have ed: "(\<forall>u. succs dm u =
        succs dm0 u @ (if u \<in> set (map sd_name services) then dependents_of services u else [])) \<and>
    (\<forall>v. hm_get_or ind v 0 = hm_get_or ind0 v 0 + (\<Sum>s \<leftarrow> filter (\<lambda>s. sd_name s = v) services.
        card (set (all_dep_names s) \<inter> set (map sd_name services)))) \<and>
    fst ` set dm = fst ` set dm0 \<and> fst ` set ind = fst ` set ind0 \<and>
    (distinct (map fst ind0) \<longrightarrow> distinct (map fst ind)) \<and>
    (distinct (map fst dm0) \<longrightarrow> distinct (map fst dm))"
    using add_all_edges[OF ho edges] sd by (auto simp: names_of_def)
  show thesis
  proof (rule that[where sm = sm and ind = ind and dm = dm])
    show "build ho services = (case kahn_loop dm (ho ''in_degree'' (zero_degree ind)) ind 0 of
          None \<Rightarrow> Panic
        | Some (visited, tmp) \<Rightarrow>
            if visited \<noteq> length services then
              Err (Cycle (join '', '' (ho ''tmp_degree'' (map fst (filter (\<lambda>(n, d). d > 0) tmp)))))
            else Ok \<lparr>g_services = sm, g_dependents = dm, g_in_degree = ind,
                     g_needs_dependents = build_needs ho services\<rparr>)"
      by (simp add: build_def Let_def seed edges)
    show "succs dm u = (if u \<in> names_of services then dependents_of services u else [])" for u
      using ed sd by (simp add: succs_def names_of_def hm_get_or_def)
    show "hm_get_or ind v 0 = degree_of services services v" for v
      using ed sd by (simp add: degree_of_def names_of_def hm_get_or_def)
  qed (use ed sd in auto)
qed

lemma dependents_of_subset: "set (dependents_of services u) \<subseteq> names_of services"
  by (auto simp: dependents_of_def names_of_def)

lemma edge_rel_dep_rel:
  assumes "\<And>u. succs dm u = (if u \<in> names_of services then dependents_of services u else [])"
  shows "edge_rel (names_of services) dm = dep_rel services"
  by (auto simp: edge_rel_def dep_rel_def deps_of_def assms dependents_of_def names_of_def)

lemma set_zero_degree:
  "distinct (map fst ind) \<Longrightarrow> set (zero_degree ind) = {v \<in> fst ` set ind. hm_get_or ind v 0 = 0}"
  by (force simp: zero_degree_def hm_get_or_mem)

lemma distinct_zero_degree: "distinct (map fst ind) \<Longrightarrow> distinct (zero_degree ind)"
  by (simp add: zero_degree_def distinct_map_filter)

text \<open>The run of Kahn's algorithm inside \<open>build\<close>.\<close>

lemma build_kahn:
  assumes ho: "is_hash_order ho"
  obtains sm ind dm P tmp where
    "build ho services =
       (if length P \<noteq> length services then
          Err (Cycle (join '', '' (ho ''tmp_degree'' (map fst (filter (\<lambda>(n, d). d > 0) tmp)))))
        else Ok \<lparr>g_services = sm, g_dependents = dm, g_in_degree = ind,
                 g_needs_dependents = build_needs ho services\<rparr>)"
    "kahn_inv (names_of services) dm P [] tmp"
    "\<And>u. succs dm u = (if u \<in> names_of services then dependents_of services u else [])"
    "\<And>v. hm_get_or ind v 0 = degree_of services services v"
    "fst ` set ind = names_of services" "distinct (map fst ind)" "map fst tmp = map fst ind"
    "fst ` set sm = names_of services" "distinct (map fst sm)" "distinct (map fst dm)"
proof -
  obtain sm ind dm where b: "build ho services =
       (case kahn_loop dm (ho ''in_degree'' (zero_degree ind)) ind 0 of
          None \<Rightarrow> Panic
        | Some (visited, tmp) \<Rightarrow>
            if visited \<noteq> length services then
              Err (Cycle (join '', '' (ho ''tmp_degree'' (map fst (filter (\<lambda>(n, d). d > 0) tmp)))))
            else Ok \<lparr>g_services = sm, g_dependents = dm, g_in_degree = ind,
                     g_needs_dependents = build_needs ho services\<rparr>)"
    and m: "\<And>u. succs dm u = (if u \<in> names_of services then dependents_of services u else [])"
    "\<And>v. hm_get_or ind v 0 = degree_of services services v"
    "fst ` set dm = names_of services" "fst ` set ind = names_of services"
    "fst ` set sm = names_of services" "distinct (map fst ind)" "distinct (map fst sm)"
    "distinct (map fst dm)"
    using build_maps[OF ho] by metis
  have "kahn_inv (names_of services) dm [] (ho ''in_degree'' (zero_degree ind)) ind"
    using m ho degree_count[where known = services and services = services]
    by (auto simp: kahn_inv_def topo_prefix_def set_zero_degree distinct_zero_degree)
  with kahn_run[of "names_of services" dm "[]" _ ind 0] m dependents_of_subset
  obtain P tmp where "kahn_loop dm (ho ''in_degree'' (zero_degree ind)) ind 0 = Some (length P, tmp)"
    "kahn_inv (names_of services) dm P [] tmp" "map fst tmp = map fst ind"
    by (metis finite_names_of list.size(3) order_refl)
  with b m that show thesis by simp
qed

lemma degree_of_distinct:
  assumes "distinct (map sd_name services)"
  shows "degree_of services services v = card (deps_of services v)"
proof (cases "v \<in> names_of services")
  case True
  then obtain s where s: "s \<in> set services" "sd_name s = v" by (auto simp: names_of_def)
  then have "filter (\<lambda>s. sd_name s = v) services = [s]"
    using assms
    by (induction services) (auto simp: filter_empty_conv image_iff)
  moreover have "deps_of services v = set (all_dep_names s) \<inter> names_of services"
    using s assms by (auto simp: deps_of_def names_of_def distinct_map dest: inj_onD)
  ultimately show ?thesis by (simp add: degree_of_def)
next
  case False
  then have "filter (\<lambda>s. sd_name s = v) services = []" "deps_of services v = {}"
    by (auto simp: filter_empty_conv deps_of_def names_of_def)
  then show ?thesis by (simp add: degree_of_def)
qed

lemma kahn_inv_length_le: "finite V \<Longrightarrow> kahn_inv V dm P q tmp \<Longrightarrow> length P \<le> card V"
  by (metis card_mono distinct_append distinct_card kahn_inv_def le_sup_iff set_append)

lemma card_names_of_le: "card (names_of services) \<le> length services"
  by (metis card_length length_map names_of_def set_map)

lemma card_names_of_eq: "card (names_of services) = length services \<longleftrightarrow> distinct (map sd_name services)"
  by (metis card_distinct distinct_card length_map names_of_def set_map)

lemma build_Ok_facts:
  assumes "is_hash_order ho" "build ho services = Ok g"
  shows "graph_shape services g" "distinct (map sd_name services)"
    "hm_get_or (g_in_degree g) v 0 = card (deps_of services v)"
    "fst ` set (g_in_degree g) = names_of services" "distinct (map fst (g_in_degree g))"
    "acyclic (dep_rel services)" "graph_len g = length services"
proof -
  obtain sm ind dm P tmp where b: "build ho services =
       (if length P \<noteq> length services then
          Err (Cycle (join '', '' (ho ''tmp_degree'' (map fst (filter (\<lambda>(n, d). d > 0) tmp)))))
        else Ok \<lparr>g_services = sm, g_dependents = dm, g_in_degree = ind,
                 g_needs_dependents = build_needs ho services\<rparr>)"
    and inv: "kahn_inv (names_of services) dm P [] tmp"
    and m: "\<And>u. succs dm u = (if u \<in> names_of services then dependents_of services u else [])"
    "\<And>v. hm_get_or ind v 0 = degree_of services services v"
    "fst ` set ind = names_of services" "distinct (map fst ind)"
    "fst ` set sm = names_of services" "distinct (map fst sm)" "distinct (map fst dm)"
    using build_kahn[OF assms(1)] by metis
  from assms(2) b have len: "length P = length services"
    and g: "g = \<lparr>g_services = sm, g_dependents = dm, g_in_degree = ind,
       g_needs_dependents = build_needs ho services\<rparr>" by (auto split: if_splits)
  have card: "card (names_of services) = length services"
    using kahn_inv_length_le[OF _ inv] card_names_of_le[of services] len by simp
  then show dist: "distinct (map sd_name services)" by (simp add: card_names_of_eq)
  show "graph_shape services g"
    using m build_needs_get[OF assms(1), of services]
    by (simp add: g graph_shape_def needs_dependents_def hm_get_or_def)
  show "hm_get_or (g_in_degree g) v 0 = card (deps_of services v)"
    using m(2) degree_of_distinct[OF dist] by (simp add: g)
  show "acyclic (dep_rel services)"
    using kahn_final(2)[OF _ _ inv] m(1) dependents_of_subset len card
    by (simp add: edge_rel_dep_rel[OF m(1)])
  show "graph_len g = length services"
    using m(5,6) card distinct_card[of "map fst sm"] by (simp add: g graph_len_def)
  show "fst ` set (g_in_degree g) = names_of services" "distinct (map fst (g_in_degree g))"
    using m(3,4) by (simp_all add: g)
qed

lemma stuck_of_names: "stuck_of services \<subseteq> names_of services"
proof
  fix v assume "v \<in> stuck_of services"
  then obtain c where c: "(c, c) \<in> (dep_rel services)\<^sup>+" "(c, v) \<in> (dep_rel services)\<^sup>*"
    by (auto simp: stuck_of_def)
  then have "(c, v) \<in> (dep_rel services)\<^sup>+" by (rule trancl_rtrancl_trancl)
  then obtain u where "(u, v) \<in> dep_rel services" by (blast elim: tranclE)
  then show "v \<in> names_of services" by (auto simp: dep_rel_def deps_of_def names_of_def)
qed

lemma stuck_of_empty_iff: "stuck_of services = {} \<longleftrightarrow> acyclic (dep_rel services)"
  by (auto simp: stuck_of_def acyclic_def)

text \<open>What \<open>build\<close> does with any list of services, in one statement.\<close>

lemma build_cases:
  assumes "is_hash_order ho"
  obtains (ok) g where "build ho services = Ok g" "acyclic (dep_rel services)"
      "distinct (map sd_name services)"
    | (cycle) ns where "build ho services = Err (Cycle (join '', '' ns))"
      "\<not> (acyclic (dep_rel services) \<and> distinct (map sd_name services))"
      "distinct ns" "set ns = stuck_of services"
proof -
  obtain sm ind dm P tmp where b: "build ho services =
       (if length P \<noteq> length services then
          Err (Cycle (join '', '' (ho ''tmp_degree'' (map fst (filter (\<lambda>(n, d). d > 0) tmp)))))
        else Ok \<lparr>g_services = sm, g_dependents = dm, g_in_degree = ind,
                 g_needs_dependents = build_needs ho services\<rparr>)"
    and inv: "kahn_inv (names_of services) dm P [] tmp"
    and m: "\<And>u. succs dm u = (if u \<in> names_of services then dependents_of services u else [])"
      "fst ` set ind = names_of services" "distinct (map fst ind)" "map fst tmp = map fst ind"
    using build_kahn[OF assms(1)] by metis
  define ns where "ns = map fst (filter (\<lambda>(n, d). d > 0) tmp)"
  note edges = edge_rel_dep_rel[OF m(1)]
  have cl: "\<And>u. u \<in> names_of services \<Longrightarrow> set (succs dm u) \<subseteq> names_of services"
    using m(1) dependents_of_subset by simp
  have dist: "distinct (map fst tmp)" using m by simp
  have "set ns = {v \<in> fst ` set tmp. 0 < hm_get_or tmp v 0}"
    using dist by (force simp: ns_def hm_get_or_mem)
  also have "fst ` set tmp = names_of services" using m(2,4) by (metis set_map)
  finally have set_ns: "set ns = stuck_of services"
    using kahn_final_left[OF finite_names_of cl inv] stuck_of_names[of services]
    by (auto simp: edges stuck_of_def)
  have len: "length P = length services \<longleftrightarrow>
      acyclic (dep_rel services) \<and> distinct (map sd_name services)"
    using kahn_final(2)[OF finite_names_of cl inv] kahn_inv_length_le[OF finite_names_of inv]
      card_names_of_le[of services] card_names_of_eq[of services] edges by auto
  show thesis
  proof (cases "length P = length services")
    case True
    with b len show thesis by (intro ok) auto
  next
    case False
    with b have "build ho services = Err (Cycle (join '', '' (ho ''tmp_degree'' ns)))"
      by (simp add: ns_def)
    moreover have "distinct ns" using dist by (simp add: ns_def distinct_map_filter)
    ultimately show thesis using False len set_ns assms by (intro cycle[of "ho ''tmp_degree'' ns"]) simp_all
  qed
qed

section \<open>The interface the executor relies on\<close>

text \<open>
  A tracker of unmet dependencies: \<open>mark g n\<close> says that \<open>n\<close> is settled and returns what this
  releases. \<open>pending g v\<close> counts what \<open>v\<close> still waits for, \<open>mult g n v\<close> the edges from \<open>n\<close>
  to \<open>v\<close>.
\<close>

locale dep_tracker =
  fixes mark :: "'g \<Rightarrow> 'n \<Rightarrow> 'n list \<times> 'g"
    and pending :: "'g \<Rightarrow> 'n \<Rightarrow> nat"
    and mult :: "'g \<Rightarrow> 'n \<Rightarrow> 'n \<Rightarrow> nat"
  assumes mark_pending: "pending (snd (mark g n)) v = pending g v - mult g n v"
    and mark_mult: "mult (snd (mark g n)) = mult g"
    and mark_released:
      "v \<in> set (fst (mark g n)) \<longleftrightarrow> 0 < pending g v \<and> pending g v \<le> mult g n v"
    and mark_distinct: "distinct (fst (mark g n))"
begin

abbreviation mark_all :: "'n list \<Rightarrow> 'g \<Rightarrow> 'g" where
  "mark_all ms g \<equiv> fold (\<lambda>n g. snd (mark g n)) ms g"

lemma mult_mark_all: "mult (mark_all ms g) = mult g"
  by (induction ms arbitrary: g) (auto simp: mark_mult)

lemma pending_mark_all:
  "pending (mark_all ms g) v = pending g v - (\<Sum>n \<leftarrow> ms. mult g n v)"
  by (induction ms arbitrary: g) (auto simp: mark_pending mark_mult)

text \<open>Simple edges and distinct marks: what is pending is what has not been marked.\<close>

lemma pending_unmarked:
  assumes "finite D" "\<And>n. mult g n v = (if n \<in> D then 1 else 0)" "pending g v = card D" "distinct ms"
  shows "pending (mark_all ms g) v = card (D - set ms)"
proof -
  have "(\<Sum>n \<leftarrow> ms. mult g n v) = card (D \<inter> set ms)"
    using assms(2,4)
    by (simp add: sum_list_distinct_conv_sum_set sum.If_cases Int_commute)
  moreover have "card D = card (D \<inter> set ms) + card (D - set ms)"
    using assms(1) card_Int_Diff by blast
  ultimately show ?thesis using assms(3) by (simp add: pending_mark_all)
qed

lemma released_iff:
  assumes "finite D" "\<And>n. mult g n v = (if n \<in> D then 1 else 0)" "pending g v = card D"
    "distinct (ms @ [n])"
  shows "v \<in> set (fst (mark (mark_all ms g) n)) \<longleftrightarrow> n \<in> D \<and> D \<subseteq> set (ms @ [n])"
proof -
  have p: "pending (mark_all ms g) v = card (D - set ms)"
    using pending_unmarked[OF assms(1-3)] assms(4) by simp
  have fin: "finite (D - set ms)" using assms(1) by simp
  have "v \<in> set (fst (mark (mark_all ms g) n)) \<longleftrightarrow> n \<in> D \<and> card (D - set ms) = 1"
    using mark_released[of v "mark_all ms g" n] p assms(2) by (auto simp: mult_mark_all)
  also have "\<dots> \<longleftrightarrow> n \<in> D \<and> D - set ms = {n}"
  proof -
    have "S = {n}" if "card S = 1" "n \<in> S" for S
      using that by (metis card_1_singletonE singletonD)
    then show ?thesis using assms(4) by auto
  qed
  finally show ?thesis using assms(4) by auto
qed

end

lemma mark_ready_alt:
  "mark_ready g n =
     (case relax_sat (succs (g_dependents g) n) (g_in_degree g) [] of (ind, new) \<Rightarrow>
        (sort new, g\<lparr>g_in_degree := ind\<rparr>))"
  by (simp add: mark_ready_def succs_def hm_get_or_def split: option.split)

interpretation gt: dep_tracker mark_ready "\<lambda>g v. hm_get_or (g_in_degree g) v 0"
  "\<lambda>g n v. count_list (succs (g_dependents g) n) v"
proof (unfold_locales, goal_cases)
  case (1 g n v)
  then show ?case
    using relax_sat_degree[of "succs (g_dependents g) n" "g_in_degree g" "[]" v]
    by (simp add: mark_ready_alt split_def)
next
  case (2 g n)
  then show ?case by (simp add: mark_ready_alt split_def)
next
  case (3 v g n)
  then show ?case
    using relax_sat_new[of "succs (g_dependents g) n" "g_in_degree g" "[]"]
    by (auto simp: mark_ready_alt split_def)
next
  case (4 g n)
  then show ?case
    using relax_sat_new[of "succs (g_dependents g) n" "g_in_degree g" "[]"]
    by (auto simp: mark_ready_alt split_def)
qed

lemma mark_ready_frame [simp, flint_simps]:
  "g_dependents (snd (mark_ready g n)) = g_dependents g"
  "g_needs_dependents (snd (mark_ready g n)) = g_needs_dependents g"
  "g_services (snd (mark_ready g n)) = g_services g"
  by (simp_all add: mark_ready_alt split_def)

lemma graph_shape_mark_ready [simp]:
  "graph_shape services (snd (mark_ready g n)) = graph_shape services g"
  by (simp add: graph_shape_def needs_dependents_def)

text \<open>The built graph meets the premises of the release lemma.\<close>

lemma succs_built_mult:
  assumes "is_hash_order ho" "build ho services = Ok g"
  shows "count_list (succs (g_dependents g) n) v = (if n \<in> deps_of services v then 1 else 0)"
proof -
  note f = build_Ok_facts[OF assms]
  have "succs (g_dependents g) n =
      (if n \<in> names_of services then dependents_of services n else [])"
    using f(1) by (simp add: graph_shape_def)
  moreover have "distinct (dependents_of services n)"
    using f(2) by (simp add: dependents_of_def distinct_map_filter)
  ultimately show ?thesis
    by (auto simp: distinct_count_list dependents_of_def deps_of_def names_of_def)
qed

lemma finite_deps_of [simp]: "finite (deps_of services v)"
  by (simp add: deps_of_def)

lemma build_pending:
  assumes "is_hash_order ho" "build ho services = Ok g" "distinct ms"
  shows "hm_get_or (g_in_degree (fold (\<lambda>m g. snd (mark_ready g m)) ms g)) v 0 =
    card (deps_of services v - set ms)"
  by (rule gt.pending_unmarked[OF finite_deps_of succs_built_mult[OF assms(1,2)]
      build_Ok_facts(3)[OF assms(1,2)] assms(3)])

lemma build_release_iff:
  assumes "is_hash_order ho" "build ho services = Ok g" "distinct (ms @ [n])"
  shows "v \<in> set (fst (mark_ready (fold (\<lambda>m g. snd (mark_ready g m)) ms g) n)) \<longleftrightarrow>
    n \<in> deps_of services v \<and> deps_of services v \<subseteq> set (ms @ [n])"
  by (rule gt.released_iff[OF finite_deps_of succs_built_mult[OF assms(1,2)]
      build_Ok_facts(3)[OF assms(1,2)] assms(3)])

lemma graph_shape_mark_all:
  "graph_shape services (fold (\<lambda>m g. snd (mark_ready g m)) ms g) = graph_shape services g"
  by (induction ms arbitrary: g) auto

lemma dependents_mark_all [simp]:
  "g_dependents (fold (\<lambda>m g. snd (mark_ready g m)) ms g) = g_dependents g"
  by (induction ms arbitrary: g) auto

end
