(* ===== verification/Shutdown_Order.thy ===== *)
theory Shutdown_Order
  imports Service_Graph
begin

text \<open>
  \<open>ServiceGraph::shutdown_order\<close> (\<open>graph.rs\<close>, lines 164-217): peel off, round by round, the
  running services that no remaining running service depends on. The set of running names is a
  list without repetitions. Decrements of different dependencies commute and every round is
  sorted, so the iteration order of the hash containers does not show in the result.
\<close>

section \<open>Definitions\<close>

fun count_dependents :: "adjacency \<Rightarrow> string list \<Rightarrow> degrees \<Rightarrow> degrees" where
  "count_dependents [] running dep_count = dep_count"
| "count_dependents ((dep, ds) # rest) running dep_count =
     (if dep \<notin> set running then count_dependents rest running dep_count
      else count_dependents rest running
        (fold (\<lambda>dependent dc. if dependent \<in> set running then hm_modify dep 0 (\<lambda>c. c + 1) dc else dc)
           ds dep_count))"

fun decrement_deps :: "adjacency \<Rightarrow> string list \<Rightarrow> string \<Rightarrow> degrees \<Rightarrow> degrees" where
  "decrement_deps [] remaining leaf dep_count = dep_count"
| "decrement_deps ((dep, ds) # rest) remaining leaf dep_count =
     decrement_deps rest remaining leaf
       (if dep \<in> set remaining \<and> leaf \<in> set ds
        then hm_modify dep 0 (\<lambda>c. if c > 0 then c - 1 else c) dep_count
        else dep_count)"

fun remove_leaves ::
  "adjacency \<Rightarrow> string list \<Rightarrow> string list \<Rightarrow> degrees \<Rightarrow> string list \<times> degrees" where
  "remove_leaves dependents [] remaining dep_count = (remaining, dep_count)"
| "remove_leaves dependents (leaf # leaves) remaining dep_count =
     (let remaining' = removeAll leaf remaining
      in remove_leaves dependents leaves remaining'
           (decrement_deps dependents remaining' leaf dep_count))"

lemma remove_leaves_remaining:
  "fst (remove_leaves dm leaves remaining dc) = filter (\<lambda>s. s \<notin> set leaves) remaining"
  by (induction leaves arbitrary: remaining dc)
    (auto simp: Let_def removeAll_filter_not_eq intro: filter_cong)

function shutdown_loop ::
  "adjacency \<Rightarrow> string list \<Rightarrow> degrees \<Rightarrow> string list \<Rightarrow> string list" where
  "shutdown_loop dependents remaining dep_count order =
     (if remaining = [] then order
      else let leaves = sort (filter (\<lambda>s. hm_get_or dep_count s 0 = 0) remaining)
        in if leaves = [] then order @ sort remaining
           else case remove_leaves dependents leaves remaining dep_count of
                  (remaining', dep_count') \<Rightarrow>
                    shutdown_loop dependents remaining' dep_count' (order @ leaves))"
  by pat_completeness auto
termination
proof (relation "measure (\<lambda>(dm, remaining, dc, order). length remaining)", goal_cases)
  case (2 dm remaining dc order leaves r' dc')
  then have r': "r' = filter (\<lambda>s. s \<notin> set leaves) remaining"
    by (metis fst_conv remove_leaves_remaining)
  from 2 have "leaves \<noteq> []" by simp
  then obtain l where "l \<in> set leaves" using hd_in_set by blast
  moreover from this 2 have "l \<in> set remaining" by auto
  ultimately show ?case unfolding r' by (auto intro: length_filter_less)
qed simp

definition shutdown_order :: "service_graph \<Rightarrow> string list \<Rightarrow> string list" where
  "shutdown_order g running =
     shutdown_loop (g_dependents g) running
       (count_dependents (g_dependents g) running (map (\<lambda>s. (s, 0)) running)) []"

declare shutdown_loop.simps [simp del]

section \<open>Every running service is stopped once\<close>

lemma shutdown_loop_mset:
  "mset (shutdown_loop dm remaining dc order) = mset order + mset remaining"
proof (induction dm remaining dc order rule: shutdown_loop.induct)
  case (1 dm remaining dc order)
  define leaves where "leaves = sort (filter (\<lambda>s. hm_get_or dc s 0 = 0) remaining)"
  obtain r' dc' where rl: "remove_leaves dm leaves remaining dc = (r', dc')" by fastforce
  have "r' = filter (\<lambda>s. s \<notin> set leaves) remaining"
    using remove_leaves_remaining[of dm leaves remaining dc] rl by simp
  then have "r' = filter (\<lambda>s. \<not> hm_get_or dc s 0 = 0) remaining"
    by (auto simp: leaves_def intro: filter_cong)
  then have "mset leaves + mset r' = mset remaining"
    by (simp add: leaves_def)
  then show ?case
    using "1.IH"[OF _ leaves_def _ rl[symmetric]]
    by (subst shutdown_loop.simps) (auto simp: Let_def leaves_def[symmetric] rl)
qed

section \<open>Dependents are stopped before what they depend on\<close>

definition live_dependents :: "adjacency \<Rightarrow> string set \<Rightarrow> string \<Rightarrow> string set" where
  "live_dependents dm R d = {s \<in> R. s \<in> set (succs dm d)}"

text \<open>The counters of the remaining services are exact.\<close>

definition counts_exact :: "adjacency \<Rightarrow> string set \<Rightarrow> degrees \<Rightarrow> bool" where
  "counts_exact dm R dc \<longleftrightarrow> (\<forall>d \<in> R. hm_get_or dc d 0 = card (live_dependents dm R d))"

text \<open>Whoever stands in the order has all its running dependents before it.\<close>

definition kill_ordered :: "adjacency \<Rightarrow> string set \<Rightarrow> string list \<Rightarrow> bool" where
  "kill_ordered dm R order \<longleftrightarrow>
     (\<forall>xs d ys. order = xs @ d # ys \<longrightarrow> live_dependents dm R d \<subseteq> set xs)"

lemma count_fold:
  "hm_get_or (fold (\<lambda>x dc. if x \<in> R then hm_modify dep 0 (\<lambda>c. c + 1) dc else dc) ds dc) d 0 =
     hm_get_or dc d 0 + (if d = dep then length (filter (\<lambda>x. x \<in> R) ds) else (0::nat))"
  by (induction ds arbitrary: dc) auto

lemma count_dependents_get:
  "distinct (map fst dm) \<Longrightarrow> hm_get_or (count_dependents dm running dc) d 0 = hm_get_or dc d 0 +
     (if d \<in> set running then length (filter (\<lambda>x. x \<in> set running) (succs dm d)) else 0)"
proof (induction dm running dc rule: count_dependents.induct)
  case (2 dep ds rest running dc)
  have "succs rest dep = []" using "2.prems" by (auto simp: succs_def intro: hm_get_or_notin)
  with 2 show ?case by (auto simp: count_fold succs_def)
qed (simp add: succs_def)

lemma decrement_deps_get:
  "distinct (map fst dm) \<Longrightarrow> hm_get_or (decrement_deps dm remaining leaf dc) d 0 =
     hm_get_or dc d 0 - (if d \<in> set remaining \<and> leaf \<in> set (succs dm d) then 1 else 0)"
proof (induction dm remaining leaf dc rule: decrement_deps.induct)
  case (2 dep ds rest remaining leaf dc)
  have "succs rest dep = []" using "2.prems" by (auto simp: succs_def intro: hm_get_or_notin)
  with 2 show ?case by (auto simp: succs_def)
qed (simp add: succs_def)

lemma counts_exact_remove:
  assumes "distinct (map fst dm)" "counts_exact dm (set remaining) dc" "leaf \<in> set remaining"
  shows "counts_exact dm (set (removeAll leaf remaining))
    (decrement_deps dm (removeAll leaf remaining) leaf dc)"
  unfolding counts_exact_def
proof
  fix d assume d: "d \<in> set (removeAll leaf remaining)"
  have eq: "live_dependents dm (set (removeAll leaf remaining)) d =
      live_dependents dm (set remaining) d - {leaf}"
    by (auto simp: live_dependents_def)
  have "hm_get_or dc d 0 = card (live_dependents dm (set remaining) d)"
    using assms(2) d by (simp add: counts_exact_def)
  moreover have "leaf \<in> live_dependents dm (set remaining) d \<longleftrightarrow> leaf \<in> set (succs dm d)"
    using assms(3) by (auto simp: live_dependents_def)
  ultimately show "hm_get_or (decrement_deps dm (removeAll leaf remaining) leaf dc) d 0 =
      card (live_dependents dm (set (removeAll leaf remaining)) d)"
    unfolding eq using d by (simp add: decrement_deps_get[OF assms(1)] card_Diff_singleton_if)
qed

lemma counts_exact_remove_leaves:
  assumes "distinct (map fst dm)" "counts_exact dm (set remaining) dc"
    "set leaves \<subseteq> set remaining" "distinct leaves"
  shows "counts_exact dm (set (fst (remove_leaves dm leaves remaining dc)))
    (snd (remove_leaves dm leaves remaining dc))"
  using assms(2-)
proof (induction leaves arbitrary: remaining dc)
  case (Cons l ls)
  have "counts_exact dm (set (removeAll l remaining)) (decrement_deps dm (removeAll l remaining) l dc)"
    using Cons.prems by (intro counts_exact_remove[OF assms(1)]) auto
  from Cons.IH[OF this] Cons.prems show ?case by (auto simp: Let_def)
qed simp

lemma kill_ordered_append:
  assumes "kill_ordered dm R order" "\<And>l. l \<in> set leaves \<Longrightarrow> live_dependents dm R l \<subseteq> set order"
  shows "kill_ordered dm R (order @ leaves)"
  unfolding kill_ordered_def
proof (intro allI impI)
  fix xs d ys assume eq: "order @ leaves = xs @ d # ys"
  from eq consider (old) us where "order = xs @ d # us" | (new) us where "xs = order @ us"
      "leaves = us @ d # ys"
    by (auto simp: append_eq_append_conv2 append_eq_Cons_conv)
  then show "live_dependents dm R d \<subseteq> set xs"
  proof cases
    case old
    with assms(1) show ?thesis by (simp add: kill_ordered_def)
  next
    case new
    with assms(2)[of d] show ?thesis by auto
  qed
qed

text \<open>In an acyclic graph some remaining service has no remaining dependent.\<close>

lemma acyclic_has_leaf:
  assumes "acyclic E" "finite R" "R \<noteq> {}" "\<And>d. live_dependents dm R d \<subseteq> {s. (d, s) \<in> E}"
  shows "\<exists>d \<in> R. live_dependents dm R d = {}"
proof -
  let ?S = "(E \<inter> R \<times> R)\<inverse>"
  have "finite ?S" using assms(2) by (simp add: finite_subset[of _ "R \<times> R"])
  moreover have "acyclic (E \<inter> R \<times> R)" by (rule acyclic_subset[OF assms(1)]) simp
  then have "acyclic ?S" by (simp only: acyclic_converse)
  ultimately have "wf ?S" by (rule finite_acyclic_wf)
  then obtain z where z: "z \<in> R" "\<And>y. (y, z) \<in> ?S \<Longrightarrow> y \<notin> R"
    using assms(3) by (metis ex_in_conv wfE_min)
  have "live_dependents dm R z = {}"
  proof (rule equals0I)
    fix y assume y: "y \<in> live_dependents dm R z"
    then have "y \<in> R" by (simp add: live_dependents_def)
    moreover from y assms(4) have "(z, y) \<in> E" by blast
    ultimately show False using z by blast
  qed
  with z(1) show ?thesis by blast
qed

lemma shutdown_loop_kill_ordered:
  assumes "distinct (map fst dm)" "acyclic E"
    "\<And>R d. live_dependents dm R d \<subseteq> {s. (d, s) \<in> E}"
    "counts_exact dm (set remaining) dc" "distinct remaining"
    "kill_ordered dm R order" "set order = R - set remaining" "set remaining \<subseteq> R"
  shows "kill_ordered dm R (shutdown_loop dm remaining dc order)"
  using assms
proof (induction dm remaining dc order rule: shutdown_loop.induct)
  case (1 dm remaining dc order)
  define leaves where "leaves = sort (filter (\<lambda>s. hm_get_or dc s 0 = 0) remaining)"
  obtain r' dc' where rl: "remove_leaves dm leaves remaining dc = (r', dc')" by fastforce
  have r': "r' = filter (\<lambda>s. s \<notin> set leaves) remaining"
    using remove_leaves_remaining[of dm leaves remaining dc] rl by simp
  show ?case
  proof (cases "remaining = []")
    case True
    then show ?thesis using "1.prems"(6) by (subst shutdown_loop.simps) simp
  next
    case False
    have leaf: "live_dependents dm (set remaining) l = {}" if "l \<in> set leaves" for l
      using that "1.prems"(4) by (auto simp: leaves_def counts_exact_def live_dependents_def)
    have "leaves \<noteq> []"
    proof -
      obtain d where "d \<in> set remaining" "live_dependents dm (set remaining) d = {}"
        using acyclic_has_leaf[OF "1.prems"(2), of "set remaining" dm] False "1.prems"(3) by auto
      with "1.prems"(4) show ?thesis
        by (auto simp: leaves_def counts_exact_def filter_empty_conv simp flip: set_empty)
    qed
    moreover have "kill_ordered dm R (shutdown_loop dm r' dc' (order @ leaves))"
    proof (rule "1.IH"[OF False leaves_def \<open>leaves \<noteq> []\<close> rl[symmetric] "1.prems"(1-3)])
      show "counts_exact dm (set r') dc'"
        using counts_exact_remove_leaves[OF "1.prems"(1,4), of leaves] "1.prems"(5) rl
        by (simp add: leaves_def)
      show "kill_ordered dm R (order @ leaves)"
        using "1.prems"(6,7) leaf
        by (intro kill_ordered_append) (auto simp: live_dependents_def)
    qed (use "1.prems" r' leaves_def in auto)
    ultimately show ?thesis
      using False by (subst shutdown_loop.simps) (simp add: leaves_def[symmetric] rl)
  qed
qed

lemma counts_exact_init:
  assumes "distinct (map fst dm)" "\<And>u. distinct (succs dm u)"
  shows "counts_exact dm (set running) (count_dependents dm running (map (\<lambda>s. (s, 0)) running))"
proof -
  have "hm_get_or (map (\<lambda>s. (s, 0::nat)) running) d 0 = 0" for d
    by (induction running) auto
  moreover have "length (filter (\<lambda>x. x \<in> set running) (succs dm d)) =
      card (live_dependents dm (set running) d)" for d
    using distinct_card[of "filter (\<lambda>x. x \<in> set running) (succs dm d)"] assms(2)
    by (simp add: live_dependents_def conj_commute Collect_conj_eq Int_commute)
  ultimately show ?thesis by (simp add: counts_exact_def count_dependents_get[OF assms(1)])
qed

lemma shutdown_order_before:
  assumes "is_hash_order ho" "build ho services = Ok g" "distinct running"
    "d \<in> deps_of services s" "s \<in> set running" "d \<in> set running"
  shows "\<exists>xs ys zs. shutdown_order (fold (\<lambda>m g. snd (mark_ready g m)) ms g) running =
    xs @ s # ys @ d # zs"
proof -
  let ?dm = "g_dependents g"
  note f = build_Ok_facts[OF assms(1,2)]
  have mult: "count_list (succs ?dm n) v = (if n \<in> deps_of services v then 1 else 0)" for n v
    by (rule succs_built_mult[OF assms(1,2)])
  have succ: "v \<in> set (succs ?dm n) \<longleftrightarrow> n \<in> deps_of services v" for n v
    using mult[of n v] count_list_0_iff[of "succs ?dm n" v] by (auto split: if_splits)
  have dist: "distinct (succs ?dm n)" for n
    using f(1,2) by (auto simp: graph_shape_def dependents_of_def distinct_map_filter)
  have keys: "distinct (map fst ?dm)" using f(1) by (simp add: graph_shape_def)
  let ?ord = "shutdown_order (fold (\<lambda>m g. snd (mark_ready g m)) ms g) running"
  have "kill_ordered ?dm (set running) ?ord"
    unfolding shutdown_order_def dependents_mark_all
    by (rule shutdown_loop_kill_ordered[OF keys f(6)])
      (use counts_exact_init[OF keys dist] assms(3) succ in
        \<open>auto simp: live_dependents_def dep_rel_def kill_ordered_def\<close>)
  moreover have "d \<in> set ?ord"
    using assms(6) shutdown_loop_mset mset_eq_setD
    by (metis add.left_neutral mset.simps(1) shutdown_order_def)
  then obtain us zs where ord: "?ord = us @ d # zs" by (meson split_list)
  ultimately have "live_dependents ?dm (set running) d \<subseteq> set us" by (simp add: kill_ordered_def)
  with assms(4,5) succ have "s \<in> set us" by (auto simp: live_dependents_def)
  then obtain xs ys where "us = xs @ s # ys" by (meson split_list)
  with ord show ?thesis by auto
qed

end
