(* ===== verification/Samples.thy ===== *)
theory Samples
  imports Service_Graph
begin

text \<open>
  Concrete service definitions on which the witnesses evaluate the model: a service with a name,
  its \<open>after\<close> and \<open>needs\<close> lists and a restart policy, run as \<open>/bin/\<close> followed by its name, as
  in the \<open>make_service\<close> helpers of the unit tests of \<open>graph.rs\<close> and \<open>executor.rs\<close>.
\<close>

definition sample_service ::
  "string \<Rightarrow> string list \<Rightarrow> string list \<Rightarrow> restart_policy option \<Rightarrow> service_def" where
  "sample_service n after needs policy =
     \<lparr>sd_service = \<lparr>svc_name = n, svc_exec = ''/bin/'' @ n, svc_restart = policy,
                    svc_user = None, svc_args = None\<rparr>,
      sd_deps = (if after = [] \<and> needs = [] then None
                 else Some \<lparr>deps_after = after, deps_needs = needs\<rparr>),
      sd_ready = None, sd_resources = None\<rparr>"

definition sample_order :: hash_order where
  "sample_order t xs = xs"

lemma sample_order_ok [simp]: "is_hash_order sample_order"
  by (simp add: is_hash_order_def sample_order_def)

lemma sample_fields [simp]:
  "sd_name (sample_service n a r p) = n"
  "all_dep_names (sample_service n a r p) = a @ r"
  "need_names (sample_service n a r p) = r"
  by (auto simp: sample_service_def all_dep_names_def need_names_def)

text \<open>\<open>root\<close>, then \<open>left\<close> and \<open>right\<close>, then \<open>leaf\<close>.\<close>

definition diamond :: "service_def list" where
  "diamond =
     [sample_service ''root'' [] [] None,
      sample_service ''left'' [''root''] [] None,
      sample_service ''right'' [''root''] [] None,
      sample_service ''leaf'' [''left''] [''right''] None]"

definition two_cycle :: "service_def list" where
  "two_cycle = [sample_service ''a'' [''b''] [] None, sample_service ''b'' [''a''] [] None]"

text \<open>A definition that \<open>validate\<close> refuses: its readiness file is not below \<open>/run\<close>.\<close>

definition wild_service :: service_def where
  "wild_service = (sample_service ''left'' [] [] None)
     \<lparr>sd_ready := Some \<lparr>rd_strategy = Pidfile, rd_path = Some ''/etc/passwd''\<rparr>\<rparr>"

end
