(* ===== verification/Graph_Properties.thy ===== *)
theory Graph_Properties
  imports Shutdown_Order Samples
begin

text \<open>
  The properties of the dependency graph: when \<open>build\<close> succeeds and what its error names, the
  start set, the release discipline of \<open>mark_ready\<close>, and the order of the graceful shutdown.
\<close>

section \<open>build\<close>

text \<open>C4: with distinct service names, for every hash iteration order, building the graph succeeds
  exactly when the relation "is a known dependency of" is acyclic.\<close>

theorem build_succeeds_iff_acyclic:
  assumes "is_hash_order ho" "distinct (map sd_name services)"
  shows "(\<exists>g. build ho services = Ok g) \<longleftrightarrow> acyclic (dep_rel services)"
  by (rule build_cases[OF assms(1), of services]) (use assms(2) in auto)

theorem build_succeeds_iff_acyclic_witness:
  "(\<exists>g. build sample_order diamond = Ok g) \<and> acyclic (dep_rel diamond) \<and>
   \<not> acyclic (dep_rel two_cycle)"
proof -
  have d: "distinct (map sd_name diamond)" "distinct (map sd_name two_cycle)"
    by (simp_all add: diamond_def two_cycle_def)
  have ok: "\<exists>g. build sample_order diamond = Ok g"
  proof -
    have "case build sample_order diamond of Ok g \<Rightarrow> True | _ \<Rightarrow> False" by code_simp
    then show ?thesis by (auto split: outcome.splits)
  qed
  have bad: "\<not> (\<exists>g. build sample_order two_cycle = Ok g)"
  proof -
    have "build sample_order two_cycle = Err (Cycle ''a, b'')" by code_simp
    then show ?thesis by simp
  qed
  show ?thesis
    using build_succeeds_iff_acyclic[OF sample_order_ok d(1)]
      build_succeeds_iff_acyclic[OF sample_order_ok d(2)] ok bad by blast
qed

text \<open>C24: the error of a rejected graph is a cycle report whose list names, once each, exactly the
  services that lie on a dependency cycle or downstream of one; the list is not empty.\<close>

theorem build_cycle_report:
  assumes "is_hash_order ho" "distinct (map sd_name services)" "build ho services = Err e"
  shows "\<exists>ns. e = Cycle (join '', '' ns) \<and> distinct ns \<and> ns \<noteq> [] \<and> set ns = stuck_of services"
proof (rule build_cases[OF assms(1), of services])
  fix ns assume "build ho services = Err (Cycle (join '', '' ns))"
    "\<not> (acyclic (dep_rel services) \<and> distinct (map sd_name services))"
    "distinct ns" "set ns = stuck_of services"
  with assms stuck_of_empty_iff[of services] show ?thesis by (intro exI[of _ ns]) auto
qed (use assms(3) in simp)

theorem build_cycle_report_witness:
  "build sample_order two_cycle = Err (Cycle ''a, b'') \<and>
   (\<exists>ns. Cycle ''a, b'' = Cycle (join '', '' ns) \<and> distinct ns \<and> ns \<noteq> [] \<and>
      set ns = stuck_of two_cycle)"
proof -
  have e: "build sample_order two_cycle = Err (Cycle ''a, b'')" by code_simp
  have d: "distinct (map sd_name two_cycle)" by (simp add: two_cycle_def)
  show ?thesis using e build_cycle_report[OF sample_order_ok d e] by blast
qed

text \<open>C25: building the graph never panics: no decrement of the cycle search underflows, whatever
  the services are (repeated names included) and in whatever order the hash tables iterate; and an
  unknown dependency is never an error.\<close>

theorem build_no_panic:
  assumes "is_hash_order ho"
  shows "build ho services \<noteq> Panic \<and> (\<forall>s d. build ho services \<noteq> Err (UnknownDep s d))"
  by (rule build_cases[OF assms, of services]) auto

theorem build_no_panic_witness:
  "is_hash_order sample_order \<and> build sample_order (two_cycle @ diamond @ diamond) \<noteq> Panic"
  using build_no_panic[OF sample_order_ok, of "two_cycle @ diamond @ diamond"] by simp

text \<open>C40: two services with the same name make \<open>build\<close> report a cycle even when there is none, and
  then the report names no service at all.\<close>

theorem build_duplicate_names:
  assumes "is_hash_order ho" "\<not> distinct (map sd_name services)" "acyclic (dep_rel services)"
  shows "build ho services = Err (Cycle '''')"
proof (rule build_cases[OF assms(1), of services])
  fix ns assume "build ho services = Err (Cycle (join '', '' ns))" "set ns = stuck_of services"
  with assms(3) stuck_of_empty_iff[of services] show ?thesis by simp
qed (use assms(2) in simp)

theorem build_duplicate_names_witness:
  "build sample_order [sample_service ''a'' [] [] None, sample_service ''a'' [] [] None] =
     Err (Cycle '''')"
proof (rule build_duplicate_names[OF sample_order_ok])
  have "dep_rel [sample_service ''a'' [] [] None, sample_service ''a'' [] [] None] = {}"
    by (auto simp: dep_rel_def deps_of_def)
  then show "acyclic (dep_rel [sample_service ''a'' [] [] None, sample_service ''a'' [] [] None])"
    by (simp add: acyclic_def)
qed simp

section \<open>Starting and releasing services\<close>

text \<open>C28: the services started at boot are exactly those with no known dependency, in ascending
  order.\<close>

theorem initially_ready_no_deps:
  assumes "is_hash_order ho" "build ho services = Ok g"
  shows "initially_ready g = sorted_list_of_set {v \<in> names_of services. deps_of services v = {}}"
proof -
  note f = build_Ok_facts[OF assms]
  have "set (zero_degree (g_in_degree g)) = {v \<in> names_of services. deps_of services v = {}}"
    using f by (auto simp: set_zero_degree)
  moreover have "distinct (zero_degree (g_in_degree g))" using f(5) by (rule distinct_zero_degree)
  ultimately show ?thesis
    by (metis initially_ready_def sorted_list_of_set_sort_remdups distinct_remdups_id)
qed

theorem initially_ready_no_deps_witness:
  "case build sample_order diamond of
     Ok g \<Rightarrow> sorted_list_of_set {v \<in> names_of diamond. deps_of diamond v = {}} = [''root'']
   | _ \<Rightarrow> False"
proof -
  have run: "case build sample_order diamond of
      Ok g \<Rightarrow> initially_ready g = [''root''] | _ \<Rightarrow> False" by code_simp
  show ?thesis
  proof (cases "build sample_order diamond")
    case (Ok g)
    with initially_ready_no_deps[OF sample_order_ok Ok] run show ?thesis by simp
  qed (use run in simp_all)
qed

text \<open>C8: release discipline. When the services \<open>ms\<close> have been marked ready, each once, marking
  \<open>n\<close> for the first time returns, in ascending order, exactly the services that depend on \<open>n\<close> and
  whose known dependencies are now all marked.\<close>

theorem mark_ready_releases:
  assumes "is_hash_order ho" "build ho services = Ok g" "distinct (ms @ [n])"
  shows "fst (mark_ready (fold (\<lambda>m g. snd (mark_ready g m)) ms g) n) =
    sorted_list_of_set {v. n \<in> deps_of services v \<and> deps_of services v \<subseteq> set (ms @ [n])}"
    (is "?l = sorted_list_of_set ?S")
proof -
  have S: "set ?l = ?S" using build_release_iff[OF assms(1,2,3)] by auto
  have "sorted ?l" by (simp add: mark_ready_alt split_def)
  then have "sorted_list_of_set (set ?l) = ?l"
    using gt.mark_distinct by (rule sorted_list_of_set.idem_if_sorted_distinct)
  then show ?thesis unfolding S by (rule sym)
qed

theorem mark_ready_releases_witness:
  "\<exists>g. build sample_order diamond = Ok g \<and>
     fst (mark_ready (snd (mark_ready (snd (mark_ready g ''root'')) ''left'')) ''right'') =
       [''leaf''] \<and>
     sorted_list_of_set {v. ''right'' \<in> deps_of diamond v \<and>
       deps_of diamond v \<subseteq> {''root'', ''left'', ''right''}} = [''leaf'']"
proof -
  have run: "case build sample_order diamond of Ok g \<Rightarrow>
      fst (mark_ready (snd (mark_ready (snd (mark_ready g ''root'')) ''left'')) ''right'') =
      [''leaf''] | _ \<Rightarrow> False" by code_simp
  then obtain g where g: "build sample_order diamond = Ok g" by (auto split: outcome.splits)
  show ?thesis
    using mark_ready_releases[OF sample_order_ok g, of "[''root'', ''left'']" "''right''"] run g
    by (intro exI[of _ g]) simp
qed

section \<open>Shutdown\<close>

text \<open>C27: the shutdown order lists every running service exactly once, for any graph at all.\<close>

theorem shutdown_order_permutation:
  "mset (shutdown_order g running) = mset running"
  by (simp add: shutdown_order_def shutdown_loop_mset)

text \<open>C9: when the graph was built from the services, whatever has been marked since, every running
  service stands in the shutdown order before each running service it depends on.\<close>

theorem shutdown_order_dependents_first:
  assumes "is_hash_order ho" "build ho services = Ok g" "distinct running"
    "d \<in> deps_of services s" "s \<in> set running" "d \<in> set running"
  shows "\<exists>xs ys zs. shutdown_order (fold (\<lambda>m g. snd (mark_ready g m)) ms g) running =
    xs @ s # ys @ d # zs"
  using shutdown_order_before[OF assms] .

theorem shutdown_order_dependents_first_witness:
  "\<exists>g xs ys zs. build sample_order diamond = Ok g \<and>
     shutdown_order g [''root'', ''left'', ''leaf''] = xs @ ''leaf'' # ys @ ''left'' # zs"
proof -
  have "case build sample_order diamond of Ok g \<Rightarrow> True | _ \<Rightarrow> False" by code_simp
  then obtain g where g: "build sample_order diamond = Ok g" by (auto split: outcome.splits)
  have "''left'' \<in> deps_of diamond ''leaf''" by (simp add: deps_of_def diamond_def)
  from shutdown_order_dependents_first[OF sample_order_ok g _ this,
      of "[''root'', ''left'', ''leaf'']" "[]"] g
  show ?thesis by auto
qed

end
