(* ===== verification/Ctl_Proto.thy ===== *)
theory Ctl_Proto
  imports Service_Def "HOL-Library.Word"
begin

text \<open>
  \<open>ctl_proto.rs\<close>: what the executor and the control server share. A command carries the sending
  half of a reply channel, here a number that names the channel. The messages of a refused command
  are the cases of \<open>reply_error\<close>, one per \<open>format!\<close> in \<open>executor.rs\<close>, with the formatted values as
  arguments. The pid of a status line is the \<open>u32\<close> of the source. \<open>read_request\<close> is the decoding of a
  request line: the JSON text is read by \<open>serde_json\<close>, a parameter, and the attributes of \<open>Request\<close>
  say which objects are which requests.

  \<open>state_string\<close> and \<open>sync_state\<close> keep the shared table; the lemmas say that the last update of a
  name decides its line and that a pid survives the two casts between \<open>i32\<close> and \<open>u32\<close>.
\<close>

section \<open>Processes and errors of the executor\<close>

type_synonym pid = int
type_synonym errno = int
type_synonym reply_id = nat

datatype service_state = Pending | Running pid | Ready | Exited int | Failed

datatype executor_error =
    Fork errno
  | EmptyExec string
  | UnknownUser string string

section \<open>Commands and the shared table\<close>

datatype ctl_command =
    CmdStart string reply_id
  | CmdRestart string reply_id
  | CmdReload string reply_id

fun cmd_reply :: "ctl_command \<Rightarrow> reply_id" where
  "cmd_reply (CmdStart _ r) = r"
| "cmd_reply (CmdRestart _ r) = r"
| "cmd_reply (CmdReload _ r) = r"

datatype reply_error =
    AlreadyRunning string
  | UnknownService string
  | SpawnFailed executor_error
  | CannotRead string io_error
  | ParseError string

record service_info =
  si_name :: string
  si_state :: string
  si_pid :: "32 word option"

type_synonym shared_state = "(string \<times> service_info) list"

definition new_shared_state :: shared_state where
  "new_shared_state = []"

section \<open>Requests on the wire\<close>

text \<open>\<open>serde_json\<close> is a parameter: its printing (compact and pretty) and reading of values, whose objects are
  lists of fields in the order of the text, and the texts of the errors that the decoder derived for
  \<open>Request\<close> returns. Derived decoders also take arrays; what this one does with them is a parameter too.\<close>

datatype json =
    JNull
  | JBool bool
  | JNumber string
  | JString string
  | JArray "json list"
  | JObject "(string \<times> json) list"

datatype request =
    ReqStatus
  | ReqStop string
  | ReqStart string
  | ReqRestart string
  | ReqReload string

record json_lib =
  json_print :: "json \<Rightarrow> string"
  json_pretty :: "json \<Rightarrow> string option"
  json_parse :: "string \<Rightarrow> string + json"
  json_array :: "json list \<Rightarrow> string + request"
  json_refuse :: "json \<Rightarrow> string"

definition field_values :: "string \<Rightarrow> (string \<times> json) list \<Rightarrow> json list" where
  "field_values key members = map snd (filter (\<lambda>f. fst f = key) members)"

text \<open>\<open>#[serde(tag = "cmd", rename_all = "lowercase")]\<close>: the field \<open>cmd\<close> names the variant, in lower case,
  and the fields of the variant stand beside it. A field that is missing, of another type or given twice
  is an error; other fields are ignored.\<close>

definition with_service :: "(string \<times> json) list \<Rightarrow> (string \<Rightarrow> request) \<Rightarrow> request option" where
  "with_service members variant =
     (case field_values ''service'' members of [JString service] \<Rightarrow> Some (variant service) | _ \<Rightarrow> None)"

definition request_of_fields :: "(string \<times> json) list \<Rightarrow> request option" where
  "request_of_fields members =
     (case field_values ''cmd'' members of
        [JString cmd] \<Rightarrow>
          if cmd = ''status'' then Some ReqStatus
          else if cmd = ''stop'' then with_service members ReqStop
          else if cmd = ''start'' then with_service members ReqStart
          else if cmd = ''restart'' then with_service members ReqRestart
          else if cmd = ''reload'' then with_service members ReqReload
          else None
      | _ \<Rightarrow> None)"

text \<open>\<open>serde_json::from_str::<Request>\<close>.\<close>

definition read_request :: "json_lib \<Rightarrow> string \<Rightarrow> string + request" where
  "read_request jl line =
     (case json_parse jl line of
        Inl e \<Rightarrow> Inl e
      | Inr (JArray vs) \<Rightarrow> json_array jl vs
      | Inr (JObject members) \<Rightarrow>
          (case request_of_fields members of
             Some r \<Rightarrow> Inr r
           | None \<Rightarrow> Inl (json_refuse jl (JObject members)))
      | Inr v \<Rightarrow> Inl (json_refuse jl v))"

section \<open>sync\_state\<close>

text \<open>\<open>Ready\<close> keeps the pid that the line has; the other states set or clear it.\<close>

definition sync_info :: "service_state \<Rightarrow> service_info \<Rightarrow> service_info" where
  "sync_info svc_state info =
     (case svc_state of
        Pending \<Rightarrow> info\<lparr>si_state := ''pending'', si_pid := None\<rparr>
      | Running pid \<Rightarrow> info\<lparr>si_state := ''running'', si_pid := Some (word_of_int pid)\<rparr>
      | Ready \<Rightarrow> info\<lparr>si_state := ''ready''\<rparr>
      | Exited _ \<Rightarrow> info\<lparr>si_state := ''exited'', si_pid := None\<rparr>
      | Failed \<Rightarrow> info\<lparr>si_state := ''failed'', si_pid := None\<rparr>)"

definition sync_state :: "string \<Rightarrow> service_state \<Rightarrow> shared_state \<Rightarrow> shared_state" where
  "sync_state name svc_state shared =
     hm_modify name \<lparr>si_name = name, si_state = ''pending'', si_pid = None\<rparr>
       (sync_info svc_state) shared"

section \<open>Facts\<close>

definition state_string :: "service_state \<Rightarrow> string" where
  "state_string svc_state =
     (case svc_state of Pending \<Rightarrow> ''pending'' | Running _ \<Rightarrow> ''running'' | Ready \<Rightarrow> ''ready''
      | Exited _ \<Rightarrow> ''exited'' | Failed \<Rightarrow> ''failed'')"

text \<open>The table shows, for the services of \<open>states\<close>, their states, under their own names.\<close>

definition mirrors :: "(string \<times> service_state) list \<Rightarrow> shared_state \<Rightarrow> bool" where
  "mirrors states shared \<longleftrightarrow>
     (\<forall>n. map_option state_string (map_of states n) = map_option si_state (map_of shared n)) \<and>
     (\<forall>n i. map_of shared n = Some i \<longrightarrow> si_name i = n)"

lemma sync_info_state [simp]: "si_state (sync_info st i) = state_string st"
  by (cases st) (simp_all add: sync_info_def state_string_def)

lemma sync_info_name [simp]: "si_name (sync_info st i) = si_name i"
  by (cases st) (simp_all add: sync_info_def)

lemma sync_info_pid:
  "si_pid (sync_info st i) =
     (case st of Running pid \<Rightarrow> Some (word_of_int pid) | Ready \<Rightarrow> si_pid i | _ \<Rightarrow> None)"
  by (cases st) (simp_all add: sync_info_def)

lemma mirrors_sync:
  assumes "mirrors states shared"
  shows "mirrors (AList.update n st states) (sync_state n st shared)"
  using assms
  by (auto simp: mirrors_def sync_state_def update_conv' hm_get_or_def split: option.splits)

lemma map_of_sync_other: "m \<noteq> n \<Longrightarrow> map_of (sync_state n st shared) m = map_of shared m"
  by (simp add: sync_state_def)

text \<open>The cast \<open>as u32\<close> of the executor followed by the cast \<open>as i32\<close> of the control server.\<close>

lemma pid_cast_roundtrip:
  "- (2 ^ 31) \<le> p \<Longrightarrow> p < 2 ^ 31 \<Longrightarrow> sint (word_of_int p :: 32 word) = p"
  by (simp add: signed_take_bit_int_eq_self sint_sbintrunc')

end
