(* ===== verification/Executor.thy ===== *)
theory Executor
  imports Shutdown_Order Ctl_Proto
begin

text \<open>
  \<open>executor.rs\<close>: starting a service and the main loop of \<open>run_with_marker\<close>.

  The local variables of \<open>run_with_marker\<close> are the fields of \<open>exec\<close>. What the process does to the
  outside (system calls, replies, lines on standard error) is appended to \<open>ex_log\<close>; two entries
  that no one outside sees make the history complete: \<open>EvMark\<close> for a call of \<open>mark_ready\<close> and
  \<open>EvEchild\<close> for a \<open>waitpid\<close> that finds the child already reaped. What one round of the loop gets from the outside is a \<open>tick\<close>:
  the flag, the commands and readiness signals it drains, what \<open>waitpid\<close> says of each child, the
  order in which the pid table is iterated, and, for a shutdown, the clock and the liveness of the
  children. The user database, the results of \<open>fork\<close> and the TOML parser are the environment.

  A handler returns a \<open>flow\<close>: go on, leave the loop, return an error, panic, or never return.
\<close>

section \<open>Starting one service\<close>

datatype signal = SIGTERM | SIGKILL | SIGHUP

text \<open>What the child does after \<open>fork\<close>; the results of all but \<open>execv\<close> are ignored there.\<close>

datatype child_action =
    WriteOomScoreAdj int
  | SetGid int
  | SetUid int
  | Execv string "string list"
  | ExitWith int

record exec_env =
  users :: "string \<Rightarrow> errno + (int \<times> int) option"
  fork_result :: "nat \<Rightarrow> errno + pid"
  toml_parse :: toml_parser
  service_dir :: "string option"

definition c_string :: "string \<Rightarrow> string option" where
  "c_string s = (if list_ex is_nul s then None else Some s)"

definition build_exec_args :: "service_def \<Rightarrow> (executor_error, string \<times> string list) outcome" where
  "build_exec_args def =
     (let name = sd_name def; exec = svc_exec (sd_service def)
      in case svc_args (sd_service def) of
           Some explicit_args \<Rightarrow>
             if exec = [] then Err (EmptyExec name)
             else (case c_string exec of
                     None \<Rightarrow> Err (EmptyExec name)
                   | Some e \<Rightarrow>
                       (case those (map c_string explicit_args) of
                          None \<Rightarrow> Err (EmptyExec name)
                        | Some argv \<Rightarrow> Ok (e, e # argv)))
         | None \<Rightarrow>
             (case those (map c_string (split_whitespace exec)) of
                None \<Rightarrow> Panic
              | Some [] \<Rightarrow> Err (EmptyExec name)
              | Some (exec_path # rest) \<Rightarrow> Ok (exec_path, exec_path # rest)))"

definition child_actions ::
  "service_def \<Rightarrow> (int \<times> int) option \<Rightarrow> string \<times> string list \<Rightarrow> child_action list" where
  "child_actions def creds ea =
     (case sd_resources def of
        None \<Rightarrow> []
      | Some r \<Rightarrow> (case oom_score_adj r of None \<Rightarrow> [] | Some adj \<Rightarrow> [WriteOomScoreAdj adj])) @
     (case creds of None \<Rightarrow> [] | Some (uid, gid) \<Rightarrow> [SetGid gid, SetUid uid]) @
     [Execv (fst ea) (snd ea), ExitWith 127]"

definition resolve_creds :: "exec_env \<Rightarrow> service_def \<Rightarrow> executor_error + (int \<times> int) option" where
  "resolve_creds env def =
     (case svc_user (sd_service def) of
        None \<Rightarrow> Inr None
      | Some user_name \<Rightarrow>
          (case users env user_name of
             Inl _ \<Rightarrow> Inl (UnknownUser (sd_name def) user_name)
           | Inr None \<Rightarrow> Inl (UnknownUser (sd_name def) user_name)
           | Inr (Some c) \<Rightarrow> Inr (Some c)))"

text \<open>\<open>n\<close> counts the calls of \<open>spawn_service\<close>, so that each \<open>fork\<close> has its own result.\<close>

definition spawn_service ::
  "exec_env \<Rightarrow> nat \<Rightarrow> service_def \<Rightarrow> (executor_error, pid \<times> child_action list) outcome" where
  "spawn_service env n def =
     (case build_exec_args def of
        Panic \<Rightarrow> Panic
      | Err e \<Rightarrow> Err e
      | Ok ea \<Rightarrow>
          (case resolve_creds env def of
             Inl e \<Rightarrow> Err e
           | Inr creds \<Rightarrow>
               (case fork_result env n of
                  Inl e \<Rightarrow> Err (Fork e)
                | Inr child \<Rightarrow> Ok (child, child_actions def creds ea))))"

definition MAX_RESTARTS :: nat where
  "MAX_RESTARTS = 5"

definition should_restart :: "restart_policy option \<Rightarrow> int \<Rightarrow> bool \<Rightarrow> bool" where
  "should_restart policy code is_signal =
     (case policy of
        Some Always \<Rightarrow> True
      | Some OnFailure \<Rightarrow> code \<noteq> 0 \<or> is_signal
      | _ \<Rightarrow> False)"

section \<open>State\<close>

datatype event =
    EvSpawn string pid "child_action list"
  | EvKill pid signal
  | EvRemoveFile string
  | EvWriteFile string
  | EvReply reply_id "reply_error + unit"
  | EvReplyDropped reply_id
  | EvMark string
  | EvEchild pid
  | EvStarting string
  | EvBlocked string
  | EvReadyPidfile string
  | EvExitedLine string int
  | EvKilledLine string int
  | EvRestarting string nat
  | EvMaxRestarts string
  | EvStopping string
  | EvSigkillLine string
  | EvStuckLine string
  | EvStraggler string
  | EvDone nat

record exec =
  ex_graph :: service_graph
  ex_svc_by_name :: "(string \<times> service_def) list"
  ex_pid_to_name :: "(pid \<times> string) list"
  ex_ready_reported :: "string set"
  ex_blocked :: "string set"
  ex_restart_counts :: "(string \<times> nat) list"
  ex_states :: "(string \<times> service_state) list"
  ex_pending_restart :: "string set"
  ex_restart_replies :: "(string \<times> reply_id) list"
  ex_raw :: "(string \<times> string) list"
  ex_shared :: shared_state
  ex_to_start :: "string list"
  ex_total :: nat
  ex_completed :: nat
  ex_spawns :: nat
  ex_log :: "event list"

datatype wait_status =
    WExited int
  | WSignaled int
  | WStillAlive
  | WOther
  | WEchild
  | WEintr
  | WError errno

record tick =
  tk_shutdown :: bool
  tk_commands :: "(ctl_command \<times> (io_error + string)) list"
  tk_ready :: "string list"
  tk_late :: "string option"
  tk_wait :: "pid \<Rightarrow> wait_status"
  tk_shutdown_at :: "pid \<Rightarrow> bool"
  tk_order :: "(pid \<times> string) list \<Rightarrow> (pid \<times> string) list"
  tk_alive :: "pid \<Rightarrow> nat \<Rightarrow> bool"
  tk_delay :: "nat \<Rightarrow> nat"
  tk_shutdown_end :: bool

datatype flow = Go exec | Stop exec | Fail executor_error exec | Crash exec | Hang exec

fun and_then :: "flow \<Rightarrow> (exec \<Rightarrow> flow) \<Rightarrow> flow" where
  "and_then (Go s) f = f s"
| "and_then r f = r"

section \<open>Updates the handlers share\<close>

definition emit :: "event \<Rightarrow> exec \<Rightarrow> exec" where
  "emit ev s = s\<lparr>ex_log := ex_log s @ [ev]\<rparr>"

definition set_state :: "string \<Rightarrow> service_state \<Rightarrow> exec \<Rightarrow> exec" where
  "set_state name st s =
     s\<lparr>ex_states := AList.update name st (ex_states s),
       ex_shared := sync_state name st (ex_shared s)\<rparr>"

definition enter_running :: "string \<Rightarrow> pid \<Rightarrow> exec \<Rightarrow> exec" where
  "enter_running name pid s =
     (let s = set_state name (Running pid) s
      in s\<lparr>ex_pid_to_name := AList.update pid name (ex_pid_to_name s)\<rparr>)"

definition untrack :: "pid \<Rightarrow> exec \<Rightarrow> exec" where
  "untrack pid s = s\<lparr>ex_pid_to_name := AList.delete pid (ex_pid_to_name s)\<rparr>"

definition mark_and_queue :: "string \<Rightarrow> exec \<Rightarrow> exec" where
  "mark_and_queue name s =
     (case mark_ready (ex_graph s) name of (newly, g) \<Rightarrow>
        s\<lparr>ex_graph := g, ex_to_start := ex_to_start s @ newly, ex_log := ex_log s @ [EvMark name]\<rparr>)"

definition block_dependents :: "string \<Rightarrow> exec \<Rightarrow> exec" where
  "block_dependents name s =
     s\<lparr>ex_blocked := ex_blocked s \<union> set (needs_dependents (ex_graph s) name)\<rparr>"

definition bump_completed :: "exec \<Rightarrow> exec" where
  "bump_completed s = s\<lparr>ex_completed := ex_completed s + 1\<rparr>"

definition spawn ::
  "exec_env \<Rightarrow> string \<Rightarrow> service_def \<Rightarrow> exec \<Rightarrow> (executor_error, pid) outcome \<times> exec" where
  "spawn env name def s =
     (let s' = s\<lparr>ex_spawns := ex_spawns s + 1\<rparr>
      in case spawn_service env (ex_spawns s) def of
           Ok (pid, child) \<Rightarrow> (Ok pid, emit (EvSpawn name pid child) s')
         | Err e \<Rightarrow> (Err e, s')
         | Panic \<Rightarrow> (Panic, s'))"

text \<open>\<open>pid_to_name.iter().find(..)\<close>: some pid of the service, by the order of the table.\<close>

definition find_pid :: "tick \<Rightarrow> string \<Rightarrow> exec \<Rightarrow> pid option" where
  "find_pid t name s =
     map_option fst (find (\<lambda>(p, n). n = name) (tk_order t (ex_pid_to_name s)))"

section \<open>Commands\<close>

text \<open>The arm of all three commands that spawns the service and answers at once.\<close>

definition spawn_and_reply :: "exec_env \<Rightarrow> string \<Rightarrow> reply_id \<Rightarrow> exec \<Rightarrow> flow" where
  "spawn_and_reply env service reply s =
     (case map_of (ex_svc_by_name s) service of
        None \<Rightarrow> Go (emit (EvReply reply (Inl (UnknownService service))) s)
      | Some def \<Rightarrow>
          (case spawn env service def s of
             (Err e, s') \<Rightarrow> Go (emit (EvReply reply (Inl (SpawnFailed e))) s')
           | (Ok pid, s') \<Rightarrow> Go (emit (EvReply reply (Inr ())) (enter_running service pid s'))
           | (Panic, s') \<Rightarrow> Crash s'))"

text \<open>
  \<open>pending_restart.insert\<close> and \<open>restart_replies.insert\<close>: a reply that was stored under the name is
  dropped, which its client sees as a disconnected channel.
\<close>

definition await_restart :: "string \<Rightarrow> reply_id \<Rightarrow> exec \<Rightarrow> exec" where
  "await_restart service reply s =
     (let s' = (case map_of (ex_restart_replies s) service of
                  None \<Rightarrow> s
                | Some old \<Rightarrow> emit (EvReplyDropped old) s)
      in s'\<lparr>ex_pending_restart := insert service (ex_pending_restart s'),
            ex_restart_replies := AList.update service reply (ex_restart_replies s')\<rparr>)"

definition signal_service :: "tick \<Rightarrow> string \<Rightarrow> signal \<Rightarrow> exec \<Rightarrow> exec" where
  "signal_service t service sig s =
     (case find_pid t service s of None \<Rightarrow> s | Some pid \<Rightarrow> emit (EvKill pid sig) s)"

definition handle_start :: "exec_env \<Rightarrow> string \<Rightarrow> reply_id \<Rightarrow> exec \<Rightarrow> flow" where
  "handle_start env service reply s =
     (case map_of (ex_states s) service of
        Some (Running _) \<Rightarrow> Go (emit (EvReply reply (Inl (AlreadyRunning service))) s)
      | Some Ready \<Rightarrow> Go (emit (EvReply reply (Inl (AlreadyRunning service))) s)
      | None \<Rightarrow> Go (emit (EvReply reply (Inl (UnknownService service))) s)
      | _ \<Rightarrow> spawn_and_reply env service reply s)"

definition handle_restart :: "exec_env \<Rightarrow> tick \<Rightarrow> string \<Rightarrow> reply_id \<Rightarrow> exec \<Rightarrow> flow" where
  "handle_restart env t service reply s =
     (let wait = Go (await_restart service reply (signal_service t service SIGTERM s))
      in case map_of (ex_states s) service of
           None \<Rightarrow> Go (emit (EvReply reply (Inl (UnknownService service))) s)
         | Some (Running _) \<Rightarrow> wait
         | Some Ready \<Rightarrow> wait
         | _ \<Rightarrow> spawn_and_reply env service reply s)"

definition apply_reload ::
  "exec_env \<Rightarrow> tick \<Rightarrow> string \<Rightarrow> reply_id \<Rightarrow> string \<Rightarrow> service_def \<Rightarrow> exec \<Rightarrow> flow" where
  "apply_reload env t service reply new_raw new_def s =
     (let s = s\<lparr>ex_raw := AList.update service new_raw (ex_raw s),
                ex_svc_by_name := AList.update service new_def (ex_svc_by_name s)\<rparr>
      in case find_pid t service s of
           Some pid \<Rightarrow> Go (await_restart service reply (emit (EvKill pid SIGTERM) s))
         | None \<Rightarrow> spawn_and_reply env service reply s)"

definition handle_reload ::
  "exec_env \<Rightarrow> tick \<Rightarrow> string \<Rightarrow> reply_id \<Rightarrow> io_error + string \<Rightarrow> exec \<Rightarrow> flow" where
  "handle_reload env t service reply file s =
     (let s = signal_service t service SIGHUP s
      in case service_dir env of
           None \<Rightarrow> Go (emit (EvReply reply (Inr ())) s)
         | Some dir \<Rightarrow>
             (case file of
                Inl e \<Rightarrow> Go (emit (EvReply reply
                  (Inl (CannotRead (path_join dir (service @ ''.toml'')) e))) s)
              | Inr new_raw \<Rightarrow>
                  if trim new_raw = trim (hm_get_or (ex_raw s) service [])
                  then Go (emit (EvReply reply (Inr ())) s)
                  else (case toml_parse env new_raw of
                          Inl e \<Rightarrow> Go (emit (EvReply reply (Inl (ParseError e))) s)
                        | Inr new_def \<Rightarrow> apply_reload env t service reply new_raw new_def s)))"

fun handle_command ::
  "exec_env \<Rightarrow> tick \<Rightarrow> ctl_command \<times> (io_error + string) \<Rightarrow> exec \<Rightarrow> flow" where
  "handle_command env t (CmdStart service reply, _) s = handle_start env service reply s"
| "handle_command env t (CmdRestart service reply, _) s = handle_restart env t service reply s"
| "handle_command env t (CmdReload service reply, file) s = handle_reload env t service reply file s"

fun drain_commands ::
  "exec_env \<Rightarrow> tick \<Rightarrow> (ctl_command \<times> (io_error + string)) list \<Rightarrow> exec \<Rightarrow> flow" where
  "drain_commands env t [] s = Go s"
| "drain_commands env t (c # cs) s = and_then (handle_command env t c s) (drain_commands env t cs)"

section \<open>Readiness and launching\<close>

definition report_ready :: "string \<Rightarrow> exec \<Rightarrow> exec" where
  "report_ready name s =
     (if name \<in> ex_ready_reported s then s
      else mark_and_queue name (set_state name Ready (emit (EvReadyPidfile name)
             (s\<lparr>ex_ready_reported := insert name (ex_ready_reported s)\<rparr>))))"

definition drain_ready :: "string list \<Rightarrow> exec \<Rightarrow> exec" where
  "drain_ready names s = fold report_ready names s"

definition launch_blocked :: "string \<Rightarrow> exec \<Rightarrow> exec" where
  "launch_blocked name s =
     bump_completed (mark_and_queue name (block_dependents name
       (set_state name Failed (emit (EvBlocked name) s))))"

definition remove_stale :: "service_def \<Rightarrow> exec \<Rightarrow> exec" where
  "remove_stale def s =
     (case sd_ready_path def of None \<Rightarrow> s | Some path \<Rightarrow> emit (EvRemoveFile path) s)"

definition launch_start :: "exec_env \<Rightarrow> string \<Rightarrow> service_def \<Rightarrow> exec \<Rightarrow> flow" where
  "launch_start env name def s =
     (case spawn env name def (remove_stale def (emit (EvStarting name) s)) of
        (Ok pid, s') \<Rightarrow> Go (enter_running name pid s')
      | (Err e, s') \<Rightarrow> Fail e s'
      | (Panic, s') \<Rightarrow> Crash s')"

definition launch_one :: "exec_env \<Rightarrow> string \<Rightarrow> exec \<Rightarrow> flow" where
  "launch_one env name s =
     (if name \<in> ex_blocked s then Go (launch_blocked name s)
      else (case map_of (ex_svc_by_name s) name of
              None \<Rightarrow> Go s
            | Some def \<Rightarrow> launch_start env name def s))"

text \<open>Popping shortens the queue; marking a blocked service trades in-degrees for queue entries.\<close>

definition launch_measure :: "exec \<Rightarrow> nat" where
  "launch_measure s = length (ex_to_start s) + sum_list (map snd (g_in_degree (ex_graph s)))"

definition pop_start :: "exec \<Rightarrow> exec" where
  "pop_start s = s\<lparr>ex_to_start := butlast (ex_to_start s)\<rparr>"


lemma mark_and_queue_measure: "launch_measure (mark_and_queue name s) \<le> launch_measure s"
proof -
  obtain ind new where r:
    "relax_sat (succs (g_dependents (ex_graph s)) name) (g_in_degree (ex_graph s)) [] = (ind, new)"
    by fastforce
  then show ?thesis
    using relax_sat_measure[OF r]
    by (simp add: launch_measure_def mark_and_queue_def mark_ready_alt kahn_measure_def)
qed

lemma launch_measure_frame [simp]:
  "launch_measure (emit ev s) = launch_measure s"
  "launch_measure (set_state name st s) = launch_measure s"
  "launch_measure (enter_running name pid s) = launch_measure s"
  "launch_measure (block_dependents name s) = launch_measure s"
  "launch_measure (bump_completed s) = launch_measure s"
  "launch_measure (remove_stale def s) = launch_measure s"
  "launch_measure (snd (spawn env name def s)) = launch_measure s"
  by (simp_all add: launch_measure_def emit_def set_state_def enter_running_def Let_def
      block_dependents_def bump_completed_def remove_stale_def spawn_def
      split: option.split outcome.split)

lemma launch_one_measure:
  "launch_one env name s = Go s' \<Longrightarrow> launch_measure s' \<le> launch_measure s"
  using launch_measure_frame(7)[of env name _ "remove_stale _ (emit (EvStarting name) s)"]
    mark_and_queue_measure[of name]
  by (auto simp: launch_one_def launch_start_def launch_blocked_def
      split: if_splits option.splits prod.splits outcome.splits) (metis launch_measure_frame snd_conv le_refl)+

function (sequential) launch_all :: "exec_env \<Rightarrow> exec \<Rightarrow> flow" where
  "launch_all env s =
     (if ex_to_start s = [] then Go s
      else (case launch_one env (last (ex_to_start s)) (pop_start s) of
              Go s' \<Rightarrow> launch_all env s'
            | r \<Rightarrow> r))"
  by pat_completeness auto
termination
proof (relation "measure (\<lambda>(env, s). launch_measure s)")
  fix env s s'
  assume ne: "ex_to_start s \<noteq> []" and "launch_one env (last (ex_to_start s)) (pop_start s) = Go s'"
  then have "launch_measure s' \<le> launch_measure (pop_start s)" by (intro launch_one_measure)
  also have "\<dots> < launch_measure s" using ne by (simp add: launch_measure_def pop_start_def)
  finally show "((env, s'), env, s) \<in> measure (\<lambda>(env, s). launch_measure s)" by simp
qed simp

declare launch_all.simps [simp del]

section \<open>Polling the children\<close>

definition reply_restart :: "string \<Rightarrow> reply_error + unit \<Rightarrow> exec \<Rightarrow> exec" where
  "reply_restart name res s =
     (case map_of (ex_restart_replies s) name of
        None \<Rightarrow> s
      | Some reply \<Rightarrow>
          emit (EvReply reply res)
            (s\<lparr>ex_restart_replies := AList.delete name (ex_restart_replies s)\<rparr>))"

definition manual_restart :: "exec_env \<Rightarrow> string \<Rightarrow> exec \<Rightarrow> flow" where
  "manual_restart env name s =
     (let s = s\<lparr>ex_pending_restart := ex_pending_restart s - {name}\<rparr>
      in case map_of (ex_svc_by_name s) name of
           None \<Rightarrow> Crash s
         | Some def \<Rightarrow>
             (case spawn env name def s of
                (Ok new_pid, s') \<Rightarrow> Go (reply_restart name (Inr ()) (enter_running name new_pid s'))
              | (Err e, s') \<Rightarrow>
                  Go (set_state name Failed (reply_restart name (Inl (SpawnFailed e)) s'))
              | (Panic, s') \<Rightarrow> Crash s'))"

definition restart_count :: "string \<Rightarrow> exec \<Rightarrow> nat" where
  "restart_count name s = hm_get_or (ex_restart_counts s) name 0"

definition policy_of :: "string \<Rightarrow> exec \<Rightarrow> restart_policy option" where
  "policy_of name s =
     (case map_of (ex_svc_by_name s) name of
        None \<Rightarrow> None
      | Some d \<Rightarrow> svc_restart (sd_service d))"

definition auto_restart :: "exec_env \<Rightarrow> string \<Rightarrow> exec \<Rightarrow> flow" where
  "auto_restart env name s =
     (let count = restart_count name s + 1;
          s = emit (EvRestarting name count)
                (s\<lparr>ex_restart_counts := AList.update name count (ex_restart_counts s)\<rparr>)
      in case map_of (ex_svc_by_name s) name of
           None \<Rightarrow> Crash s
         | Some def \<Rightarrow>
             (case spawn env name def s of
                (Ok new_pid, s') \<Rightarrow> Go (enter_running name new_pid s')
              | (Err e, s') \<Rightarrow> Fail e s'
              | (Panic, s') \<Rightarrow> Crash s'))"

text \<open>The common end of both branches: count the service, block what needs it, release the rest.\<close>

definition settle :: "string \<Rightarrow> bool \<Rightarrow> exec \<Rightarrow> exec" where
  "settle name failed s =
     (let s = bump_completed s;
          s = (if failed \<and> name \<notin> ex_ready_reported s then block_dependents name s else s)
      in if name \<in> ex_ready_reported s then s
         else mark_and_queue name (s\<lparr>ex_ready_reported := insert name (ex_ready_reported s)\<rparr>))"

definition handle_exited :: "exec_env \<Rightarrow> bool \<Rightarrow> string \<Rightarrow> int \<Rightarrow> exec \<Rightarrow> flow" where
  "handle_exited env shutdown name code s =
     (let s = emit (EvExitedLine name code) s
      in if name \<in> ex_pending_restart s then manual_restart env name s
         else
           (let policy = policy_of name s;
                s = s\<lparr>ex_restart_counts := hm_modify name 0 (\<lambda>c. c) (ex_restart_counts s)\<rparr>;
                count = restart_count name s
            in if should_restart policy code False \<and> count < MAX_RESTARTS \<and> \<not> shutdown
               then auto_restart env name s
               else
                 (let exhausted = should_restart policy code False \<and> count \<ge> MAX_RESTARTS;
                      failed = exhausted \<or> code \<noteq> 0;
                      s = (if exhausted then set_state name Failed (emit (EvMaxRestarts name) s)
                           else set_state name (Exited code) s)
                  in Go (settle name failed s))))"

definition handle_signaled :: "exec_env \<Rightarrow> bool \<Rightarrow> string \<Rightarrow> int \<Rightarrow> exec \<Rightarrow> flow" where
  "handle_signaled env shutdown name sig s =
     (let s = emit (EvKilledLine name sig) s
      in if name \<in> ex_pending_restart s then manual_restart env name s
         else
           (let policy = policy_of name s;
                s = s\<lparr>ex_restart_counts := hm_modify name 0 (\<lambda>c. c) (ex_restart_counts s)\<rparr>;
                count = restart_count name s
            in if should_restart policy 1 True \<and> count < MAX_RESTARTS \<and> \<not> shutdown
               then auto_restart env name s
               else
                 (let s = (if should_restart policy 1 True \<and> count \<ge> MAX_RESTARTS
                           then set_state name Failed (emit (EvMaxRestarts name) s)
                           else set_state name (Exited (- 1)) s)
                  in Go (settle name True s))))"

definition poll_one :: "exec_env \<Rightarrow> tick \<Rightarrow> pid \<Rightarrow> exec \<Rightarrow> flow" where
  "poll_one env t pid s =
     (case tk_wait t pid of
        WExited code \<Rightarrow>
          (case map_of (ex_pid_to_name s) pid of
             None \<Rightarrow> Go s
           | Some name \<Rightarrow> handle_exited env (tk_shutdown_at t pid) name code (untrack pid s))
      | WSignaled sig \<Rightarrow>
          (case map_of (ex_pid_to_name s) pid of
             None \<Rightarrow> Go s
           | Some name \<Rightarrow> handle_signaled env (tk_shutdown_at t pid) name sig (untrack pid s))
      | WStillAlive \<Rightarrow> Go s
      | WOther \<Rightarrow> Go s
      | WEchild \<Rightarrow> Go (bump_completed (untrack pid (emit (EvEchild pid) s)))
      | WEintr \<Rightarrow> Go s
      | WError e \<Rightarrow> Fail (Fork e) s)"

fun poll_all :: "exec_env \<Rightarrow> tick \<Rightarrow> pid list \<Rightarrow> exec \<Rightarrow> flow" where
  "poll_all env t [] s = Go s"
| "poll_all env t (pid # pids) s = and_then (poll_one env t pid s) (poll_all env t pids)"

section \<open>Graceful shutdown\<close>

text \<open>
  The clock of a shutdown: how often it was read, and the time in ms. Before the \<open>i\<close>-th reading
  \<open>tk_delay t i\<close> ms pass, besides what the loops sleep. The monotonic clock never goes back, and
  \<open>thread::sleep\<close> sleeps at least as long as it is told to; what it oversleeps is part of the next delay.
\<close>

type_synonym timer = "nat \<times> nat"

definition read_clock :: "(nat \<Rightarrow> nat) \<Rightarrow> timer \<Rightarrow> nat \<times> timer" where
  "read_clock delay = (\<lambda>(i, now). (now + delay i, (Suc i, now + delay i)))"

definition sleep_ms :: "nat \<Rightarrow> timer \<Rightarrow> timer" where
  "sleep_ms ms = (\<lambda>(i, now). (i, now + ms))"

text \<open>
  One waiting loop: poll with \<open>WNOHANG\<close> until the child is gone or the deadline has passed; between two
  polls, read the clock and sleep for 50 ms. Polls are numbered by the readings before them.
\<close>

partial_function (option) await_exit ::
  "(nat \<Rightarrow> bool) \<Rightarrow> (nat \<Rightarrow> nat) \<Rightarrow> nat \<Rightarrow> timer \<Rightarrow> (bool \<times> timer) option" where
  "await_exit alive delay deadline c =
     (if \<not> alive (fst c) then Some (True, c)
      else if fst (read_clock delay c) \<ge> deadline then Some (False, snd (read_clock delay c))
      else await_exit alive delay deadline (sleep_ms 50 (snd (read_clock delay c))))"

declare await_exit.simps [code]

text \<open>The deadline is \<open>ms\<close> after the reading with which the loop begins.\<close>

definition wait_for_exit :: "tick \<Rightarrow> pid \<Rightarrow> nat \<Rightarrow> timer \<Rightarrow> (bool \<times> timer) option" where
  "wait_for_exit t pid ms c =
     (case read_clock (tk_delay t) c of
        (now, c) \<Rightarrow> await_exit (tk_alive t pid) (tk_delay t) (now + ms) c)"

definition stop_service :: "tick \<Rightarrow> string \<Rightarrow> exec \<times> timer \<Rightarrow> (exec \<times> timer) option" where
  "stop_service t name = (\<lambda>(s, c).
     case find_pid t name s of
       None \<Rightarrow> Some (s, c)
     | Some pid \<Rightarrow>
         (let s = emit (EvKill pid SIGTERM) (emit (EvStopping name) s)
          in case wait_for_exit t pid 5000 c of
               None \<Rightarrow> None
             | Some (True, c) \<Rightarrow> Some (untrack pid s, c)
             | Some (False, c) \<Rightarrow>
                 (let s = emit (EvKill pid SIGKILL) (emit (EvSigkillLine name) s)
                  in case wait_for_exit t pid 1000 c of
                       None \<Rightarrow> None
                     | Some (True, c) \<Rightarrow> Some (untrack pid s, c)
                     | Some (False, c) \<Rightarrow> Some (untrack pid (emit (EvStuckLine name) s), c))))"

fun stop_services :: "tick \<Rightarrow> string list \<Rightarrow> exec \<times> timer \<Rightarrow> (exec \<times> timer) option" where
  "stop_services t [] si = Some si"
| "stop_services t (name # names) si =
     (case stop_service t name si of None \<Rightarrow> None | Some si' \<Rightarrow> stop_services t names si')"

fun stop_stragglers :: "tick \<Rightarrow> (pid \<times> string) list \<Rightarrow> exec \<times> timer \<Rightarrow> (exec \<times> timer) option" where
  "stop_stragglers t [] sc = Some sc"
| "stop_stragglers t ((pid, name) # ps) (s, c) =
     (let s = emit (EvKill pid SIGTERM) (emit (EvStraggler name) s)
      in case wait_for_exit t pid 2000 c of
           None \<Rightarrow> None
         | Some (gone, c) \<Rightarrow>
             stop_stragglers t ps (if gone then s else emit (EvKill pid SIGKILL) s, c))"

definition graceful_shutdown :: "tick \<Rightarrow> exec \<Rightarrow> exec option" where
  "graceful_shutdown t s =
     (let running_names = remdups (map snd (ex_pid_to_name s));
          kill_order = shutdown_order (ex_graph s) running_names
      in case stop_services t kill_order (s, (0, 0)) of
           None \<Rightarrow> None
         | Some (s', c) \<Rightarrow>
             map_option fst (stop_stragglers t (tk_order t (ex_pid_to_name s')) (s', c)))"

section \<open>The main loop\<close>

definition iteration :: "exec_env \<Rightarrow> tick \<Rightarrow> exec \<Rightarrow> flow" where
  "iteration env t s =
     (if tk_shutdown t then
        (case graceful_shutdown t s of None \<Rightarrow> Hang s | Some s' \<Rightarrow> Stop s')
      else
        and_then (drain_commands env t (tk_commands t) s) (\<lambda>s.
        and_then (launch_all env (drain_ready (tk_ready t) s)) (\<lambda>s.
          if ex_completed s \<ge> ex_total s then Stop s
          else if ex_pid_to_name s = [] then Stop s
          else
            (let s = (case tk_late t of None \<Rightarrow> s | Some name \<Rightarrow> report_ready name s)
             in poll_all env t (map fst (tk_order t (ex_pid_to_name s))) s))))"

datatype run_result =
    Finished exec
  | RunError executor_error exec
  | RunPanic exec
  | RunHang exec
  | StillRunning exec

definition finish :: "string option \<Rightarrow> bool \<Rightarrow> exec \<Rightarrow> exec" where
  "finish ready_marker shutdown s =
     (let s = (if shutdown then s
               else case ready_marker of None \<Rightarrow> s | Some marker \<Rightarrow> emit (EvWriteFile marker) s)
      in emit (EvDone (ex_completed s)) s)"

fun run_loop :: "exec_env \<Rightarrow> string option \<Rightarrow> tick list \<Rightarrow> exec \<Rightarrow> run_result" where
  "run_loop env ready_marker [] s = StillRunning s"
| "run_loop env ready_marker (t # ts) s =
     (case iteration env t s of
        Go s' \<Rightarrow> run_loop env ready_marker ts s'
      | Stop s' \<Rightarrow> Finished (finish ready_marker (tk_shutdown_end t) s')
      | Fail e s' \<Rightarrow> RunError e s'
      | Crash s' \<Rightarrow> RunPanic s'
      | Hang s' \<Rightarrow> RunHang s')"

text \<open>The state before the loop; \<open>read_toml\<close> is what reading \<open><dir>/<name>.toml\<close> returns.\<close>

definition init_exec ::
  "exec_env \<Rightarrow> (string \<Rightarrow> io_error + string) \<Rightarrow> service_graph \<Rightarrow> service_def list \<Rightarrow> shared_state
    \<Rightarrow> exec" where
  "init_exec env read_toml graph services shared =
     (let svc_by_name = fold (\<lambda>s. AList.update (sd_name s) s) services [];
          names = map fst svc_by_name
      in \<lparr>ex_graph = graph, ex_svc_by_name = svc_by_name, ex_pid_to_name = [],
          ex_ready_reported = {}, ex_blocked = {}, ex_restart_counts = [],
          ex_states = map (\<lambda>n. (n, Pending)) names,
          ex_pending_restart = {}, ex_restart_replies = [],
          ex_raw = (case service_dir env of
              None \<Rightarrow> []
            | Some dir \<Rightarrow> concat (map (\<lambda>n. case read_toml n of Inl _ \<Rightarrow> [] | Inr s \<Rightarrow> [(n, s)]) names)),
          ex_shared = fold (\<lambda>n. sync_state n Pending) names shared,
          ex_to_start = initially_ready graph, ex_total = graph_len graph,
          ex_completed = 0, ex_spawns = 0, ex_log = []\<rparr>)"

definition run_with_marker ::
  "exec_env \<Rightarrow> (string \<Rightarrow> io_error + string) \<Rightarrow> service_graph \<Rightarrow> service_def list \<Rightarrow> shared_state
    \<Rightarrow> string option \<Rightarrow> tick list \<Rightarrow> run_result" where
  "run_with_marker env read_toml graph services shared ready_marker ts =
     run_loop env ready_marker ts (init_exec env read_toml graph services shared)"

definition run ::
  "exec_env \<Rightarrow> (string \<Rightarrow> io_error + string) \<Rightarrow> service_graph \<Rightarrow> service_def list \<Rightarrow> shared_state
    \<Rightarrow> tick list \<Rightarrow> run_result" where
  "run env read_toml graph services shared ts =
     run_with_marker env read_toml graph services shared (Some ''/run/flint/ready'') ts"

definition run_with_cmd ::
  "exec_env \<Rightarrow> (string \<Rightarrow> io_error + string) \<Rightarrow> service_graph \<Rightarrow> service_def list \<Rightarrow> shared_state
    \<Rightarrow> tick list \<Rightarrow> run_result" where
  "run_with_cmd env read_toml graph services shared ts =
     run_with_marker env read_toml graph services shared None ts"

end
