(* ===== verification/Executor_Inv.thy ===== *)
theory Executor_Inv
  imports Executor
begin

text \<open>
  How a property of the executor's state is proved for every run. \<open>loop_invariant\<close> is the interface
  of the main loop: a predicate kept by each handler is kept by a round and by a run, whatever the
  round's inputs are, as long as they meet \<open>ticks_ok\<close> (a condition on the commands, on the names
  signalled ready and on whether the run may be shut down). \<open>update_invariant\<close> is the interface of the state: a predicate kept by each
  elementary update is kept by each handler, so it gives the first interface.
\<close>

section \<open>Histories\<close>

definition marks :: "event list \<Rightarrow> string list" where
  "marks log = [n. EvMark n \<leftarrow> log]"

definition started :: "event list \<Rightarrow> string list" where
  "started log = [n. EvStarting n \<leftarrow> log]"

definition blocked_out :: "event list \<Rightarrow> string list" where
  "blocked_out log = [n. EvBlocked n \<leftarrow> log]"

definition restarts :: "string \<Rightarrow> event list \<Rightarrow> nat list" where
  "restarts name log = [c. EvRestarting n c \<leftarrow> log, n = name]"

definition spawned_pids :: "event list \<Rightarrow> pid list" where
  "spawned_pids log = [p. EvSpawn n p c \<leftarrow> log]"

lemmas history_defs = marks_def started_def blocked_out_def restarts_def spawned_pids_def

lemma history_append [simp]:
  "marks (xs @ ys) = marks xs @ marks ys"
  "started (xs @ ys) = started xs @ started ys"
  "blocked_out (xs @ ys) = blocked_out xs @ blocked_out ys"
  "restarts n (xs @ ys) = restarts n xs @ restarts n ys"
  "spawned_pids (xs @ ys) = spawned_pids xs @ spawned_pids ys"
  by (simp_all add: history_defs)

lemma history_Nil [simp]:
  "marks [] = []" "started [] = []" "blocked_out [] = []" "restarts n [] = []"
  "spawned_pids [] = []"
  by (simp_all add: history_defs)

text \<open>The events that no history counts, and that end no process.\<close>

fun quiet :: "event \<Rightarrow> bool" where
  "quiet (EvMark _) = False"
| "quiet (EvStarting _) = False"
| "quiet (EvBlocked _) = False"
| "quiet (EvRestarting _ _) = False"
| "quiet (EvSpawn _ _ _) = False"
| "quiet (EvExitedLine _ _) = False"
| "quiet (EvKilledLine _ _) = False"
| "quiet _ = True"

lemma history_quiet [simp]:
  assumes "quiet ev"
  shows "marks (ev # xs) = marks xs" "started (ev # xs) = started xs"
    "blocked_out (ev # xs) = blocked_out xs" "restarts n (ev # xs) = restarts n xs"
    "spawned_pids (ev # xs) = spawned_pids xs"
  using assms by (cases ev; simp add: history_defs)+

lemma history_loud [simp]:
  "marks (EvMark n # xs) = n # marks xs" "started (EvMark n # xs) = started xs"
  "blocked_out (EvMark n # xs) = blocked_out xs" "restarts m (EvMark n # xs) = restarts m xs"
  "spawned_pids (EvMark n # xs) = spawned_pids xs"
  "marks (EvStarting n # xs) = marks xs" "started (EvStarting n # xs) = n # started xs"
  "blocked_out (EvStarting n # xs) = blocked_out xs"
  "restarts m (EvStarting n # xs) = restarts m xs"
  "spawned_pids (EvStarting n # xs) = spawned_pids xs"
  "marks (EvBlocked n # xs) = marks xs" "started (EvBlocked n # xs) = started xs"
  "blocked_out (EvBlocked n # xs) = n # blocked_out xs"
  "restarts m (EvBlocked n # xs) = restarts m xs"
  "spawned_pids (EvBlocked n # xs) = spawned_pids xs"
  "marks (EvRestarting n c # xs) = marks xs" "started (EvRestarting n c # xs) = started xs"
  "blocked_out (EvRestarting n c # xs) = blocked_out xs"
  "spawned_pids (EvRestarting n c # xs) = spawned_pids xs"
  "restarts m (EvRestarting n c # xs) = (if m = n then c # restarts m xs else restarts m xs)"
  "marks (EvSpawn n p a # xs) = marks xs" "started (EvSpawn n p a # xs) = started xs"
  "blocked_out (EvSpawn n p a # xs) = blocked_out xs"
  "restarts m (EvSpawn n p a # xs) = restarts m xs"
  "spawned_pids (EvSpawn n p a # xs) = p # spawned_pids xs"
  by (simp_all add: history_defs)

lemma history_ended [simp]:
  "marks (EvExitedLine n c # xs) = marks xs" "started (EvExitedLine n c # xs) = started xs"
  "blocked_out (EvExitedLine n c # xs) = blocked_out xs"
  "restarts m (EvExitedLine n c # xs) = restarts m xs"
  "spawned_pids (EvExitedLine n c # xs) = spawned_pids xs"
  "marks (EvKilledLine n sig # xs) = marks xs" "started (EvKilledLine n sig # xs) = started xs"
  "blocked_out (EvKilledLine n sig # xs) = blocked_out xs"
  "restarts m (EvKilledLine n sig # xs) = restarts m xs"
  "spawned_pids (EvKilledLine n sig # xs) = spawned_pids xs"
  by (simp_all add: history_defs)

section \<open>States of results, and the inputs of a run\<close>

fun flow_state :: "flow \<Rightarrow> exec" where
  "flow_state (Go s) = s"
| "flow_state (Stop s) = s"
| "flow_state (Fail e s) = s"
| "flow_state (Crash s) = s"
| "flow_state (Hang s) = s"

fun result_state :: "run_result \<Rightarrow> exec" where
  "result_state (Finished s) = s"
| "result_state (RunError e s) = s"
| "result_state (RunPanic s) = s"
| "result_state (RunHang s) = s"
| "result_state (StillRunning s) = s"

text \<open>\<open>I\<close> where the loop goes on or ends as it should, \<open>E\<close> where it returns an error, \<open>C\<close> where
  it panics.\<close>

fun flow_inv :: "(exec \<Rightarrow> bool) \<Rightarrow> (exec \<Rightarrow> bool) \<Rightarrow> (exec \<Rightarrow> bool) \<Rightarrow> flow \<Rightarrow> bool" where
  "flow_inv I E C (Fail e s) = E s"
| "flow_inv I E C (Crash s) = C s"
| "flow_inv I E C r = I (flow_state r)"

fun run_inv :: "(exec \<Rightarrow> bool) \<Rightarrow> (exec \<Rightarrow> bool) \<Rightarrow> (exec \<Rightarrow> bool) \<Rightarrow> run_result \<Rightarrow> bool" where
  "run_inv I E C (RunError e s) = E s"
| "run_inv I E C (RunPanic s) = C s"
| "run_inv I E C r = I (result_state r)"

lemma flow_inv_same [simp]: "flow_inv I I I r = I (flow_state r)"
  by (cases r) auto

lemma run_inv_same [simp]: "run_inv I I I r = I (result_state r)"
  by (cases r) auto

definition tick_ok ::
  "(ctl_command \<Rightarrow> bool) \<Rightarrow> (string \<Rightarrow> exec \<Rightarrow> bool) \<Rightarrow> exec_env \<Rightarrow> tick \<Rightarrow> exec \<Rightarrow> bool" where
  "tick_ok cmd_ok sig_ok env t s =
     (list_all cmd_ok (map fst (tk_commands t)) \<and>
      (case drain_commands env t (tk_commands t) s of
         Go s1 \<Rightarrow>
           list_all (\<lambda>n. sig_ok n s1) (tk_ready t) \<and>
           (case launch_all env (drain_ready (tk_ready t) s1) of
              Go s2 \<Rightarrow> (case tk_late t of None \<Rightarrow> True | Some n \<Rightarrow> sig_ok n s2)
            | _ \<Rightarrow> True)
       | _ \<Rightarrow> True))"

fun ticks_ok ::
  "bool \<Rightarrow> (ctl_command \<Rightarrow> bool) \<Rightarrow> (string \<Rightarrow> exec \<Rightarrow> bool) \<Rightarrow> exec_env \<Rightarrow> tick list \<Rightarrow> exec \<Rightarrow> bool"
where
  "ticks_ok stop_ok cmd_ok sig_ok env [] s = True"
| "ticks_ok stop_ok cmd_ok sig_ok env (t # ts) s =
     ((if tk_shutdown t then stop_ok else tick_ok cmd_ok sig_ok env t s) \<and>
      (case iteration env t s of Go s' \<Rightarrow> ticks_ok stop_ok cmd_ok sig_ok env ts s' | _ \<Rightarrow> True))"

lemma ticks_ok_any: "ticks_ok True (\<lambda>_. True) (\<lambda>_ _. True) env ts s"
  by (induction ts arbitrary: s) (auto simp: tick_ok_def list_all_iff split: flow.split option.split)

section \<open>The interface of the loop\<close>

locale loop_invariant =
  fixes env :: exec_env and I E C :: "exec \<Rightarrow> bool" and stop_ok :: bool
    and cmd_ok :: "ctl_command \<Rightarrow> bool"
    and sig_ok :: "string \<Rightarrow> exec \<Rightarrow> bool"
  assumes keeps_command: "I s \<Longrightarrow> cmd_ok c \<Longrightarrow> flow_inv I E C (handle_command env t (c, f) s)"
    and keeps_ready: "I s \<Longrightarrow> sig_ok n s \<Longrightarrow> I (report_ready n s)"
    and keeps_sig_ok: "sig_ok m s \<Longrightarrow> sig_ok m (report_ready n s)"
    and keeps_launch: "I s \<Longrightarrow> ex_to_start s \<noteq> [] \<Longrightarrow>
      flow_inv I E C (launch_one env (last (ex_to_start s)) (pop_start s))"
    and keeps_poll: "I s \<Longrightarrow> flow_inv I E C (poll_one env t pid s)"
    and keeps_emit: "I s \<Longrightarrow> quiet ev \<Longrightarrow> I (emit ev s)"
    and keeps_untrack: "stop_ok \<Longrightarrow> I s \<Longrightarrow> I (untrack pid s)"
begin

lemma keeps_and_then:
  "flow_inv I E C r \<Longrightarrow> (\<And>s. r = Go s \<Longrightarrow> I s \<Longrightarrow> flow_inv I E C (f s)) \<Longrightarrow>
   flow_inv I E C (and_then r f)"
  by (cases r) auto

lemma keeps_drain_commands:
  "I s \<Longrightarrow> list_all cmd_ok (map fst cs) \<Longrightarrow> flow_inv I E C (drain_commands env t cs s)"
  by (induction cs arbitrary: s) (auto intro!: keeps_and_then keeps_command)

lemma keeps_drain_ready:
  "I s \<Longrightarrow> list_all (\<lambda>n. sig_ok n s) ns \<Longrightarrow> I (drain_ready ns s)"
  by (induction ns arbitrary: s)
    (auto simp: drain_ready_def list_all_iff intro: keeps_ready keeps_sig_ok)

lemma keeps_launch_all: "I s \<Longrightarrow> flow_inv I E C (launch_all env s)"
proof (induction "launch_measure s" arbitrary: s rule: less_induct)
  case less
  show ?case
  proof (cases "ex_to_start s = []")
    case True
    with less.prems show ?thesis by (simp add: launch_all.simps)
  next
    case False
    have "launch_measure (pop_start s) < launch_measure s"
      using False by (simp add: launch_measure_def pop_start_def)
    with keeps_launch[OF less.prems False] False show ?thesis
      by (auto simp: launch_all.simps[of env s] intro!: less.hyps split: flow.splits
          dest: launch_one_measure)
  qed
qed

lemma keeps_poll_all: "I s \<Longrightarrow> flow_inv I E C (poll_all env t pids s)"
  by (induction pids arbitrary: s) (auto intro!: keeps_and_then keeps_poll)

lemma keeps_stop_service: "stop_ok \<Longrightarrow> I s \<Longrightarrow> stop_service t name (s, i) = Some (s', j) \<Longrightarrow> I s'"
  by (auto simp: stop_service_def Let_def intro!: keeps_emit keeps_untrack
      split: option.splits prod.splits bool.splits)

lemma keeps_stop_services: "stop_ok \<Longrightarrow> I s \<Longrightarrow> stop_services t names (s, i) = Some (s', j) \<Longrightarrow> I s'"
  by (induction names arbitrary: s i) (auto split: option.splits dest: keeps_stop_service)

lemma keeps_stop_stragglers: "I s \<Longrightarrow> stop_stragglers t ps (s, i) = Some (s', j) \<Longrightarrow> I s'"
proof (induction ps arbitrary: s i)
  case (Cons p ps)
  obtain pid name where p: "p = (pid, name)" by fastforce
  let ?s = "emit (EvKill pid SIGTERM) (emit (EvStraggler name) s)"
  from Cons.prems(2) obtain gone k
    where "stop_stragglers t ps (if gone then ?s else emit (EvKill pid SIGKILL) ?s, k) = Some (s', j)"
    by (auto simp: p Let_def split: option.splits)
  then show ?case by (rule Cons.IH[rotated]) (simp add: keeps_emit Cons.prems(1))
qed simp

lemma keeps_shutdown: "stop_ok \<Longrightarrow> I s \<Longrightarrow> graceful_shutdown t s = Some s' \<Longrightarrow> I s'"
  by (auto simp: graceful_shutdown_def Let_def split: option.splits)
    (metis keeps_stop_services keeps_stop_stragglers)

theorem keeps_iteration:
  assumes "I s" "if tk_shutdown t then stop_ok else tick_ok cmd_ok sig_ok env t s"
  shows "flow_inv I E C (iteration env t s)"
proof (cases "tk_shutdown t")
  case True
  with assms show ?thesis by (auto simp: iteration_def keeps_shutdown split: option.split)
next
  case False
  with assms(2) have ok: "tick_ok cmd_ok sig_ok env t s" by simp
  show ?thesis
    unfolding iteration_def if_not_P[OF False]
  proof (rule keeps_and_then)
    show "flow_inv I E C (drain_commands env t (tk_commands t) s)"
      using assms(1) ok by (intro keeps_drain_commands) (auto simp: tick_ok_def)
  next
    fix s1 assume s1: "drain_commands env t (tk_commands t) s = Go s1" "I s1"
    show "flow_inv I E C (and_then (launch_all env (drain_ready (tk_ready t) s1)) (\<lambda>s.
          if ex_completed s \<ge> ex_total s then Stop s
          else if ex_pid_to_name s = [] then Stop s
          else (let s = (case tk_late t of None \<Rightarrow> s | Some name \<Rightarrow> report_ready name s)
                in poll_all env t (map fst (tk_order t (ex_pid_to_name s))) s)))"
    proof (rule keeps_and_then)
      show "flow_inv I E C (launch_all env (drain_ready (tk_ready t) s1))"
        using s1 ok by (intro keeps_launch_all keeps_drain_ready) (auto simp: tick_ok_def)
    next
      fix s2 assume "launch_all env (drain_ready (tk_ready t) s1) = Go s2" "I s2"
      with s1 ok show "flow_inv I E C (if ex_completed s2 \<ge> ex_total s2 then Stop s2
          else if ex_pid_to_name s2 = [] then Stop s2
          else (let s = (case tk_late t of None \<Rightarrow> s2 | Some name \<Rightarrow> report_ready name s2)
                in poll_all env t (map fst (tk_order t (ex_pid_to_name s))) s))"
        by (auto simp: tick_ok_def Let_def intro!: keeps_poll_all keeps_ready split: option.splits)
    qed
  qed
qed

lemma keeps_run:
  assumes "I s" "ticks_ok stop_ok cmd_ok sig_ok env ts s"
  shows "run_inv I E C (run_loop env marker ts s)"
  using assms
proof (induction ts arbitrary: s)
  case (Cons t ts)
  from Cons.prems(2) have ok: "if tk_shutdown t then stop_ok else tick_ok cmd_ok sig_ok env t s" by simp
  have "I (finish marker b s')" if "I s'" for s' b
    using that by (auto simp: finish_def Let_def intro!: keeps_emit split: option.split)
  with keeps_iteration[OF Cons.prems(1) ok] Cons show ?case
    by (auto split: flow.splits)
qed simp

end

section \<open>The interface of the state\<close>

lemma spawn_svc [simp]: "ex_svc_by_name (snd (spawn env n def s)) = ex_svc_by_name s"
  by (simp add: spawn_def Let_def emit_def split: outcome.split)

lemma update_svc [simp]:
  "ex_svc_by_name (emit ev s) = ex_svc_by_name s"
  "ex_svc_by_name (set_state n st s) = ex_svc_by_name s"
  "ex_svc_by_name (remove_stale d s) = ex_svc_by_name s"
  "ex_svc_by_name (pop_start s) = ex_svc_by_name s"
  by (simp_all add: emit_def set_state_def remove_stale_def pop_start_def split: option.split)

locale update_invariant =
  fixes env :: exec_env and I :: "exec \<Rightarrow> bool"
  assumes upd_emit: "I s \<Longrightarrow> quiet ev \<Longrightarrow> I (emit ev s)"
    and upd_state: "I s \<Longrightarrow> I (set_state n st s)"
    and upd_track: "I s \<Longrightarrow> map_of (ex_svc_by_name s) n \<noteq> None \<Longrightarrow>
      I (s\<lparr>ex_pid_to_name := AList.update pid n (ex_pid_to_name s)\<rparr>)"
    and upd_untrack: "I s \<Longrightarrow> I (untrack pid s)"
    and upd_spawn: "I s \<Longrightarrow> map_of (ex_svc_by_name s) n = Some def \<Longrightarrow> I (snd (spawn env n def s))"
    and upd_mark: "I s \<Longrightarrow> I (mark_and_queue n s)"
    and upd_block: "I s \<Longrightarrow> I (block_dependents n s)"
    and upd_bump: "I s \<Longrightarrow> I (bump_completed s)"
    and upd_pending: "I s \<Longrightarrow> I (s\<lparr>ex_pending_restart := A\<rparr>)"
    and upd_replies: "I s \<Longrightarrow> I (s\<lparr>ex_restart_replies := R\<rparr>)"
    and upd_reported: "I s \<Longrightarrow> I (s\<lparr>ex_ready_reported := A\<rparr>)"
    and upd_reload: "I s \<Longrightarrow> toml_parse env raw = Inr d \<Longrightarrow>
      I (s\<lparr>ex_raw := Raw, ex_svc_by_name := AList.update n d (ex_svc_by_name s)\<rparr>)"
    and upd_pop: "I s \<Longrightarrow> I (pop_start s)"
    and upd_starting: "I s \<Longrightarrow> ex_to_start s \<noteq> [] \<Longrightarrow> last (ex_to_start s) \<notin> ex_blocked s \<Longrightarrow>
      I (emit (EvStarting (last (ex_to_start s))) (pop_start s))"
    and upd_blocked: "I s \<Longrightarrow> ex_to_start s \<noteq> [] \<Longrightarrow>
      I (emit (EvBlocked (last (ex_to_start s))) (pop_start s))"
    and upd_count: "I s \<Longrightarrow> restart_count n s < MAX_RESTARTS \<Longrightarrow>
      I (emit (EvRestarting n (restart_count n s + 1))
        (s\<lparr>ex_restart_counts := AList.update n (restart_count n s + 1) (ex_restart_counts s)\<rparr>))"
    and upd_touch: "I s \<Longrightarrow>
      I (s\<lparr>ex_restart_counts := hm_modify n 0 (\<lambda>c. c) (ex_restart_counts s)\<rparr>)"
    and upd_exited_line: "I s \<Longrightarrow> I (emit (EvExitedLine n code) s)"
    and upd_killed_line: "I s \<Longrightarrow> I (emit (EvKilledLine n sig) s)"
begin

lemma upd_running:
  "I s \<Longrightarrow> map_of (ex_svc_by_name s) n \<noteq> None \<Longrightarrow> I (enter_running n pid s)"
  by (simp add: enter_running_def Let_def upd_track upd_state)

lemma upd_spawn_eq: "spawn env n def s = (r, s') \<Longrightarrow> I s \<Longrightarrow> map_of (ex_svc_by_name s) n = Some def \<Longrightarrow> I s'"
  using upd_spawn[of s n def] by simp

lemma upd_spawn_running:
  assumes "spawn env n def s = (r, s')" "I s" "map_of (ex_svc_by_name s) n = Some def"
  shows "I (enter_running n pid s')"
proof (rule upd_running)
  show "I s'" using assms upd_spawn_eq by blast
  show "map_of (ex_svc_by_name s') n \<noteq> None" using assms(1,3) spawn_svc[of env n def s] by simp
qed

lemma upd_spawn_and_reply: "I s \<Longrightarrow> I (flow_state (spawn_and_reply env service reply s))"
  by (auto simp: spawn_and_reply_def intro!: upd_emit intro: upd_spawn_running upd_spawn_eq
      split: option.split prod.split outcome.split)

lemma upd_await: "I s \<Longrightarrow> I (await_restart service reply s)"
  using upd_replies[OF upd_pending]
  by (auto simp: await_restart_def Let_def upd_emit split: option.split)

lemma upd_signal: "I s \<Longrightarrow> I (signal_service t service sig s)"
  by (auto simp: signal_service_def upd_emit split: option.split)

lemma upd_start: "I s \<Longrightarrow> I (flow_state (handle_start env service reply s))"
  by (auto simp: handle_start_def upd_emit upd_spawn_and_reply
      split: option.split service_state.split)

lemma upd_restart: "I s \<Longrightarrow> I (flow_state (handle_restart env t service reply s))"
  by (auto simp: handle_restart_def Let_def upd_emit upd_await upd_signal upd_spawn_and_reply
      split: option.split service_state.split)

lemma upd_apply_reload:
  "I s \<Longrightarrow> toml_parse env raw = Inr def \<Longrightarrow>
   I (flow_state (apply_reload env t service reply raw def s))"
  by (auto simp: apply_reload_def Let_def upd_reload upd_emit upd_await upd_spawn_and_reply
      split: option.split)

lemma upd_reload_cmd: "I s \<Longrightarrow> I (flow_state (handle_reload env t service reply file s))"
  by (auto simp: handle_reload_def Let_def upd_emit upd_signal upd_apply_reload
      split: option.split sum.split)

lemma upd_command: "I s \<Longrightarrow> I (flow_state (handle_command env t (c, f) s))"
  by (cases c) (simp_all add: upd_start upd_restart upd_reload_cmd)

lemma upd_ready: "I s \<Longrightarrow> I (report_ready n s)"
  by (auto simp: report_ready_def upd_mark upd_state upd_emit upd_reported)

lemma upd_launch_start:
  assumes "I (emit (EvStarting n) s)" "map_of (ex_svc_by_name s) n = Some def"
  shows "I (flow_state (launch_start env n def s))"
proof -
  let ?s = "remove_stale def (emit (EvStarting n) s)"
  have "I ?s" using assms(1) by (auto simp: remove_stale_def upd_emit split: option.split)
  moreover have "map_of (ex_svc_by_name ?s) n = Some def" using assms(2) by simp
  ultimately show ?thesis
    by (auto simp: launch_start_def intro: upd_spawn_running upd_spawn_eq
        split: prod.split outcome.split)
qed

lemma upd_launch:
  assumes "I s" "ex_to_start s \<noteq> []"
  shows "I (flow_state (launch_one env (last (ex_to_start s)) (pop_start s)))"
proof -
  have [simp]: "ex_blocked (pop_start s) = ex_blocked s" by (simp add: pop_start_def)
  show ?thesis
    using assms upd_blocked[OF assms] upd_starting[OF assms]
    by (auto simp: launch_one_def launch_blocked_def upd_bump upd_mark upd_block upd_state upd_pop
        intro!: upd_launch_start split: option.split)
qed

lemma upd_reply_restart: "I s \<Longrightarrow> I (reply_restart n res s)"
  by (auto simp: reply_restart_def upd_emit upd_replies split: option.split)

lemma upd_manual: "I s \<Longrightarrow> I (flow_state (manual_restart env n s))"
  by (auto simp: manual_restart_def Let_def
      intro!: upd_reply_restart upd_state upd_pending
      intro: upd_spawn_running[OF _ upd_pending] upd_spawn_eq[OF _ upd_pending]
      split: option.split prod.split outcome.split)

lemma upd_auto:
  assumes "I s" "restart_count n s < MAX_RESTARTS"
  shows "I (flow_state (auto_restart env n s))"
  using upd_count[OF assms]
  by (auto simp: auto_restart_def Let_def intro: upd_spawn_running upd_spawn_eq
      split: option.split prod.split outcome.split)

lemma upd_settle: "I s \<Longrightarrow> I (settle n failed s)"
  by (auto simp: settle_def Let_def upd_bump upd_block upd_mark upd_reported)

lemma upd_exited: "I s \<Longrightarrow> I (flow_state (handle_exited env b n code s))"
  by (auto simp: handle_exited_def Let_def upd_exited_line upd_emit upd_manual upd_auto upd_touch upd_settle upd_state)

lemma upd_signaled: "I s \<Longrightarrow> I (flow_state (handle_signaled env b n sig s))"
  by (auto simp: handle_signaled_def Let_def upd_killed_line upd_emit upd_manual upd_auto upd_touch upd_settle upd_state)

lemma upd_poll: "I s \<Longrightarrow> I (flow_state (poll_one env t pid s))"
  by (auto simp: poll_one_def upd_untrack upd_exited upd_signaled upd_bump upd_emit
      split: wait_status.split option.split)

end

sublocale update_invariant \<subseteq> loop_invariant env I I I True "\<lambda>_. True" "\<lambda>_ _. True"
  by unfold_locales
    (auto intro: upd_command upd_ready upd_launch upd_poll upd_emit upd_untrack)

context update_invariant
begin

lemma upd_run: "I s \<Longrightarrow> I (result_state (run_loop env marker ts s))"
  using keeps_run[OF _ ticks_ok_any] by simp

end

end
