(* ===== verification/Executor_Safety.thy ===== *)
theory Executor_Safety
  imports Executor_Inv
begin

text \<open>
  Invariants of every run of the executor, for all commands, signals, child results and iteration
  orders: tracked children belong to known services, a service is restarted automatically at most
  five times, the table of the control server shows the executor's states, and a service is only
  started when the graph has released it. Each is an interpretation of \<open>update_invariant\<close>.
\<close>

lemmas update_defs = emit_def set_state_def untrack_def block_dependents_def
  bump_completed_def pop_start_def

definition spawn_events :: "exec_env \<Rightarrow> string \<Rightarrow> service_def \<Rightarrow> exec \<Rightarrow> event list" where
  "spawn_events env n def s =
     (case spawn_service env (ex_spawns s) def of Ok (pid, child) \<Rightarrow> [EvSpawn n pid child] | _ \<Rightarrow> [])"

lemma spawn_fields [simp]:
  "ex_graph (snd (spawn env n def s)) = ex_graph s"
  "ex_pid_to_name (snd (spawn env n def s)) = ex_pid_to_name s"
  "ex_ready_reported (snd (spawn env n def s)) = ex_ready_reported s"
  "ex_blocked (snd (spawn env n def s)) = ex_blocked s"
  "ex_restart_counts (snd (spawn env n def s)) = ex_restart_counts s"
  "ex_states (snd (spawn env n def s)) = ex_states s"
  "ex_pending_restart (snd (spawn env n def s)) = ex_pending_restart s"
  "ex_restart_replies (snd (spawn env n def s)) = ex_restart_replies s"
  "ex_shared (snd (spawn env n def s)) = ex_shared s"
  "ex_to_start (snd (spawn env n def s)) = ex_to_start s"
  "ex_total (snd (spawn env n def s)) = ex_total s"
  "ex_completed (snd (spawn env n def s)) = ex_completed s"
  "ex_log (snd (spawn env n def s)) = ex_log s @ spawn_events env n def s"
  by (simp_all add: spawn_def spawn_events_def Let_def emit_def split: outcome.split)

lemma mark_fields [simp]:
  "ex_graph (mark_and_queue n s) = snd (mark_ready (ex_graph s) n)"
  "ex_to_start (mark_and_queue n s) = ex_to_start s @ fst (mark_ready (ex_graph s) n)"
  "ex_log (mark_and_queue n s) = ex_log s @ [EvMark n]"
  "ex_pid_to_name (mark_and_queue n s) = ex_pid_to_name s"
  "ex_ready_reported (mark_and_queue n s) = ex_ready_reported s"
  "ex_blocked (mark_and_queue n s) = ex_blocked s"
  "ex_states (mark_and_queue n s) = ex_states s"
  "ex_pending_restart (mark_and_queue n s) = ex_pending_restart s"
  "ex_svc_by_name (mark_and_queue n s) = ex_svc_by_name s"
  "ex_total (mark_and_queue n s) = ex_total s"
  "ex_completed (mark_and_queue n s) = ex_completed s"
  "ex_restart_counts (mark_and_queue n s) = ex_restart_counts s"
  "ex_restart_replies (mark_and_queue n s) = ex_restart_replies s"
  "ex_shared (mark_and_queue n s) = ex_shared s"
  by (simp_all add: mark_and_queue_def split_def)

lemma history_spawn [simp]:
  "marks (spawn_events env n def s) = []" "started (spawn_events env n def s) = []"
  "blocked_out (spawn_events env n def s) = []" "restarts m (spawn_events env n def s) = []"
  by (auto simp: spawn_events_def split: outcome.split)

section \<open>Known services and the restart bound\<close>

definition known_inv :: "exec \<Rightarrow> bool" where
  "known_inv s \<longleftrightarrow> (\<forall>(p, n) \<in> set (ex_pid_to_name s). map_of (ex_svc_by_name s) n \<noteq> None)"

definition restart_inv :: "exec \<Rightarrow> bool" where
  "restart_inv s \<longleftrightarrow> (\<forall>n. restart_count n s \<le> MAX_RESTARTS \<and>
     restarts n (ex_log s) = [1..<restart_count n s + 1])"

lemma set_delete_subset: "set (AList.delete k al) \<subseteq> set al"
  by (induction al) auto

lemma set_update_subset: "set (AList.update k v al) \<subseteq> insert (k, v) (set al)"
  by (induction al) auto

interpretation ki: update_invariant env known_inv for env
proof (unfold_locales, goal_cases)
  case (3 s n pid)
  then show ?case
    using set_update_subset[of pid n "ex_pid_to_name s"] by (auto simp: known_inv_def)
next
  case (4 s pid)
  then show ?case
    using set_delete_subset[of pid "ex_pid_to_name s"] by (auto simp: known_inv_def update_defs)
next
  case (12 s raw d n Raw)
  then show ?case by (auto simp: known_inv_def update_conv')
qed (simp_all add: known_inv_def update_defs split: prod.split)

lemma restart_count_update [simp]:
  "restart_count m (emit ev s) = restart_count m s"
  by (simp add: restart_count_def emit_def)

interpretation ri: update_invariant env restart_inv for env
proof (unfold_locales, goal_cases)
  case (16 s n)
  then show ?case by (auto simp: restart_inv_def restart_count_def emit_def MAX_RESTARTS_def)
qed (auto simp: restart_inv_def update_defs restart_count_def split: prod.split)

section \<open>What is executed\<close>

text \<open>A definition that a run may use for a service: one it was started with, or one that a reload read.\<close>

definition offered :: "exec_env \<Rightarrow> service_def list \<Rightarrow> string \<Rightarrow> service_def \<Rightarrow> bool" where
  "offered env services n d \<longleftrightarrow>
     (d \<in> set services \<and> sd_name d = n) \<or> (\<exists>raw. toml_parse env raw = Inr d)"

definition spawned_inv :: "exec_env \<Rightarrow> service_def list \<Rightarrow> exec \<Rightarrow> bool" where
  "spawned_inv env services s \<longleftrightarrow>
     (\<forall>(n, d) \<in> set (ex_svc_by_name s). offered env services n d) \<and>
     (\<forall>n pid child. EvSpawn n pid child \<in> set (ex_log s) \<longrightarrow>
        (\<exists>k d. offered env services n d \<and> spawn_service env k d = Ok (pid, child)))"

lemma spawned_spawn:
  assumes "spawned_inv env services s" "map_of (ex_svc_by_name s) n = Some def"
  shows "spawned_inv env services (snd (spawn env n def s))"
proof -
  have "offered env services n def"
    using assms by (auto simp: spawned_inv_def dest: map_of_SomeD)
  then show ?thesis
    using assms(1) by (auto simp: spawned_inv_def spawn_events_def split: outcome.splits)
qed

interpretation sp: update_invariant env "spawned_inv env services" for env services
proof (unfold_locales, goal_cases)
  case (1 s ev)
  then show ?case by (cases ev) (auto simp: spawned_inv_def update_defs)
next
  case (5 s n def)
  then show ?case by (rule spawned_spawn)
next
  case (12 s raw d n Raw)
  then show ?case
    using set_update_subset[of n d "ex_svc_by_name s"] by (auto simp: spawned_inv_def offered_def)
qed (simp_all add: spawned_inv_def update_defs)

lemma collected_names:
  "(n, d) \<in> set (fold (\<lambda>s. AList.update (sd_name s) s) services m) \<Longrightarrow>
   (n, d) \<in> set m \<or> (d \<in> set services \<and> sd_name d = n)"
proof (induction services arbitrary: m)
  case (Cons s services)
  from Cons.prems Cons.IH[of "AList.update (sd_name s) s m"] set_update_subset[of "sd_name s" s m]
  show ?case by auto
qed simp

lemma spawned_init: "spawned_inv env services (init_exec env rd g services shared)"
  by (auto simp: spawned_inv_def init_exec_def Let_def offered_def dest: collected_names)

section \<open>The table of the control server\<close>

definition shown_inv :: "exec \<Rightarrow> bool" where
  "shown_inv s \<longleftrightarrow> mirrors (ex_states s) (ex_shared s)"

interpretation si: update_invariant env shown_inv for env
  by unfold_locales (simp_all add: shown_inv_def update_defs mirrors_sync split: prod.split)

lemma mirrors_init:
  assumes "mirrors states shared" "distinct (map fst states @ names)"
  shows "mirrors (states @ map (\<lambda>n. (n, Pending)) names) (fold (\<lambda>n. sync_state n Pending) names shared)"
  using assms
proof (induction names arbitrary: states shared)
  case (Cons n names)
  have "AList.update n Pending states = states @ [(n, Pending)]"
    using Cons.prems(2) by (induction states) auto
  with mirrors_sync[OF Cons.prems(1), of n Pending]
  have "mirrors (states @ [(n, Pending)]) (sync_state n Pending shared)" by simp
  from Cons.IH[OF this] Cons.prems(2) show ?case by simp
qed simp

lemma distinct_collect:
  "distinct (map fst m) \<Longrightarrow>
   distinct (map fst (fold (\<lambda>s. AList.update (sd_name s) s) services m))"
  by (induction services arbitrary: m) (auto simp: distinct_update)

lemma shown_init: "shown_inv (init_exec env rd g services [])"
proof -
  let ?names = "map fst (fold (\<lambda>s. AList.update (sd_name s) s) services [])"
  have "mirrors ([] @ map (\<lambda>n. (n, Pending)) ?names) (fold (\<lambda>n. sync_state n Pending) ?names [])"
    by (rule mirrors_init) (simp_all add: mirrors_def distinct_collect)
  then show ?thesis by (simp add: shown_inv_def init_exec_def Let_def del: map_map)
qed

section \<open>Release before start\<close>

text \<open>Every start of the history has, if no service was marked twice before it, all its known
  dependencies marked before it.\<close>

definition start_ordered :: "service_def list \<Rightarrow> event list \<Rightarrow> bool" where
  "start_ordered services log \<longleftrightarrow>
     (\<forall>pre n post. log = pre @ EvStarting n # post \<longrightarrow> distinct (marks pre) \<longrightarrow>
        deps_of services n \<subseteq> set (marks pre))"

definition built_from :: "service_def list \<Rightarrow> service_graph \<Rightarrow> bool" where
  "built_from services g \<longleftrightarrow> (\<exists>ho. is_hash_order ho \<and> build ho services = Ok g)"

definition release_inv :: "service_def list \<Rightarrow> service_graph \<Rightarrow> exec \<Rightarrow> bool" where
  "release_inv services g0 s \<longleftrightarrow>
     built_from services g0 \<and>
     ex_graph s = fold (\<lambda>m g. snd (mark_ready g m)) (marks (ex_log s)) g0 \<and>
     (distinct (marks (ex_log s)) \<longrightarrow>
        (\<forall>n \<in> set (ex_to_start s). deps_of services n \<subseteq> set (marks (ex_log s)))) \<and>
     start_ordered services (ex_log s)"

lemma append_singleton_eq:
  "log @ [ev] = pre @ x # post \<longleftrightarrow>
     (post = [] \<and> log = pre \<and> ev = x) \<or> (\<exists>post'. post = post' @ [ev] \<and> log = pre @ x # post')"
  by (cases post rule: rev_cases) auto

lemma start_ordered_snoc:
  "start_ordered services (log @ [ev]) \<longleftrightarrow> start_ordered services log \<and>
     (\<forall>n. ev = EvStarting n \<longrightarrow> distinct (marks log) \<longrightarrow> deps_of services n \<subseteq> set (marks log))"
  unfolding start_ordered_def append_singleton_eq by blast

lemma start_ordered_quiet [simp]:
  "quiet ev \<Longrightarrow> start_ordered services (log @ [ev]) = start_ordered services log"
  "start_ordered services (log @ [EvExitedLine n code]) = start_ordered services log"
  "start_ordered services (log @ [EvKilledLine n sig]) = start_ordered services log"
  by (auto simp: start_ordered_snoc)

lemma start_ordered_spawn [simp]:
  "start_ordered services (log @ spawn_events env n def s) = start_ordered services log"
  by (auto simp: spawn_events_def start_ordered_snoc split: outcome.split)

lemma built_release_iff:
  assumes "built_from services g0" "distinct (ms @ [n])"
  shows "v \<in> set (fst (mark_ready (fold (\<lambda>m g. snd (mark_ready g m)) ms g0) n)) \<longleftrightarrow>
    n \<in> deps_of services v \<and> deps_of services v \<subseteq> set (ms @ [n])"
proof -
  from assms(1) obtain ho where "is_hash_order ho" "build ho services = Ok g0"
    by (auto simp: built_from_def)
  from build_release_iff[OF this assms(2)] show ?thesis .
qed

lemma release_mark:
  assumes "release_inv services g0 s"
  shows "release_inv services g0 (mark_and_queue n s)"
proof -
  let ?ms = "marks (ex_log s)"
  have g: "ex_graph s = fold (\<lambda>m g. snd (mark_ready g m)) ?ms g0"
    and b: "built_from services g0"
    using assms by (simp_all add: release_inv_def)
  obtain newly g' where m: "mark_ready (ex_graph s) n = (newly, g')" by fastforce
  have "deps_of services v \<subseteq> set (?ms @ [n])" if "distinct (?ms @ [n])" "v \<in> set newly" for v
    using built_release_iff[OF b that(1), of v] that(2) m by (simp add: g)
  with assms m show ?thesis
    by (auto simp: release_inv_def mark_and_queue_def start_ordered_snoc g[symmetric])
qed

interpretation rel: update_invariant env "release_inv services g0" for env services g0
proof (unfold_locales, goal_cases)
  case (6 s n)
  then show ?case by (rule release_mark)
next
  case (13 s)
  then show ?case by (auto simp: release_inv_def pop_start_def dest: in_set_butlastD)
next
  case (14 s)
  then show ?case by (auto simp: release_inv_def update_defs start_ordered_snoc dest: in_set_butlastD)
next
  case (15 s)
  then show ?case by (auto simp: release_inv_def update_defs start_ordered_snoc dest: in_set_butlastD)
next
  case (16 s n)
  then show ?case by (simp add: release_inv_def update_defs start_ordered_snoc)
qed (simp_all add: release_inv_def update_defs)

section \<open>Panics\<close>

text \<open>A definition whose command line \<open>build_exec_args\<close> can turn into C strings without \<open>unwrap\<close>
  failing.\<close>

definition nul_free :: "service_def \<Rightarrow> bool" where
  "nul_free def \<longleftrightarrow> svc_args (sd_service def) \<noteq> None \<or> \<not> list_ex is_nul (svc_exec (sd_service def))"

lemma those_None_iff: "those xs = None \<longleftrightarrow> None \<in> set xs"
  by (induction xs) (auto split: option.splits)

lemma those_Some_iff: "those xs = Some ys \<longleftrightarrow> xs = map Some ys"
  by (induction xs arbitrary: ys) (auto split: option.splits)

lemma c_string_None_iff: "c_string s = None \<longleftrightarrow> list_ex is_nul s"
  by (simp add: c_string_def)

lemma split_whitespace_nul:
  "\<not> is_whitespace (CHR 0x00) \<Longrightarrow>
   (\<exists>w \<in> set (split_whitespace s). list_ex is_nul w) \<longleftrightarrow> list_ex is_nul s"
proof -
  assume ws: "\<not> is_whitespace (CHR 0x00)"
  have "(\<exists>w \<in> set (split_by P s). x \<in> set w) \<longleftrightarrow> x \<in> set s" if "\<not> P x" for P x
    using that by (induction P s rule: split_by.induct) (auto split: list.splits)
  from this[of is_whitespace "CHR 0x00"] ws show ?thesis
    by (force simp: split_whitespace_def list_ex_iff is_nul_def)
qed

lemma build_exec_args_panic_iff: "build_exec_args def = Panic \<longleftrightarrow> \<not> nul_free def"
proof -
  have ws: "\<not> is_whitespace (CHR 0x00)" by (simp add: is_whitespace_def)
  have "those (map c_string (split_whitespace e)) = None \<longleftrightarrow> list_ex is_nul e" for e
    using split_whitespace_nul[OF ws, of e]
    by (auto simp: those_None_iff c_string_None_iff image_iff eq_commute[of None])
  then show ?thesis
    by (auto simp: build_exec_args_def nul_free_def Let_def split: option.splits list.splits)
      (metis option.distinct(1))+
qed

definition calm_inv :: "exec_env \<Rightarrow> exec \<Rightarrow> bool" where
  "calm_inv env s \<longleftrightarrow> known_inv s \<and> (\<forall>(n, d) \<in> set (ex_svc_by_name s). nul_free d) \<and>
     (\<forall>raw d. toml_parse env raw = Inr d \<longrightarrow> nul_free d)"

interpretation ci: update_invariant env "calm_inv env" for env
proof (unfold_locales, goal_cases)
  case (12 s raw d n Raw)
  then show ?case
    using ki.upd_reload[of s env raw d n Raw] set_update_subset[of n d "ex_svc_by_name s"]
    by (auto simp: calm_inv_def)
next
  case (4 s pid)
  then show ?case using ki.upd_untrack[of s pid] by (simp add: calm_inv_def untrack_def)
next
  case (3 s n pid)
  then show ?case using ki.upd_track[of s n pid] by (simp add: calm_inv_def)
qed (simp_all add: calm_inv_def known_inv_def update_defs)

lemma calm_spawn:
  assumes "calm_inv env s" "map_of (ex_svc_by_name s) n = Some def"
  shows "fst (spawn env n def s') \<noteq> Panic"
proof -
  have "nul_free def" using assms by (auto simp: calm_inv_def dest: map_of_SomeD)
  then have "build_exec_args def \<noteq> Panic" by (simp add: build_exec_args_panic_iff)
  then have "spawn_service env k def \<noteq> Panic" for k
    by (auto simp: spawn_service_def split: outcome.splits sum.splits)
  then show ?thesis
    by (auto simp: spawn_def Let_def split: outcome.split)
qed

lemma calm_spawn_eq:
  "calm_inv env s \<Longrightarrow> map_of (ex_svc_by_name s) n = Some def \<Longrightarrow> spawn env n def s' \<noteq> (Panic, s'')"
  using calm_spawn[of env s n def s'] by auto

lemma calm_reply: "calm_inv env s \<Longrightarrow> spawn_and_reply env n r s \<noteq> Crash s'"
  by (auto simp: spawn_and_reply_def dest: calm_spawn_eq
      split: option.splits prod.splits outcome.splits)

lemma calm_command:
  assumes "calm_inv env s"
  shows "handle_command env t (c, f) s \<noteq> Crash s'"
proof (cases c)
  case (CmdReload n r)
  have "apply_reload env t n r raw def s1 \<noteq> Crash s'"
    if "calm_inv env s1" "toml_parse env raw = Inr def" for raw def s1
    using ci.upd_reload[OF that] calm_reply by (auto simp: apply_reload_def Let_def split: option.splits)
  with CmdReload ci.upd_signal[OF assms] show ?thesis
    by (auto simp: handle_reload_def Let_def split: option.splits sum.splits)
qed (use assms in \<open>auto simp: handle_start_def handle_restart_def Let_def calm_reply
    split: option.splits service_state.splits\<close>)

lemma calm_launch: "calm_inv env s \<Longrightarrow> launch_one env n s \<noteq> Crash s'"
  by (auto simp: launch_one_def launch_start_def dest: calm_spawn_eq
      split: option.splits prod.splits outcome.splits)

lemma calm_restarts:
  assumes "calm_inv env s" "map_of (ex_svc_by_name s) n \<noteq> None"
  shows "auto_restart env n s \<noteq> Crash s'" "manual_restart env n s \<noteq> Crash s'"
  using assms
  by (auto simp: auto_restart_def manual_restart_def Let_def emit_def dest: calm_spawn_eq
      split: option.splits prod.splits outcome.splits)

lemma calm_poll:
  assumes "calm_inv env s"
  shows "poll_one env t pid s \<noteq> Crash s'"
proof (cases "map_of (ex_pid_to_name s) pid")
  case (Some n)
  then have "map_of (ex_svc_by_name s) n \<noteq> None"
    using assms by (auto simp: calm_inv_def known_inv_def dest: map_of_SomeD)
  then have kn: "map_of (ex_svc_by_name (emit ev (untrack pid s))) n \<noteq> None" for ev
    by (simp add: emit_def untrack_def)
  have c: "calm_inv env (emit ev (untrack pid s))" if "ev = EvExitedLine n code \<or> ev = EvKilledLine n sig" for ev code sig
    using assms that by (auto intro: ci.upd_exited_line ci.upd_killed_line ci.upd_untrack)
  have "handle_exited env b n code (untrack pid s) \<noteq> Crash s'" for b code
    using kn c[THEN ci.upd_touch[of env _ n]] calm_restarts(1) calm_restarts(2)[OF c kn]
    by (auto simp: handle_exited_def Let_def)
  moreover have "handle_signaled env b n sig (untrack pid s) \<noteq> Crash s'" for b sig
    using kn c[THEN ci.upd_touch[of env _ n]] calm_restarts(1) calm_restarts(2)[OF c kn]
    by (auto simp: handle_signaled_def Let_def)
  ultimately show ?thesis using Some by (auto simp: poll_one_def split: wait_status.split)
qed (auto simp: poll_one_def split: wait_status.split)

lemma flow_inv_no_crash:
  "flow_inv I I (\<lambda>_. False) r \<longleftrightarrow> I (flow_state r) \<and> (\<forall>s. r \<noteq> Crash s)"
  by (cases r) auto

interpretation calm: loop_invariant env "calm_inv env" "calm_inv env" "\<lambda>_. False" True
  "\<lambda>_. True" "\<lambda>_ _. True" for env
proof (unfold_locales, goal_cases)
  case (4 s)
  then show ?case
    using ci.upd_launch[of env s] calm_launch[OF ci.upd_pop[of env s]] by (simp add: flow_inv_no_crash)
qed (simp_all add: flow_inv_no_crash ci.upd_command calm_command ci.upd_ready ci.upd_poll calm_poll
    ci.upd_emit ci.upd_untrack)

end
