(* ===== verification/Executor_Boot.thy ===== *)
theory Executor_Boot
  imports Executor_Safety
begin

text \<open>
  A boot: a run without control commands and without shutdown in which only services that were started are signalled
  ready. \<open>queue_inv\<close> relates the queue and the history to the graph: what has been queued, started
  or given up is exactly what the marks release, each once. \<open>boot_safe\<close> adds the book-keeping of
  the children, of failures and of the counter \<open>completed\<close>; \<open>boot_inv\<close> adds that no started service
  gets lost. They are kept by a round of the loop through the interface \<open>loop_invariant\<close>.
\<close>

section \<open>Queue and history\<close>

abbreviation seen :: "exec \<Rightarrow> string list" where
  "seen s \<equiv> started (ex_log s) @ blocked_out (ex_log s)"

definition released :: "service_def list \<Rightarrow> string set \<Rightarrow> string set" where
  "released services M = {v \<in> names_of services. deps_of services v \<subseteq> M}"

definition queue_inv :: "service_def list \<Rightarrow> service_graph \<Rightarrow> exec \<Rightarrow> bool" where
  "queue_inv services g0 s \<longleftrightarrow>
     built_from services g0 \<and>
     ex_graph s = fold (\<lambda>m g. snd (mark_ready g m)) (marks (ex_log s)) g0 \<and>
     distinct (marks (ex_log s)) \<and> distinct (ex_to_start s @ seen s) \<and>
     set (ex_to_start s @ seen s) = released services (set (marks (ex_log s)))"

lemma deps_of_names: "n \<in> deps_of services v \<Longrightarrow> v \<in> names_of services"
  by (auto simp: deps_of_def names_of_def)

lemma released_insert:
  "released services (insert n M) =
     released services M \<union> {v. n \<in> deps_of services v \<and> deps_of services v \<subseteq> insert n M}"
  by (auto simp: released_def dest: deps_of_names)

lemma queue_mark:
  assumes "queue_inv services g0 s" "n \<notin> set (marks (ex_log s))"
  shows "queue_inv services g0 (mark_and_queue n s)"
proof -
  let ?ms = "marks (ex_log s)"
  have g: "ex_graph s = fold (\<lambda>m g. snd (mark_ready g m)) ?ms g0"
    and b: "built_from services g0" and d: "distinct (?ms @ [n])"
    using assms by (simp_all add: queue_inv_def)
  let ?newly = "fst (mark_ready (ex_graph s) n)"
  have new: "set ?newly = {v. n \<in> deps_of services v \<and> deps_of services v \<subseteq> insert n (set ?ms)}"
    using built_release_iff[OF b d] by (auto simp: g)
  moreover have "set ?newly \<inter> released services (set ?ms) = {}"
    using assms(2) by (auto simp: new released_def)
  ultimately show ?thesis
    using assms gt.mark_distinct[of "ex_graph s" n]
    by (auto simp: queue_inv_def released_insert)
qed

lemma butlast_last_mem: "xs \<noteq> [] \<Longrightarrow> set xs = insert (last xs) (set (butlast xs))"
  by (induction xs) auto

lemma distinct_last: "distinct xs \<Longrightarrow> xs \<noteq> [] \<Longrightarrow> last xs \<notin> set (butlast xs)"
  by (induction xs) (auto split: if_splits)

lemma queue_pop:
  assumes "queue_inv services g0 s" "ex_to_start s \<noteq> []"
    "ev = EvStarting (last (ex_to_start s)) \<or> ev = EvBlocked (last (ex_to_start s))"
  shows "queue_inv services g0 (emit ev (pop_start s))"
  using assms butlast_last_mem[OF assms(2)] distinct_last[OF _ assms(2)]
  by (auto simp: queue_inv_def pop_start_def emit_def distinct_butlast dest: in_set_butlastD)

lemma queue_frame:
  assumes "queue_inv services g0 s" "ex_graph s' = ex_graph s" "ex_to_start s' = ex_to_start s"
    "marks (ex_log s') = marks (ex_log s)" "started (ex_log s') = started (ex_log s)"
    "blocked_out (ex_log s') = blocked_out (ex_log s)"
  shows "queue_inv services g0 s'"
  using assms by (simp add: queue_inv_def)

section \<open>Children, failures and the counter\<close>

fun failing :: "service_state \<Rightarrow> bool" where
  "failing Failed = True"
| "failing (Exited code) = (code \<noteq> 0)"
| "failing _ = False"

definition echild_free :: "event list \<Rightarrow> bool" where
  "echild_free log = list_all (\<lambda>ev. case ev of EvEchild _ \<Rightarrow> False | _ \<Rightarrow> True) log"

definition failures_block :: "service_graph \<Rightarrow> exec \<Rightarrow> bool" where
  "failures_block g0 s \<longleftrightarrow>
     (\<forall>m st. map_of (ex_states s) m = Some st \<longrightarrow> failing st \<longrightarrow>
        EvReadyPidfile m \<notin> set (ex_log s) \<longrightarrow> set (needs_dependents g0 m) \<subseteq> ex_blocked s)"

text \<open>The children that are not reaped yet, by the history, and whether every \<open>fork\<close> gave a pid that none of
  them had: a pid is free again only when its process was reaped.\<close>

fun reap_step :: "event \<Rightarrow> (pid \<times> string) list \<times> bool \<Rightarrow> (pid \<times> string) list \<times> bool" where
  "reap_step (EvSpawn n p c) (ps, ok) = ((p, n) # ps, ok \<and> p \<notin> fst ` set ps)"
| "reap_step (EvExitedLine n c) (ps, ok) = (filter (\<lambda>(p, m). m \<noteq> n) ps, ok)"
| "reap_step (EvKilledLine n sig) (ps, ok) = (filter (\<lambda>(p, m). m \<noteq> n) ps, ok)"
| "reap_step ev r = r"

definition unreaped :: "event list \<Rightarrow> (pid \<times> string) list" where
  "unreaped log = fst (fold reap_step log ([], True))"

definition pids_fresh :: "event list \<Rightarrow> bool" where
  "pids_fresh log = snd (fold reap_step log ([], True))"

lemma unreaped_snoc [simp]:
  "unreaped (log @ [EvSpawn n p c]) = (p, n) # unreaped log"
  "pids_fresh (log @ [EvSpawn n p c]) \<longleftrightarrow> pids_fresh log \<and> p \<notin> fst ` set (unreaped log)"
  "unreaped (log @ [EvExitedLine n code]) = filter (\<lambda>(p, m). m \<noteq> n) (unreaped log)"
  "pids_fresh (log @ [EvExitedLine n code]) = pids_fresh log"
  "unreaped (log @ [EvKilledLine n sig]) = filter (\<lambda>(p, m). m \<noteq> n) (unreaped log)"
  "pids_fresh (log @ [EvKilledLine n sig]) = pids_fresh log"
  by (cases "fold reap_step log ([], True)"; simp add: unreaped_def pids_fresh_def)+

text \<open>The histories that leave both alone.\<close>

fun neutral :: "event \<Rightarrow> bool" where
  "neutral (EvSpawn _ _ _) = False"
| "neutral (EvExitedLine _ _) = False"
| "neutral (EvKilledLine _ _) = False"
| "neutral _ = True"

lemma reap_neutral: "list_all neutral evs \<Longrightarrow> fold reap_step evs r = r"
proof (induction evs arbitrary: r)
  case (Cons ev evs)
  then show ?case by (cases ev; cases r) simp_all
qed simp

lemma unreaped_neutral [simp]:
  "list_all neutral evs \<Longrightarrow> unreaped (log @ evs) = unreaped log"
  "list_all neutral evs \<Longrightarrow> pids_fresh (log @ evs) = pids_fresh log"
  by (simp_all add: unreaped_def pids_fresh_def reap_neutral)

lemma neutral_quiet [simp]: "quiet ev \<Longrightarrow> neutral ev"
  by (cases ev) simp_all

lemma unreaped_Nil [simp]: "unreaped [] = []" "pids_fresh []"
  by (simp_all add: unreaped_def pids_fresh_def)

definition tracked_inv :: "exec \<Rightarrow> bool" where
  "tracked_inv s \<longleftrightarrow>
     snd ` set (ex_pid_to_name s) \<subseteq> set (started (ex_log s)) \<and>
     distinct (map snd (ex_pid_to_name s)) \<and> distinct (map fst (ex_pid_to_name s)) \<and>
     set (ex_pid_to_name s) \<subseteq> set (unreaped (ex_log s))"

definition reported_inv :: "exec \<Rightarrow> bool" where
  "reported_inv s \<longleftrightarrow>
     (\<forall>n \<in> snd ` set (ex_pid_to_name s). n \<in> ex_ready_reported s \<longrightarrow> EvReadyPidfile n \<in> set (ex_log s))"

definition count_inv :: "exec \<Rightarrow> bool" where
  "count_inv s \<longleftrightarrow> (echild_free (ex_log s) \<longrightarrow>
     ex_completed s + length (ex_pid_to_name s) \<le> length (seen s))"

definition account_inv :: "service_def list \<Rightarrow> service_graph \<Rightarrow> exec \<Rightarrow> bool" where
  "account_inv services g0 s \<longleftrightarrow>
     set (marks (ex_log s)) = ex_ready_reported s \<union> set (blocked_out (ex_log s)) \<and>
     ex_ready_reported s \<subseteq> set (started (ex_log s)) \<and>
     ex_blocked s \<inter> set (started (ex_log s)) = {} \<and>
     ex_pending_restart s = {} \<and>
     names_of services \<subseteq> dom (map_of (ex_svc_by_name s)) \<and>
     ex_total s = length services"

definition boot_safe :: "service_def list \<Rightarrow> service_graph \<Rightarrow> exec \<Rightarrow> bool" where
  "boot_safe services g0 s \<longleftrightarrow>
     queue_inv services g0 s \<and> account_inv services g0 s \<and> tracked_inv s \<and> reported_inv s \<and>
     count_inv s \<and> failures_block g0 s"

text \<open>No started service is lost: it is tracked until it is marked.\<close>

definition lost_within :: "string set \<Rightarrow> exec \<Rightarrow> bool" where
  "lost_within X s \<longleftrightarrow>
     (echild_free (ex_log s) \<and> pids_fresh (ex_log s) \<longrightarrow>
        set (started (ex_log s)) \<subseteq> ex_ready_reported s \<union> snd ` set (ex_pid_to_name s) \<union> X)"

abbreviation none_lost :: "exec \<Rightarrow> bool" where
  "none_lost \<equiv> lost_within {}"

definition boot_inv :: "service_def list \<Rightarrow> service_graph \<Rightarrow> exec \<Rightarrow> bool" where
  "boot_inv services g0 s \<longleftrightarrow> boot_safe services g0 s \<and> none_lost s"

text \<open>The names that may be signalled ready.\<close>

definition sig_started :: "string \<Rightarrow> exec \<Rightarrow> bool" where
  "sig_started n s = (n \<in> set (started (ex_log s)))"

lemma boot_invI:
  assumes "queue_inv services g0 s" "account_inv services g0 s" "tracked_inv s" "reported_inv s"
    "count_inv s" "failures_block g0 s" "none_lost s"
  shows "boot_inv services g0 s"
  using assms by (simp add: boot_inv_def boot_safe_def)

lemma boot_invD:
  assumes "boot_inv services g0 s"
  shows "boot_safe services g0 s" "queue_inv services g0 s" "account_inv services g0 s"
    "tracked_inv s" "reported_inv s" "count_inv s" "failures_block g0 s" "none_lost s"
  using assms by (simp_all add: boot_inv_def boot_safe_def)

lemma echild_free_append [simp]: "echild_free (xs @ ys) = (echild_free xs \<and> echild_free ys)"
  by (simp add: echild_free_def)

lemma boot_marks:
  assumes "boot_safe services g0 s" "n \<in> set (started (ex_log s))"
  shows "n \<in> set (marks (ex_log s)) \<longleftrightarrow> n \<in> ex_ready_reported s"
  using assms by (auto simp: boot_safe_def account_inv_def queue_inv_def)

section \<open>Readiness signals, quiet events\<close>

lemma boot_report_ready:
  assumes "boot_inv services g0 s" "n \<in> set (started (ex_log s))"
  shows "boot_inv services g0 (report_ready n s)"
proof (cases "n \<in> ex_ready_reported s")
  case False
  let ?s = "set_state n Ready (emit (EvReadyPidfile n)
    (s\<lparr>ex_ready_reported := insert n (ex_ready_reported s)\<rparr>))"
  have r: "report_ready n s = mark_and_queue n ?s" using False by (simp add: report_ready_def)
  have fields: "ex_graph ?s = ex_graph s" "ex_to_start ?s = ex_to_start s"
    "ex_log ?s = ex_log s @ [EvReadyPidfile n]" "ex_blocked ?s = ex_blocked s"
    "ex_ready_reported ?s = insert n (ex_ready_reported s)" "ex_total ?s = ex_total s"
    "ex_pid_to_name ?s = ex_pid_to_name s" "ex_completed ?s = ex_completed s"
    "ex_pending_restart ?s = ex_pending_restart s" "ex_svc_by_name ?s = ex_svc_by_name s"
    "map_of (ex_states ?s) = (map_of (ex_states s))(n \<mapsto> Ready)"
    by (simp_all add: emit_def set_state_def update_conv')
  have b: "boot_safe services g0 s" using assms(1) by (simp add: boot_inv_def)
  have "queue_inv services g0 ?s"
    by (rule queue_frame[of services g0 s]) (use b in \<open>simp_all add: fields boot_safe_def\<close>)
  moreover have "n \<notin> set (marks (ex_log ?s))"
    using False boot_marks[OF b assms(2)] by (simp add: fields)
  ultimately have q: "queue_inv services g0 (report_ready n s)" unfolding r by (rule queue_mark)
  note d = boot_invD[OF assms(1)]
  show ?thesis
  proof (rule boot_invI[OF q])
    show "account_inv services g0 (report_ready n s)"
      using d(3) assms(2) unfolding account_inv_def r mark_fields fields by auto
    show "tracked_inv (report_ready n s)"
      using d(4) unfolding tracked_inv_def r mark_fields fields by simp
    show "reported_inv (report_ready n s)"
      using d(5) unfolding reported_inv_def r mark_fields fields by simp
    show "count_inv (report_ready n s)"
      using d(6) unfolding count_inv_def r mark_fields fields by simp
    show "failures_block g0 (report_ready n s)"
      using d(7) unfolding failures_block_def r mark_fields fields by simp
    show "none_lost (report_ready n s)"
      using d(8) unfolding lost_within_def r mark_fields fields by auto
  qed
qed (use assms in \<open>simp add: report_ready_def\<close>)

lemma boot_emit:
  assumes "boot_inv services g0 s" "quiet ev"
  shows "boot_inv services g0 (emit ev s)"
proof -
  note d = boot_invD[OF assms(1)]
  have fields: "ex_log (emit ev s) = ex_log s @ [ev]" "ex_graph (emit ev s) = ex_graph s"
    "ex_to_start (emit ev s) = ex_to_start s" "ex_blocked (emit ev s) = ex_blocked s"
    by (simp_all add: emit_def)
  show ?thesis
  proof (rule boot_invI)
    show "queue_inv services g0 (emit ev s)"
      using d(2) by (rule queue_frame) (simp_all add: fields assms(2))
    show "none_lost (emit ev s)" using d(8) assms(2) by (simp add: lost_within_def emit_def)
  qed (use d assms(2) in \<open>simp_all add: account_inv_def tracked_inv_def reported_inv_def
      count_inv_def failures_block_def emit_def\<close>)
qed

lemma delete_pids:
  "distinct (map snd ps) \<Longrightarrow> distinct (map snd (AList.delete p ps))"
  "distinct (map fst ps) \<Longrightarrow> distinct (map fst (AList.delete p ps))"
  "length (AList.delete p ps) \<le> length ps"
  "p \<in> fst ` set ps \<Longrightarrow> length (AList.delete p ps) < length ps"
  by (auto simp: AList.delete_eq distinct_map_filter intro: length_filter_less)

lemma boot_untrack:
  assumes "boot_safe services g0 s"
  shows "boot_safe services g0 (untrack pid s)"
proof -
  have q: "queue_inv services g0 (untrack pid s)"
    by (rule queue_frame[of services g0 s]) (use assms in \<open>simp_all add: untrack_def boot_safe_def\<close>)
  have sub: "set (AList.delete pid (ex_pid_to_name s)) \<subseteq> set (ex_pid_to_name s)"
    by (rule set_delete_subset)
  have "tracked_inv (untrack pid s)"
    using assms order_trans[OF sub] order_trans[OF image_mono[OF sub, of snd]]
    by (simp add: boot_safe_def tracked_inv_def untrack_def delete_pids)
  moreover have "reported_inv (untrack pid s)"
    using assms sub by (auto simp: boot_safe_def reported_inv_def untrack_def)
  moreover have "count_inv (untrack pid s)"
    using assms delete_pids(3)[of pid "ex_pid_to_name s"]
    by (auto simp: boot_safe_def count_inv_def untrack_def)
  ultimately show ?thesis
    using assms q by (simp add: boot_safe_def account_inv_def failures_block_def untrack_def)
qed

section \<open>A service between two processes\<close>

text \<open>\<open>n\<close> has been started and has no process: just before its launch, or after its exit.\<close>

definition suspended :: "service_def list \<Rightarrow> service_graph \<Rightarrow> string \<Rightarrow> exec \<Rightarrow> bool" where
  "suspended services g0 n s \<longleftrightarrow>
     boot_safe services g0 s \<and> lost_within {n} s \<and> n \<in> set (started (ex_log s)) \<and>
     n \<notin> snd ` set (ex_pid_to_name s) \<and>
     (n \<in> ex_ready_reported s \<longrightarrow> EvReadyPidfile n \<in> set (ex_log s)) \<and>
     (echild_free (ex_log s) \<longrightarrow>
        ex_completed s + length (ex_pid_to_name s) + 1 \<le> length (seen s))"

lemma suspended_untrack:
  assumes "boot_inv services g0 s" "map_of (ex_pid_to_name s) pid = Some n"
  shows "suspended services g0 n (untrack pid s)"
proof -
  note d = boot_invD[OF assms(1)]
  let ?ps = "ex_pid_to_name s"
  have mem: "(pid, n) \<in> set ?ps" using assms(2) by (rule map_of_SomeD)
  have del: "set (AList.delete pid ?ps) = set ?ps - {(pid, n)}"
    using mem d(4) by (auto simp: AList.delete_eq tracked_inv_def dest: eq_key_imp_eq_value)
  have "inj_on snd (set ?ps)" using d(4) by (simp add: tracked_inv_def distinct_map)
  then have names: "snd ` set (AList.delete pid ?ps) = snd ` set ?ps - {n}"
    unfolding del using mem by (subst inj_on_image_set_diff) auto
  have len: "length (AList.delete pid ?ps) < length ?ps"
    using mem by (intro delete_pids(4)) force
  have "n \<in> set (started (ex_log s))" "n \<in> ex_ready_reported s \<longrightarrow> EvReadyPidfile n \<in> set (ex_log s)"
    using mem d(4,5) by (force simp: tracked_inv_def reported_inv_def)+
  moreover have "lost_within {n} (untrack pid s)"
    using d(8) names by (auto simp: lost_within_def untrack_def)
  ultimately show ?thesis
    using boot_untrack[OF d(1), of pid] names len d(6)
    by (auto simp: suspended_def untrack_def count_inv_def)
qed

lemma suspended_emit:
  assumes "suspended services g0 n s"
    "quiet ev \<or> (\<exists>m c. ev = EvRestarting m c) \<or> (\<exists>c. ev = EvExitedLine n c) \<or> (\<exists>sig. ev = EvKilledLine n sig)"
  shows "suspended services g0 n (emit ev s)"
proof -
  have h [simp]: "marks [ev] = []" "started [ev] = []" "blocked_out [ev] = []"
    and f [simp]: "pids_fresh (ex_log s @ [ev]) = pids_fresh (ex_log s)"
    using assms(2) by auto
  have s: "boot_safe services g0 s" "n \<notin> snd ` set (ex_pid_to_name s)" using assms(1) by (simp_all add: suspended_def)
  then have u: "set (ex_pid_to_name s) \<subseteq> set (unreaped (ex_log s @ [ev]))"
    using assms(2) by (force simp: boot_safe_def tracked_inv_def)
  have "queue_inv services g0 (emit ev s)"
    by (rule queue_frame[of services g0 s]) (use s in \<open>simp_all add: boot_safe_def emit_def\<close>)
  with s u have "boot_safe services g0 (emit ev s)"
    by (simp add: boot_safe_def account_inv_def tracked_inv_def reported_inv_def count_inv_def
        failures_block_def emit_def)
  moreover have "EvReadyPidfile m \<in> set (ex_log s) \<Longrightarrow> EvReadyPidfile m \<in> set (ex_log s @ [ev])" for m by simp
  ultimately show ?thesis using assms(1) by (simp add: suspended_def lost_within_def emit_def)
qed

lemma suspended_counts:
  assumes "suspended services g0 n s"
  shows "suspended services g0 n (s\<lparr>ex_restart_counts := rc\<rparr>)"
proof -
  have s: "boot_safe services g0 s" using assms(1) by (simp add: suspended_def)
  have "queue_inv services g0 (s\<lparr>ex_restart_counts := rc\<rparr>)"
    by (rule queue_frame[of services g0 s]) (use s in \<open>simp_all add: boot_safe_def\<close>)
  with s have "boot_safe services g0 (s\<lparr>ex_restart_counts := rc\<rparr>)"
    by (simp add: boot_safe_def account_inv_def tracked_inv_def reported_inv_def count_inv_def
        failures_block_def)
  then show ?thesis using assms by (simp add: suspended_def lost_within_def)
qed

lemma suspended_launch:
  assumes "boot_inv services g0 s" "ex_to_start s \<noteq> []" "last (ex_to_start s) \<notin> ex_blocked s"
  shows "suspended services g0 (last (ex_to_start s)) (emit (EvStarting (last (ex_to_start s))) (pop_start s))"
proof -
  note d = boot_invD[OF assms(1)]
  let ?n = "last (ex_to_start s)"
  let ?s = "emit (EvStarting ?n) (pop_start s)"
  have fields: "ex_log ?s = ex_log s @ [EvStarting ?n]" "ex_blocked ?s = ex_blocked s"
    "ex_ready_reported ?s = ex_ready_reported s" "ex_total ?s = ex_total s"
    "ex_pid_to_name ?s = ex_pid_to_name s" "ex_completed ?s = ex_completed s"
    "ex_pending_restart ?s = ex_pending_restart s" "ex_svc_by_name ?s = ex_svc_by_name s"
    "ex_states ?s = ex_states s"
    by (simp_all add: emit_def pop_start_def)
  have "set (ex_to_start s) \<inter> set (started (ex_log s)) = {}"
    using d(2) by (auto simp: queue_inv_def)
  then have n: "?n \<notin> set (started (ex_log s))" using last_in_set[OF assms(2)] by blast
  have "queue_inv services g0 ?s" using queue_pop[OF d(2) assms(2)] by simp
  moreover have "account_inv services g0 ?s"
    using d(3) assms(3) unfolding account_inv_def fields by auto
  moreover have "tracked_inv ?s" using d(4) unfolding tracked_inv_def fields by auto
  moreover have "reported_inv ?s" using d(5) unfolding reported_inv_def fields by auto
  moreover have "count_inv ?s" using d(6) unfolding count_inv_def fields by auto
  moreover have "failures_block g0 ?s" using d(7) unfolding failures_block_def fields by auto
  moreover have "lost_within {?n} ?s" using d(8) unfolding lost_within_def fields by auto
  moreover have "?n \<notin> snd ` set (ex_pid_to_name s)" "?n \<notin> ex_ready_reported s"
    using n d(3,4) by (auto simp: tracked_inv_def account_inv_def)
  moreover have "echild_free (ex_log ?s) \<longrightarrow>
      ex_completed ?s + length (ex_pid_to_name ?s) + 1 \<le> length (seen ?s)"
    using d(6) unfolding count_inv_def fields by simp
  ultimately show ?thesis by (simp add: suspended_def boot_safe_def fields)
qed

lemma spawn_Ok:
  "spawn env n def s = (Ok pid, s') \<Longrightarrow>
   \<exists>c. s' = s\<lparr>ex_spawns := ex_spawns s + 1, ex_log := ex_log s @ [EvSpawn n pid c]\<rparr>"
  by (auto simp: spawn_def Let_def emit_def split: outcome.splits prod.splits)

lemma update_names:
  "snd ` set (AList.update p n ps) \<subseteq> insert n (snd ` set ps)"
  "n \<notin> snd ` set ps \<Longrightarrow> distinct (map snd ps) \<Longrightarrow> distinct (map snd (AList.update p n ps))"
  "length (AList.update p n ps) \<le> length ps + 1"
  "p \<notin> fst ` set ps \<Longrightarrow> snd ` set (AList.update p n ps) = insert n (snd ` set ps)"
  by (induction ps) auto

lemma suspended_enter:
  assumes "suspended services g0 n s" "spawn env n def s = (Ok pid, s')"
  shows "boot_inv services g0 (enter_running n pid s')"
proof -
  obtain c where s': "s' = s\<lparr>ex_spawns := ex_spawns s + 1, ex_log := ex_log s @ [EvSpawn n pid c]\<rparr>"
    using spawn_Ok[OF assms(2)] by blast
  let ?s = "enter_running n pid s'" and ?ps = "ex_pid_to_name s"
  have fields: "ex_graph ?s = ex_graph s" "ex_to_start ?s = ex_to_start s"
    "ex_log ?s = ex_log s @ [EvSpawn n pid c]" "ex_blocked ?s = ex_blocked s"
    "ex_ready_reported ?s = ex_ready_reported s" "ex_total ?s = ex_total s"
    "ex_pid_to_name ?s = AList.update pid n ?ps" "ex_completed ?s = ex_completed s"
    "ex_pending_restart ?s = ex_pending_restart s" "ex_svc_by_name ?s = ex_svc_by_name s"
    "map_of (ex_states ?s) = (map_of (ex_states s))(n \<mapsto> Running pid)"
    by (simp_all add: s' enter_running_def Let_def set_state_def update_conv')
  have b: "boot_safe services g0 s" and n: "n \<in> set (started (ex_log s))" "n \<notin> snd ` set ?ps"
    and u: "lost_within {n} s" "n \<in> ex_ready_reported s \<longrightarrow> EvReadyPidfile n \<in> set (ex_log s)"
      "echild_free (ex_log s) \<longrightarrow> ex_completed s + length ?ps + 1 \<le> length (seen s)"
    using assms(1) by (auto simp: suspended_def)
  have tr: "tracked_inv s" and re: "reported_inv s" using b by (simp_all add: boot_safe_def)
  have "queue_inv services g0 ?s"
    by (rule queue_frame[of services g0 s]) (use b in \<open>simp_all add: boot_safe_def fields\<close>)
  moreover have "account_inv services g0 ?s"
    using b unfolding boot_safe_def account_inv_def fields by simp
  moreover have "tracked_inv ?s"
  proof -
    have "set (AList.update pid n ?ps) \<subseteq> set (unreaped (ex_log s @ [EvSpawn n pid c]))"
      using tr set_update_subset[of pid n ?ps] by (auto simp: tracked_inv_def)
    moreover have "snd ` set (AList.update pid n ?ps) \<subseteq> set (started (ex_log s @ [EvSpawn n pid c]))"
      using tr n update_names(1)[of pid n ?ps] by (auto simp: tracked_inv_def)
    ultimately show ?thesis
      using tr n unfolding tracked_inv_def fields by (simp add: distinct_update update_names(2))
  qed
  moreover have "reported_inv ?s"
    using re u(2) set_update_subset[of pid n ?ps] unfolding reported_inv_def fields by auto
  moreover have "count_inv ?s"
    using u(3) update_names(3)[of pid n ?ps] unfolding count_inv_def fields by auto
  moreover have "failures_block g0 ?s"
    using b unfolding boot_safe_def failures_block_def fields by simp
  moreover have "pid \<notin> fst ` set ?ps" if "pids_fresh (ex_log ?s)"
    using that tr by (auto simp: fields tracked_inv_def)
  then have "none_lost ?s"
    using u(1) update_names(4)[of pid ?ps n] unfolding lost_within_def fields by simp
  ultimately show ?thesis by (rule boot_invI)
qed

section \<open>Failures\<close>

lemma needs_mark_all [simp]:
  "needs_dependents (fold (\<lambda>m g. snd (mark_ready g m)) ms g) n = needs_dependents g n"
  by (induction ms arbitrary: g) (simp_all add: needs_dependents_def)

lemma queue_needs:
  "queue_inv services g0 s \<Longrightarrow> needs_dependents (ex_graph s) n = needs_dependents g0 n"
  by (simp add: queue_inv_def)

text \<open>What needs an unmarked service has not been started.\<close>

lemma needs_not_started:
  assumes "queue_inv services g0 s" "n \<in> names_of services" "n \<notin> set (marks (ex_log s))"
  shows "set (needs_dependents g0 n) \<inter> set (seen s) = {}"
proof -
  from assms(1) obtain ho where "is_hash_order ho" "build ho services = Ok g0"
    by (auto simp: queue_inv_def built_from_def)
  then have "graph_shape services g0" by (rule build_Ok_facts)
  then have "n \<in> deps_of services v" if "v \<in> set (needs_dependents g0 n)" for v
    using that assms(2)
    by (auto simp: graph_shape_def deps_of_def names_of_def all_dep_names_def need_names_def
        split: option.splits)
  moreover have "deps_of services v \<subseteq> set (marks (ex_log s))" if "v \<in> set (seen s)" for v
    using that assms(1) by (auto simp: queue_inv_def released_def)
  ultimately show ?thesis using assms(3) by blast
qed

lemma seen_names: "queue_inv services g0 s \<Longrightarrow> set (ex_to_start s @ seen s) \<subseteq> names_of services"
  by (auto simp: queue_inv_def released_def)

text \<open>The blocked set and the rest of the state after a terminal exit, before the release.\<close>

abbreviation blocks_after :: "service_graph \<Rightarrow> string \<Rightarrow> bool \<Rightarrow> exec \<Rightarrow> string set" where
  "blocks_after g0 n failed s \<equiv> (if failed \<and> n \<notin> ex_ready_reported s
     then ex_blocked s \<union> set (needs_dependents g0 n) else ex_blocked s)"

abbreviation settled :: "service_graph \<Rightarrow> string \<Rightarrow> bool \<Rightarrow> service_state \<Rightarrow> exec \<Rightarrow> exec" where
  "settled g0 n failed st s \<equiv> s\<lparr>ex_states := AList.update n st (ex_states s),
     ex_shared := sync_state n st (ex_shared s), ex_completed := ex_completed s + 1,
     ex_blocked := blocks_after g0 n failed s, ex_ready_reported := insert n (ex_ready_reported s)\<rparr>"

lemma settle_settled:
  assumes "queue_inv services g0 s"
  shows "settle n failed (set_state n st s) =
    (if n \<in> ex_ready_reported s then settled g0 n failed st s
     else mark_and_queue n (settled g0 n failed st s))"
  using queue_needs[OF assms, of n]
  by (auto simp: settle_def set_state_def bump_completed_def block_dependents_def insert_absorb)

lemma blocks_after_unstarted:
  assumes "boot_safe services g0 s" "n \<in> set (started (ex_log s))"
  shows "blocks_after g0 n failed s \<inter> set (started (ex_log s)) = {}"
proof -
  have q: "queue_inv services g0 s" and c: "account_inv services g0 s"
    using assms(1) by (simp_all add: boot_safe_def)
  have nm: "n \<in> names_of services" using seen_names[OF q] assms(2) by auto
  have "n \<notin> ex_ready_reported s \<Longrightarrow> n \<notin> set (marks (ex_log s))"
    using boot_marks[OF assms] by simp
  then show ?thesis
    using needs_not_started[OF q nm] c unfolding account_inv_def by auto
qed

lemma suspended_settle:
  assumes "suspended services g0 n s" "failing st \<Longrightarrow> failed"
  shows "boot_inv services g0 (settle n failed (set_state n st s))"
proof -
  have b: "boot_safe services g0 s" and n: "n \<in> set (started (ex_log s))"
    "n \<notin> snd ` set (ex_pid_to_name s)"
    and u: "lost_within {n} s" "n \<in> ex_ready_reported s \<longrightarrow> EvReadyPidfile n \<in> set (ex_log s)"
      "echild_free (ex_log s) \<longrightarrow> ex_completed s + length (ex_pid_to_name s) + 1 \<le> length (seen s)"
    using assms(1) by (auto simp: suspended_def)
  have q: "queue_inv services g0 s" and c: "account_inv services g0 s" "tracked_inv s"
    "reported_inv s" "failures_block g0 s"
    using b by (simp_all add: boot_safe_def)
  let ?s1 = "settled g0 n failed st s"
  note r = settle_settled[OF q, of n failed st] and dis = blocks_after_unstarted[OF b n(1), of failed]
  have q1: "queue_inv services g0 ?s1" by (rule queue_frame[OF q]) simp_all
  have fb: "failures_block g0 ?s1"
    using c(4) assms(2) u(2) unfolding failures_block_def by (auto simp: update_conv')
  have lw: "lost_within {} ?s1" using u(1) by (simp add: lost_within_def)
  have rest: "tracked_inv ?s1" "reported_inv ?s1" "count_inv ?s1"
    using c(2,3) u(3) n(2) by (auto simp: tracked_inv_def reported_inv_def count_inv_def)
  show ?thesis
  proof (cases "n \<in> ex_ready_reported s")
    case True
    have "account_inv services g0 ?s1"
      using c(1) dis True by (auto simp: account_inv_def)
    with True q1 rest fb lw show ?thesis unfolding r by (simp add: boot_invI)
  next
    case False
    have "account_inv services g0 (mark_and_queue n ?s1)"
      using c(1) dis n(1) by (auto simp: account_inv_def)
    moreover have "queue_inv services g0 (mark_and_queue n ?s1)"
      using queue_mark[OF q1] boot_marks[OF b n(1)] False by simp
    ultimately show ?thesis
      using False rest fb lw unfolding r
      by (simp add: boot_invI tracked_inv_def reported_inv_def count_inv_def failures_block_def
          lost_within_def echild_free_def)
  qed
qed

lemma boot_blocked:
  assumes "boot_inv services g0 s" "ex_to_start s \<noteq> []"
  shows "boot_inv services g0 (launch_blocked (last (ex_to_start s)) (pop_start s))"
proof -
  note d = boot_invD[OF assms(1)]
  let ?n = "last (ex_to_start s)"
  let ?s0 = "emit (EvBlocked ?n) (pop_start s)"
  let ?s1 = "?s0\<lparr>ex_completed := ex_completed s + 1, ex_states := AList.update ?n Failed (ex_states s),
    ex_shared := sync_state ?n Failed (ex_shared s),
    ex_blocked := ex_blocked s \<union> set (needs_dependents g0 ?n)\<rparr>"
  have r: "launch_blocked ?n (pop_start s) = mark_and_queue ?n ?s1"
    using queue_needs[OF d(2), of ?n]
    by (simp add: launch_blocked_def set_state_def bump_completed_def block_dependents_def
        emit_def pop_start_def mark_and_queue_def split_def)
  have q0: "queue_inv services g0 ?s0" using queue_pop[OF d(2) assms(2)] by simp
  have q1: "queue_inv services g0 ?s1" by (rule queue_frame[OF q0]) simp_all
  have ts: "?n \<in> set (ex_to_start s)" using assms(2) by simp
  have new: "?n \<notin> set (seen s)" "?n \<in> names_of services"
    using d(2) ts seen_names[OF d(2)] by (auto simp: queue_inv_def simp del: last_in_set)
  have un: "?n \<notin> set (marks (ex_log s))" using new(1) d(3) by (auto simp: account_inv_def)
  have dis: "(ex_blocked s \<union> set (needs_dependents g0 ?n)) \<inter> set (started (ex_log s)) = {}"
    using needs_not_started[OF d(2) new(2) un] d(3) by (auto simp: account_inv_def)
  show ?thesis unfolding r
  proof (rule boot_invI)
    show "queue_inv services g0 (mark_and_queue ?n ?s1)"
      using q1 by (rule queue_mark) (use un in \<open>simp add: emit_def pop_start_def\<close>)
    show "account_inv services g0 (mark_and_queue ?n ?s1)"
      using d(3) dis by (auto simp: account_inv_def emit_def pop_start_def)
    show "failures_block g0 (mark_and_queue ?n ?s1)"
      using d(7) by (auto simp: failures_block_def emit_def pop_start_def update_conv')
    show "none_lost (mark_and_queue ?n ?s1)"
      using d(8) by (simp add: lost_within_def emit_def pop_start_def)
    show "count_inv (mark_and_queue ?n ?s1)"
      using d(6) by (auto simp: count_inv_def emit_def pop_start_def)
  qed (use d in \<open>simp_all add: tracked_inv_def reported_inv_def emit_def pop_start_def\<close>)
qed

section \<open>Launching and polling\<close>

lemma boot_safe_spawns:
  assumes "boot_safe services g0 s"
  shows "boot_safe services g0 (s\<lparr>ex_spawns := k\<rparr>)"
proof -
  have "queue_inv services g0 (s\<lparr>ex_spawns := k\<rparr>)"
    by (rule queue_frame[of services g0 s]) (use assms in \<open>simp_all add: boot_safe_def\<close>)
  with assms show ?thesis
    by (simp add: boot_safe_def account_inv_def tracked_inv_def reported_inv_def count_inv_def
        failures_block_def)
qed

lemma spawn_not_Ok:
  "spawn env n def s = (r, s') \<Longrightarrow> (\<And>pid. r \<noteq> Ok pid) \<Longrightarrow> s' = s\<lparr>ex_spawns := ex_spawns s + 1\<rparr>"
  by (auto simp: spawn_def Let_def split: outcome.splits prod.splits)

text \<open>Starting a process for a suspended service ends the suspension or the run.\<close>

lemma suspended_spawn:
  assumes "suspended services g0 n s"
  shows "flow_inv (boot_inv services g0) (boot_safe services g0) (boot_safe services g0)
    (case spawn env n def s of
       (Ok pid, s') \<Rightarrow> Go (enter_running n pid s') | (Err e, s') \<Rightarrow> Fail e s' | (Panic, s') \<Rightarrow> Crash s')"
proof -
  obtain r s' where r: "spawn env n def s = (r, s')" by fastforce
  have "boot_safe services g0 s" using assms by (simp add: suspended_def)
  then show ?thesis
    using suspended_enter[OF assms] spawn_not_Ok[OF r] boot_safe_spawns r
    by (cases r) auto
qed

lemma suspended_known:
  assumes "suspended services g0 n s"
  obtains def where "map_of (ex_svc_by_name s) n = Some def"
proof -
  have "n \<in> names_of services"
    using assms seen_names[of services g0 s] by (auto simp: suspended_def boot_safe_def)
  moreover have "names_of services \<subseteq> dom (map_of (ex_svc_by_name s))"
    using assms by (simp add: suspended_def boot_safe_def account_inv_def)
  ultimately show thesis using that by blast
qed

lemma boot_launch:
  assumes "boot_inv services g0 s" "ex_to_start s \<noteq> []"
  shows "flow_inv (boot_inv services g0) (boot_safe services g0) (boot_safe services g0)
    (launch_one env (last (ex_to_start s)) (pop_start s))"
proof -
  let ?n = "last (ex_to_start s)"
  have f [simp]: "ex_blocked (pop_start s) = ex_blocked s" by (simp add: pop_start_def)
  show ?thesis
  proof (cases "?n \<in> ex_blocked s")
    case True
    then show ?thesis using boot_blocked[OF assms] by (simp add: launch_one_def)
  next
    case False
    note susp = suspended_launch[OF assms False]
    obtain def where "map_of (ex_svc_by_name (pop_start s)) ?n = Some def"
      using suspended_known[OF susp] by auto
    moreover have "suspended services g0 ?n (remove_stale def (emit (EvStarting ?n) (pop_start s)))"
      using susp by (auto simp: remove_stale_def intro: suspended_emit split: option.split)
    ultimately show ?thesis
      using suspended_spawn False by (simp add: launch_one_def launch_start_def)
  qed
qed

lemma suspended_auto:
  assumes "suspended services g0 n s"
  shows "flow_inv (boot_inv services g0) (boot_safe services g0) (boot_safe services g0) (auto_restart env n s)"
proof -
  let ?c = "restart_count n s + 1"
  let ?s = "emit (EvRestarting n ?c)
    (s\<lparr>ex_restart_counts := AList.update n ?c (ex_restart_counts s)\<rparr>)"
  have s: "suspended services g0 n ?s"
    using assms by (intro suspended_emit suspended_counts) auto
  then obtain def where "map_of (ex_svc_by_name ?s) n = Some def" by (rule suspended_known)
  then show ?thesis using suspended_spawn[OF s] by (simp add: auto_restart_def Let_def)
qed

lemma suspended_no_pending: "suspended services g0 n s \<Longrightarrow> m \<notin> ex_pending_restart s"
  by (simp add: suspended_def boot_safe_def account_inv_def)

lemmas suspended_steps = suspended_emit suspended_counts suspended_auto suspended_no_pending

lemma boot_exited:
  assumes "suspended services g0 n s"
  shows "flow_inv (boot_inv services g0) (boot_safe services g0) (boot_safe services g0) (handle_exited env b n code s)"
proof -
  let ?s = "emit (EvExitedLine n code) s"
  have s: "suspended services g0 n ?s" using assms by (simp add: suspended_emit)
  then show ?thesis
    by (auto simp: handle_exited_def Let_def suspended_steps intro!: suspended_settle)
qed

lemma boot_signaled:
  assumes "suspended services g0 n s"
  shows "flow_inv (boot_inv services g0) (boot_safe services g0) (boot_safe services g0) (handle_signaled env b n sig s)"
proof -
  let ?s = "emit (EvKilledLine n sig) s"
  have s: "suspended services g0 n ?s" using assms by (simp add: suspended_emit)
  then show ?thesis
    by (auto simp: handle_signaled_def Let_def suspended_steps intro!: suspended_settle)
qed

lemma boot_echild:
  assumes "boot_inv services g0 s"
  shows "boot_inv services g0 (bump_completed (untrack pid (emit (EvEchild pid) s)))"
proof -
  let ?s = "untrack pid (emit (EvEchild pid) s)"
  have b: "boot_safe services g0 ?s"
    using boot_emit[OF assms, of "EvEchild pid"] by (simp add: boot_inv_def boot_untrack)
  have e: "\<not> echild_free (ex_log ?s)" by (simp add: echild_free_def untrack_def emit_def)
  have "queue_inv services g0 (bump_completed ?s)"
    by (rule queue_frame[of services g0 ?s]) (use b in \<open>simp_all add: bump_completed_def boot_safe_def\<close>)
  with b e show ?thesis
    by (simp add: boot_inv_def boot_safe_def account_inv_def tracked_inv_def reported_inv_def
        count_inv_def failures_block_def lost_within_def bump_completed_def)
qed

lemma boot_poll:
  assumes "boot_inv services g0 s"
  shows "flow_inv (boot_inv services g0) (boot_safe services g0) (boot_safe services g0) (poll_one env t pid s)"
  using assms boot_echild[OF assms] boot_invD(1)[OF assms] suspended_untrack[OF assms]
  by (auto simp: poll_one_def boot_exited boot_signaled split: wait_status.split option.split)

interpretation boot: loop_invariant env "boot_inv services g0" "boot_safe services g0"
  "boot_safe services g0" False "\<lambda>_. False" sig_started for env services g0
proof (unfold_locales, goal_cases)
  case (3 m s n)
  then show ?case by (simp add: sig_started_def report_ready_def emit_def set_state_def)
qed (simp_all add: sig_started_def boot_report_ready boot_launch boot_poll boot_emit)

section \<open>The initial state\<close>

lemma dom_collect:
  "dom (map_of (fold (\<lambda>s. AList.update (sd_name s) s) services m)) =
     names_of services \<union> dom (map_of m)"
  by (induction services arbitrary: m) (auto simp: names_of_def update_conv')

lemma boot_init:
  assumes "built_from services g0"
  shows "boot_inv services g0 (init_exec env rd g0 services shared)" (is "boot_inv _ _ ?s")
proof -
  from assms obtain ho where b: "is_hash_order ho" "build ho services = Ok g0"
    by (auto simp: built_from_def)
  note f = build_Ok_facts[OF b]
  have i: "set (initially_ready g0) = {v \<in> names_of services. deps_of services v = {}}"
    "distinct (initially_ready g0)"
    using f by (auto simp: initially_ready_def set_zero_degree distinct_zero_degree)
  have pend: "map_of (ex_states ?s) m = Some st \<Longrightarrow> st = Pending" for m st
    by (auto simp: init_exec_def Let_def dest!: map_of_SomeD)
  have fields: "ex_log ?s = []" "ex_pid_to_name ?s = []" "ex_ready_reported ?s = {}"
    "ex_blocked ?s = {}" "ex_pending_restart ?s = {}" "ex_total ?s = length services"
    "ex_completed ?s = 0" "ex_to_start ?s = initially_ready g0" "ex_graph ?s = g0"
    "dom (map_of (ex_svc_by_name ?s)) = names_of services"
    using f(7) dom_collect[of services "[]"] by (simp_all add: init_exec_def Let_def)
  show ?thesis
  proof (rule boot_invI)
    show "queue_inv services g0 ?s" using assms i by (simp add: queue_inv_def fields released_def)
    show "failures_block g0 ?s" using pend by (fastforce simp: failures_block_def)
  qed (simp_all add: account_inv_def tracked_inv_def reported_inv_def count_inv_def
      lost_within_def fields)
qed

section \<open>How the loop ends\<close>

lemma launch_all_Go: "launch_all env s = Go s' \<Longrightarrow> ex_to_start s' = []"
proof (induction env s rule: launch_all.induct)
  case (1 env s)
  from "1.prems" "1.IH" show ?case
    by (subst (asm) launch_all.simps) (auto split: if_splits flow.splits)
qed

lemma handlers_not_Stop:
  "handle_command env t c s \<noteq> Stop s'" "launch_one env n s \<noteq> Stop s'" "poll_one env t pid s \<noteq> Stop s'"
proof -
  have r: "spawn_and_reply env n k s \<noteq> Stop s'" for n k s
    by (auto simp: spawn_and_reply_def split: option.splits prod.splits outcome.splits)
  have a: "auto_restart env n s \<noteq> Stop s'" "manual_restart env n s \<noteq> Stop s'" for n s
    by (auto simp: auto_restart_def manual_restart_def Let_def
        split: option.splits prod.splits outcome.splits)
  show "handle_command env t c s \<noteq> Stop s'"
    using r by (cases "(env, t, c, s)" rule: handle_command.cases)
      (auto simp: handle_start_def handle_restart_def handle_reload_def apply_reload_def Let_def
        split: option.splits service_state.splits sum.splits)
  show "launch_one env n s \<noteq> Stop s'"
    by (auto simp: launch_one_def launch_start_def split: option.splits prod.splits outcome.splits)
  show "poll_one env t pid s \<noteq> Stop s'"
    using a by (auto simp: poll_one_def handle_exited_def handle_signaled_def Let_def
        split: wait_status.splits option.splits)
qed

lemma loops_not_Stop:
  "drain_commands env t cs s \<noteq> Stop s'" "launch_all env s \<noteq> Stop s'" "poll_all env t pids s \<noteq> Stop s'"
proof -
  have at: "and_then r f \<noteq> Stop s'" if "r \<noteq> Stop s'" "\<And>s. f s \<noteq> Stop s'" for r f
    using that by (cases r) auto
  show "drain_commands env t cs s \<noteq> Stop s'"
    by (induction cs arbitrary: s) (simp_all add: at handlers_not_Stop(1))
  show "poll_all env t pids s \<noteq> Stop s'"
    by (induction pids arbitrary: s) (simp_all add: at handlers_not_Stop(3))
  show "launch_all env s \<noteq> Stop s'"
  proof (induction env s rule: launch_all.induct)
    case (1 env s)
    then show ?case
      using handlers_not_Stop(2)[of env "last (ex_to_start s)" "pop_start s" s']
      by (subst launch_all.simps) (auto split: flow.splits)
  qed
qed

lemma iteration_Stop:
  assumes "iteration env t s = Stop s'" "\<not> tk_shutdown t"
  shows "ex_to_start s' = []" "ex_completed s' \<ge> ex_total s' \<or> ex_pid_to_name s' = []"
proof -
  obtain s1 where s1: "drain_commands env t (tk_commands t) s = Go s1"
    using assms loops_not_Stop(1)[of env t "tk_commands t" s]
    by (cases "drain_commands env t (tk_commands t) s") (auto simp: iteration_def)
  obtain s2 where s2: "launch_all env (drain_ready (tk_ready t) s1) = Go s2"
    using assms s1 loops_not_Stop(2)[of env "drain_ready (tk_ready t) s1"]
    by (cases "launch_all env (drain_ready (tk_ready t) s1)") (auto simp: iteration_def)
  have "s' = s2 \<and> (ex_completed s2 \<ge> ex_total s2 \<or> ex_pid_to_name s2 = [])"
    using assms s1 s2 loops_not_Stop(3)
    by (auto simp: iteration_def Let_def split: if_splits)
  then show "ex_to_start s' = []" "ex_completed s' \<ge> ex_total s' \<or> ex_pid_to_name s' = []"
    using launch_all_Go[OF s2] by auto
qed

lemma released_closed:
  assumes "acyclic (dep_rel services)" "released services M \<subseteq> M"
  shows "names_of services \<subseteq> M"
proof -
  have "dep_rel services \<subseteq> names_of services \<times> names_of services"
    by (auto simp: dep_rel_def deps_of_def names_of_def)
  then have "finite (dep_rel services)" by (rule finite_subset) simp
  then have wf: "wf (dep_rel services)" using assms(1) by (rule finite_acyclic_wf)
  have "v \<in> names_of services \<longrightarrow> v \<in> M" for v
    using wf
  proof (induction v rule: wf_induct_rule)
    case (less v)
    have "deps_of services v \<subseteq> M"
      using less by (auto simp: dep_rel_def deps_of_def names_of_def)
    then show ?case using assms(2) by (auto simp: released_def)
  qed
  then show ?thesis by blast
qed

lemma boot_complete:
  assumes "boot_inv services g0 s" "ex_to_start s = []"
    "ex_completed s \<ge> ex_total s \<or> ex_pid_to_name s = []"
    "echild_free (ex_log s)" "pids_fresh (ex_log s)"
  shows "ex_pid_to_name s = []" "set (seen s) = names_of services" "distinct (seen s)"
    "set (marks (ex_log s)) = names_of services"
proof -
  note d = boot_invD[OF assms(1)]
  have q: "distinct (seen s)" "set (seen s) = released services (set (marks (ex_log s)))"
    using d(2) assms(2) by (auto simp: queue_inv_def)
  obtain ho where b: "is_hash_order ho" "build ho services = Ok g0"
    using d(2) by (auto simp: queue_inv_def built_from_def)
  have "length (seen s) = card (set (seen s))" using q(1) by (simp only: distinct_card)
  also have "\<dots> \<le> card (names_of services)"
    using q(2) by (intro card_mono) (auto simp: released_def)
  also have "\<dots> \<le> length services" by (rule card_names_of_le)
  finally have le: "length (seen s) \<le> length services" .
  have "ex_completed s + length (ex_pid_to_name s) \<le> length (seen s)"
    using d(6) assms(4) by (simp add: count_inv_def)
  moreover have "ex_total s = length services" using d(3) by (simp add: account_inv_def)
  ultimately have "ex_pid_to_name s = [] \<or> length (ex_pid_to_name s) = 0"
    using assms(3) le by linarith
  then show empty: "ex_pid_to_name s = []" by simp
  have sub: "set (seen s) \<subseteq> set (marks (ex_log s))"
    using d(3,8) empty assms(4,5) by (auto simp: account_inv_def lost_within_def)
  moreover have "set (marks (ex_log s)) \<subseteq> set (seen s)"
    using d(3) by (auto simp: account_inv_def)
  moreover have "names_of services \<subseteq> set (marks (ex_log s))"
    using build_Ok_facts(6)[OF b] sub q(2) by (intro released_closed) auto
  ultimately show "set (seen s) = names_of services" "set (marks (ex_log s)) = names_of services"
    using q(2) by (auto simp: released_def)
  show "distinct (seen s)" by (rule q(1))
qed

lemma finish_fields [simp]:
  "ex_to_start (finish m b s) = ex_to_start s" "ex_total (finish m b s) = ex_total s"
  "ex_completed (finish m b s) = ex_completed s" "ex_pid_to_name (finish m b s) = ex_pid_to_name s"
  by (simp_all add: finish_def Let_def emit_def split: option.split)

lemma boot_finished:
  assumes "ticks_ok False cmd_ok sig_ok env ts s0" "run_loop env m ts s0 = Finished s"
  shows "ex_to_start s = [] \<and> (ex_completed s \<ge> ex_total s \<or> ex_pid_to_name s = [])"
  using assms
proof (induction ts arbitrary: s0)
  case (Cons t ts)
  then have "\<not> tk_shutdown t" by (auto split: if_splits)
  with Cons iteration_Stop[of env t s0] show ?case
    by (auto split: flow.splits)
qed simp

end
