(* ===== verification/Boot_Spec.thy ===== *)
theory Boot_Spec
  imports Executor_Boot
begin

text \<open>
  The specification of a boot, and that the executor implements it. A scheduler knows four sets of
  services: those that were begun, those that were dropped, those that are done (they do not hold back
  their dependents any more) and those that must not be begun. It has no queue, no degrees, no
  processes and no counters. \<open>sched_of\<close> reads these sets off a state of the executor; every operation of
  a boot is then a sequence of scheduler steps, mostly none or one. The proof is one more
  interpretation of \<open>loop_invariant\<close>, from any state of a boot on.
\<close>

section \<open>The scheduler\<close>

record sched =
  sc_begun :: "string set"
  sc_dropped :: "string set"
  sc_done :: "string set"
  sc_blocked :: "string set"

definition sched_init :: sched where
  "sched_init = \<lparr>sc_begun = {}, sc_dropped = {}, sc_done = {}, sc_blocked = {}\<rparr>"

definition due :: "service_def list \<Rightarrow> sched \<Rightarrow> string \<Rightarrow> bool" where
  "due services a n \<longleftrightarrow>
     n \<in> names_of services \<and> n \<notin> sc_begun a \<union> sc_dropped a \<and> deps_of services n \<subseteq> sc_done a"

definition needers :: "service_def list \<Rightarrow> string \<Rightarrow> string set" where
  "needers services n = {v. n \<in> needs_of services v}"

inductive sched_step :: "service_def list \<Rightarrow> sched \<Rightarrow> sched \<Rightarrow> bool" for services where
  Begin: "due services a n \<Longrightarrow> n \<notin> sc_blocked a \<Longrightarrow>
    sched_step services a (a\<lparr>sc_begun := insert n (sc_begun a)\<rparr>)"
| Drop: "due services a n \<Longrightarrow> n \<in> sc_blocked a \<Longrightarrow>
    sched_step services a (a\<lparr>sc_dropped := insert n (sc_dropped a),
      sc_blocked := sc_blocked a \<union> needers services n, sc_done := insert n (sc_done a)\<rparr>)"
| Complete: "n \<in> sc_begun a - sc_done a \<Longrightarrow>
    sched_step services a (a\<lparr>sc_done := insert n (sc_done a)\<rparr>)"
| Break: "n \<in> sc_begun a - sc_done a \<Longrightarrow>
    sched_step services a (a\<lparr>sc_blocked := sc_blocked a \<union> needers services n,
      sc_done := insert n (sc_done a)\<rparr>)"

inductive_cases sched_stepE: "sched_step services a b"

abbreviation sched_steps :: "service_def list \<Rightarrow> sched \<Rightarrow> sched \<Rightarrow> bool" where
  "sched_steps services \<equiv> (sched_step services)\<^sup>*\<^sup>*"

text \<open>What the specification guarantees by itself.\<close>

definition sched_safe :: "service_def list \<Rightarrow> sched \<Rightarrow> bool" where
  "sched_safe services a \<longleftrightarrow>
     sc_begun a \<union> sc_dropped a \<subseteq> names_of services \<and> sc_begun a \<inter> sc_dropped a = {} \<and>
     sc_dropped a \<subseteq> sc_done a \<and> sc_done a \<subseteq> sc_begun a \<union> sc_dropped a \<and>
     (\<forall>n \<in> sc_begun a \<union> sc_dropped a. deps_of services n \<subseteq> sc_done a)"

lemma sched_step_safe: "sched_step services a b \<Longrightarrow> sched_safe services a \<Longrightarrow> sched_safe services b"
  by (erule sched_stepE) (auto simp: sched_safe_def due_def)

lemma sched_reach_safe: "sched_steps services sched_init a \<Longrightarrow> sched_safe services a"
proof (induction rule: rtranclp_induct)
  case base
  show ?case by (simp add: sched_safe_def sched_init_def)
qed (rule sched_step_safe)

lemma sched_step_mono:
  "sched_step services a b \<Longrightarrow>
     sc_begun a \<subseteq> sc_begun b \<and> sc_dropped a \<subseteq> sc_dropped b \<and> sc_done a \<subseteq> sc_done b \<and>
     sc_blocked a \<subseteq> sc_blocked b"
  by (erule sched_stepE) auto

section \<open>The abstraction\<close>

definition sched_of :: "exec \<Rightarrow> sched" where
  "sched_of s =
     \<lparr>sc_begun = set (started (ex_log s)), sc_dropped = set (blocked_out (ex_log s)),
      sc_done = set (marks (ex_log s)), sc_blocked = ex_blocked s\<rparr>"

lemma sched_of_emit [simp]: "quiet ev \<Longrightarrow> sched_of (emit ev s) = sched_of s"
  by (simp add: sched_of_def emit_def)

lemma sched_of_updates [simp]:
  "sched_of (set_state n st s) = sched_of s" "sched_of (untrack pid s) = sched_of s"
  "sched_of (bump_completed s) = sched_of s" "sched_of (pop_start s) = sched_of s"
  "sched_of (enter_running n pid s) = sched_of s" "sched_of (remove_stale d s) = sched_of s"
  "sched_of (snd (spawn env n d s)) = sched_of s"
  "sched_of (s\<lparr>ex_ready_reported := A\<rparr>) = sched_of s"
  "sched_of (s\<lparr>ex_restart_counts := C\<rparr>) = sched_of s"
  "sched_of (s\<lparr>ex_pending_restart := A\<rparr>) = sched_of s"
  "sched_of (emit (EvRestarting n c) s) = sched_of s"
  "sched_of (emit (EvExitedLine n code) s) = sched_of s"
  "sched_of (emit (EvKilledLine n sig) s) = sched_of s"
  by (simp_all add: sched_of_def set_state_def untrack_def bump_completed_def pop_start_def
      enter_running_def remove_stale_def spawn_def emit_def Let_def split: option.split outcome.split)

lemma sched_of_mark [simp]:
  "sched_of (mark_and_queue n s) = (sched_of s)\<lparr>sc_done := insert n (sc_done (sched_of s))\<rparr>"
  by (simp add: sched_of_def mark_and_queue_def split: prod.split)

lemma sched_of_loud [simp]:
  "sched_of (emit (EvStarting n) s) = (sched_of s)\<lparr>sc_begun := insert n (sc_begun (sched_of s))\<rparr>"
  "sched_of (emit (EvBlocked n) s) = (sched_of s)\<lparr>sc_dropped := insert n (sc_dropped (sched_of s))\<rparr>"
  by (simp_all add: sched_of_def emit_def)

lemma needers_graph:
  assumes "queue_inv services g0 s"
  shows "set (needs_dependents (ex_graph s) n) = needers services n"
proof -
  obtain ho where "is_hash_order ho" "build ho services = Ok g0"
    using assms by (auto simp: queue_inv_def built_from_def)
  then have "graph_shape services g0" by (rule build_Ok_facts)
  then show ?thesis
    using queue_needs[OF assms, of n] by (auto simp: graph_shape_def needers_def needs_of_def)
qed

lemma sched_of_block:
  assumes "set (needs_dependents (ex_graph s) n) = needers services n"
  shows "sched_of (block_dependents n s) =
    (sched_of s)\<lparr>sc_blocked := sc_blocked (sched_of s) \<union> needers services n\<rparr>"
  using assms by (simp add: sched_of_def block_dependents_def)

section \<open>Simulation\<close>

lemma sim_report_ready:
  assumes "boot_inv services g0 s" "n \<in> set (started (ex_log s))"
  shows "sched_steps services (sched_of s) (sched_of (report_ready n s))"
proof (cases "n \<in> ex_ready_reported s")
  case False
  then have "n \<notin> set (marks (ex_log s))"
    using assms boot_marks[of services g0 s n] by (simp add: boot_inv_def)
  then have "n \<in> sc_begun (sched_of s) - sc_done (sched_of s)" using assms(2) by (simp add: sched_of_def)
  from Complete[OF this] False show ?thesis by (simp add: report_ready_def r_into_rtranclp)
qed (simp add: report_ready_def)

lemma queue_due:
  assumes "queue_inv services g0 s" "ex_to_start s \<noteq> []"
  shows "due services (sched_of s) (last (ex_to_start s))"
proof -
  define n where "n = last (ex_to_start s)"
  have n: "n \<in> set (ex_to_start s)" using assms(2) by (simp add: n_def)
  then have "n \<notin> set (seen s)" "n \<in> released services (set (marks (ex_log s)))"
    using assms(1) by (auto simp: queue_inv_def)
  then show ?thesis by (auto simp: due_def sched_of_def released_def n_def[symmetric])
qed

lemma sim_blocked:
  assumes "queue_inv services g0 s" "ex_to_start s \<noteq> []" "last (ex_to_start s) \<in> ex_blocked s"
  shows "sched_step services (sched_of s) (sched_of (launch_blocked (last (ex_to_start s)) (pop_start s)))"
proof -
  let ?n = "last (ex_to_start s)"
  let ?s = "set_state ?n Failed (emit (EvBlocked ?n) (pop_start s))"
  have "ex_graph ?s = ex_graph s" by (simp add: set_state_def emit_def pop_start_def)
  then have b: "sched_of (block_dependents ?n ?s) =
      (sched_of ?s)\<lparr>sc_blocked := sc_blocked (sched_of ?s) \<union> needers services ?n\<rparr>"
    using needers_graph[OF assms(1), of ?n] by (intro sched_of_block) simp
  have "?n \<in> sc_blocked (sched_of s)" using assms(3) by (simp add: sched_of_def)
  from Drop[OF queue_due[OF assms(1,2)] this] show ?thesis by (simp add: launch_blocked_def b)
qed

lemma sim_launch:
  assumes "boot_inv services g0 s" "ex_to_start s \<noteq> []"
  shows "sched_steps services (sched_of s)
    (sched_of (flow_state (launch_one env (last (ex_to_start s)) (pop_start s))))"
proof -
  let ?n = "last (ex_to_start s)"
  have q: "queue_inv services g0 s" using boot_invD(2)[OF assms(1)] .
  show ?thesis
  proof (cases "?n \<in> ex_blocked s")
    case True
    moreover have "ex_blocked (pop_start s) = ex_blocked s" by (simp add: pop_start_def)
    ultimately show ?thesis using sim_blocked[OF q assms(2) True] by (simp add: launch_one_def r_into_rtranclp)
  next
    case False
    then have "?n \<notin> sc_blocked (sched_of s)" by (simp add: sched_of_def)
    note step = Begin[OF queue_due[OF q assms(2)] this]
    have "sched_of (flow_state (launch_start env ?n d (pop_start s))) =
        (sched_of s)\<lparr>sc_begun := insert ?n (sc_begun (sched_of s))\<rparr>" for d
    proof -
      let ?s = "remove_stale d (emit (EvStarting ?n) (pop_start s))"
      have "sched_of s' = sched_of ?s" if "spawn env ?n d ?s = (r, s')" for r s'
        using sched_of_updates(7)[of env ?n d ?s] that by simp
      then show ?thesis by (auto simp: launch_start_def split: prod.split outcome.split)
    qed
    moreover have "?n \<notin> ex_blocked (pop_start s)" using False by (simp add: pop_start_def)
    ultimately show ?thesis using step by (auto simp: launch_one_def split: option.split)
  qed
qed

lemma bump_graph: "ex_graph (bump_completed s) = ex_graph s"
  by (simp add: bump_completed_def)

lemma sim_settle:
  assumes "queue_inv services g0 s" "n \<in> set (started (ex_log s))"
    "n \<in> set (marks (ex_log s)) \<longleftrightarrow> n \<in> ex_ready_reported s"
  shows "sched_steps services (sched_of s) (sched_of (settle n failed s))"
proof (cases "n \<in> ex_ready_reported s")
  case False
  then have u: "n \<in> sc_begun (sched_of s) - sc_done (sched_of s)" using assms(2,3) by (simp add: sched_of_def)
  have b: "sched_of (block_dependents n (bump_completed s)) =
      (sched_of s)\<lparr>sc_blocked := sc_blocked (sched_of s) \<union> needers services n\<rparr>"
    using sched_of_block[of "bump_completed s" n services] needers_graph[OF assms(1), of n]
    by (simp add: bump_graph)
  have r: "ex_ready_reported (block_dependents n t) = ex_ready_reported t"
    "ex_ready_reported (bump_completed t) = ex_ready_reported t" for t
    by (simp_all add: block_dependents_def bump_completed_def)
  show ?thesis
    using Complete[OF u] Break[OF u] False b
    by (cases failed) (auto simp: settle_def Let_def r)
qed (simp add: settle_def bump_completed_def sched_of_def)

lemma sim_auto:
  "sched_of (flow_state (auto_restart env n s)) = sched_of s"
proof -
  let ?s = "emit (EvRestarting n (restart_count n s + 1))
    (s\<lparr>ex_restart_counts := AList.update n (restart_count n s + 1) (ex_restart_counts s)\<rparr>)"
  have "sched_of s' = sched_of s" if "spawn env n d ?s = (r, s')" for d r s'
  proof -
    have "sched_of s' = sched_of ?s" using sched_of_updates(7)[of env n d ?s] unfolding that by simp
    then show ?thesis by simp
  qed
  then show ?thesis by (auto simp: auto_restart_def Let_def split: option.split prod.split outcome.split)
qed

lemma sim_settled:
  assumes "suspended services g0 n s" "sched_of s = a"
  shows "sched_steps services a (sched_of (settle n failed (set_state n st s)))"
proof -
  let ?s = "set_state n st s"
  have b: "boot_safe services g0 s" and n: "n \<in> set (started (ex_log s))"
    using assms(1) by (auto simp: suspended_def)
  have f: "ex_log ?s = ex_log s" "ex_ready_reported ?s = ex_ready_reported s" by (simp_all add: set_state_def)
  have "queue_inv services g0 ?s"
    by (rule queue_frame[of services g0 s]) (use b in \<open>simp_all add: set_state_def boot_safe_def\<close>)
  then have "sched_steps services (sched_of ?s) (sched_of (settle n failed ?s))"
    using n boot_marks[OF b n] by (intro sim_settle) (simp_all add: f)
  then show ?thesis by (simp add: assms(2))
qed

lemma sim_exited:
  assumes "suspended services g0 n s"
  shows "sched_steps services (sched_of s) (sched_of (flow_state (handle_exited env b n code s)))"
proof -
  let ?s = "emit (EvExitedLine n code) s"
  have s: "suspended services g0 n ?s" using assms by (simp add: suspended_emit)
  then show ?thesis
    by (auto simp: handle_exited_def Let_def suspended_steps sim_auto intro!: sim_settled[of services g0])
qed

lemma sim_signaled:
  assumes "suspended services g0 n s"
  shows "sched_steps services (sched_of s) (sched_of (flow_state (handle_signaled env b n sig s)))"
proof -
  let ?s = "emit (EvKilledLine n sig) s"
  have s: "suspended services g0 n ?s" using assms by (simp add: suspended_emit)
  then show ?thesis
    by (auto simp: handle_signaled_def Let_def suspended_steps sim_auto intro!: sim_settled[of services g0])
qed

lemma sim_poll:
  assumes "boot_inv services g0 s"
  shows "sched_steps services (sched_of s) (sched_of (flow_state (poll_one env t pid s)))"
proof -
  have "sched_steps services (sched_of s) (sched_of (flow_state (handle_exited env b n code (untrack pid s))))"
    "sched_steps services (sched_of s) (sched_of (flow_state (handle_signaled env b n sig (untrack pid s))))"
    if "map_of (ex_pid_to_name s) pid = Some n" for b n code sig
    using sim_exited[OF suspended_untrack[OF assms that]] sim_signaled[OF suspended_untrack[OF assms that]]
    by simp_all
  then show ?thesis by (auto simp: poll_one_def split: wait_status.split option.split)
qed

section \<open>Refinement\<close>

text \<open>The states of a boot whose abstraction the scheduler reaches from \<open>a0\<close>.\<close>

definition tracks :: "service_def list \<Rightarrow> sched \<Rightarrow> exec \<Rightarrow> bool" where
  "tracks services a0 s = sched_steps services a0 (sched_of s)"

lemma tracks_trans: "tracks services a0 s \<Longrightarrow> sched_steps services (sched_of s) (sched_of s') \<Longrightarrow> tracks services a0 s'"
  unfolding tracks_def by (rule rtranclp_trans)

lemma flow_inv_conj:
  "flow_inv I E C r \<Longrightarrow> J (flow_state r) \<Longrightarrow>
     flow_inv (\<lambda>s. I s \<and> J s) (\<lambda>s. E s \<and> J s) (\<lambda>s. C s \<and> J s) r"
  by (cases r) auto

interpretation refine: loop_invariant env
  "\<lambda>s. boot_inv services g0 s \<and> tracks services a0 s" "\<lambda>s. boot_safe services g0 s \<and> tracks services a0 s"
  "\<lambda>s. boot_safe services g0 s \<and> tracks services a0 s" False "\<lambda>_. False" sig_started
  for env services g0 a0
proof (unfold_locales, goal_cases)
  case (2 s n)
  then show ?case
    using tracks_trans sim_report_ready boot_report_ready by (auto simp: sig_started_def)
next
  case (3 m s n)
  then show ?case by (rule boot.keeps_sig_ok)
next
  case (4 s)
  then show ?case
    using boot_launch sim_launch tracks_trans by (intro flow_inv_conj) blast+
next
  case (5 s t pid)
  then show ?case
    using boot_poll sim_poll tracks_trans by (intro flow_inv_conj) blast+
next
  case (6 s ev)
  then show ?case by (auto simp: boot_emit tracks_def)
qed simp_all

lemma run_loop_append:
  "run_loop env m (ts @ us) s =
     (case run_loop env m ts s of StillRunning s' \<Rightarrow> run_loop env m us s' | r \<Rightarrow> r)"
  by (induction ts arbitrary: s) (auto split: flow.splits run_result.splits)

lemma ticks_ok_append:
  "ticks_ok st c sg env (ts @ us) s \<Longrightarrow>
     ticks_ok st c sg env ts s \<and>
     (\<forall>s'. run_loop env m ts s = StillRunning s' \<longrightarrow> ticks_ok st c sg env us s')"
  by (induction ts arbitrary: s) (auto split: flow.splits)

lemma refine_tracks:
  assumes "boot_inv services g0 s" "ticks_ok False (\<lambda>_. False) sig_started env ts s"
  shows "sched_steps services (sched_of s) (sched_of (result_state (run_loop env m ts s)))"
proof -
  have "boot_inv services g0 s \<and> tracks services (sched_of s) s" using assms(1) by (simp add: tracks_def)
  from refine.keeps_run[OF this assms(2), of m] show ?thesis
    by (cases "run_loop env m ts s") (auto simp: tracks_def)
qed

lemma boot_keeps:
  assumes "boot_inv services g0 s" "ticks_ok False (\<lambda>_. False) sig_started env ts s"
    "run_loop env m ts s = StillRunning s'"
  shows "boot_inv services g0 s'"
  using boot.keeps_run[OF assms(1,2), of m] assms(3) by simp

section \<open>Facts about whole boots\<close>

lemma boot_run:
  assumes "is_hash_order ho" "build ho services = Ok g"
    "ticks_ok False (\<lambda>_. False) sig_started env ts (init_exec env rd g services shared)"
  shows "boot_safe services g (result_state (run_with_marker env rd g services shared marker ts))"
    "run_with_marker env rd g services shared marker ts = Finished s \<Longrightarrow> boot_inv services g s"
proof -
  have "built_from services g" using assms(1,2) by (auto simp: built_from_def)
  note r = boot.keeps_run[OF boot_init[OF this] assms(3), of marker, folded run_with_marker_def]
  then show "boot_safe services g (result_state (run_with_marker env rd g services shared marker ts))"
    by (cases "run_with_marker env rd g services shared marker ts") (auto dest: boot_invD(1))
  show "run_with_marker env rd g services shared marker ts = Finished s \<Longrightarrow> boot_inv services g s"
    using r by simp
qed

lemma release_run:
  assumes "is_hash_order ho" "build ho services = Ok g"
  shows "release_inv services g (result_state (run_with_marker env rd g services shared marker ts))"
proof -
  have b: "built_from services g" using assms by (auto simp: built_from_def)
  have "\<forall>n \<in> set (initially_ready g). deps_of services n = {}"
    using build_Ok_facts[OF assms] by (auto simp: initially_ready_def set_zero_degree)
  then have "release_inv services g (init_exec env rd g services shared)"
    using b by (auto simp: release_inv_def init_exec_def Let_def start_ordered_def)
  then show ?thesis unfolding run_with_marker_def by (rule rel.upd_run)
qed

lemma boot_order:
  assumes "is_hash_order ho" "build ho services = Ok g"
    "ticks_ok False (\<lambda>_. False) sig_started env ts (init_exec env rd g services shared)"
    "ex_log (result_state (run_with_marker env rd g services shared marker ts)) =
       pre @ EvStarting n # post"
  shows "deps_of services n \<subseteq> set (marks pre) \<and>
    distinct (started (pre @ EvStarting n # post) @ blocked_out (pre @ EvStarting n # post))"
proof -
  let ?s = "result_state (run_with_marker env rd g services shared marker ts)"
  have q: "queue_inv services g ?s" using boot_run(1)[OF assms(1-3)] by (simp add: boot_safe_def)
  then have "distinct (marks pre)" unfolding queue_inv_def assms(4) by simp
  moreover have "start_ordered services (ex_log ?s)"
    using release_run[OF assms(1,2), of env rd shared marker ts] by (simp add: release_inv_def)
  ultimately have "deps_of services n \<subseteq> set (marks pre)"
    unfolding start_ordered_def assms(4) by blast
  moreover have "distinct (started (ex_log ?s) @ blocked_out (ex_log ?s))"
    using q by (simp add: queue_inv_def)
  ultimately show ?thesis unfolding assms(4) by simp
qed

end
