(* ===== verification/Executor_Shutdown.thy ===== *)
theory Executor_Shutdown
  imports Executor_Safety
begin

text \<open>
  The graceful shutdown of the executor. The waiting loops return because they sleep for 50 ms between
  two polls, with a bound on the readings of the clock; every
  tracked child gets exactly one SIGTERM, services in the order of the graph and second processes of
  a service after them.
\<close>

section \<open>What the loops rely on\<close>

definition is_pid_order :: "tick \<Rightarrow> bool" where
  "is_pid_order t \<longleftrightarrow> (\<forall>ps. mset (tk_order t ps) = mset ps)"

definition sigterms :: "event list \<Rightarrow> pid list" where
  "sigterms log = [p. EvKill p sig \<leftarrow> log, sig = SIGTERM]"

definition stops :: "event list \<Rightarrow> string list" where
  "stops log = [n. EvStopping n \<leftarrow> log]"

lemma sigterms_append [simp]:
  "sigterms (xs @ ys) = sigterms xs @ sigterms ys" "sigterms [] = []"
  "stops (xs @ ys) = stops xs @ stops ys" "stops [] = []"
  by (simp_all add: sigterms_def stops_def)

lemma sigterms_event [simp]:
  "sigterms [EvKill p SIGTERM] = [p]" "sigterms [EvKill p SIGKILL] = []"
  "sigterms [EvStopping n] = []" "sigterms [EvSigkillLine n] = []" "sigterms [EvStuckLine n] = []"
  "sigterms [EvStraggler n] = []"
  "stops [EvKill p sig] = []" "stops [EvStopping n] = [n]" "stops [EvSigkillLine n] = []"
  "stops [EvStuckLine n] = []" "stops [EvStraggler n] = []"
  by (simp_all add: sigterms_def stops_def)

lemma pid_order_set: "is_pid_order t \<Longrightarrow> set (tk_order t ps) = set ps"
  by (metis is_pid_order_def set_mset_mset)

section \<open>The waiting loops return\<close>

lemma await_exit_returns:
  "\<exists>gone j now'. await_exit alive delay deadline (i, now) = Some (gone, (j, now')) \<and>
     j \<le> i + (deadline - now + 49) div 50 + 1 \<and> now \<le> now' \<and> (\<not> gone \<longrightarrow> deadline \<le> now')"
proof (induction "deadline - now" arbitrary: i now rule: less_induct)
  case less
  let ?now = "now + delay i"
  show ?case
  proof (cases "alive i \<and> ?now < deadline")
    case False
    then show ?thesis by (subst await_exit.simps) (auto simp: read_clock_def)
  next
    case True
    then have "deadline - (?now + 50) < deadline - now" by linarith
    from less[OF this] obtain gone j now'
      where j: "await_exit alive delay deadline (Suc i, ?now + 50) = Some (gone, (j, now'))"
        "j \<le> Suc i + (deadline - (?now + 50) + 49) div 50 + 1" "?now + 50 \<le> now'" "\<not> gone \<longrightarrow> deadline \<le> now'"
      by blast
    have "await_exit alive delay deadline (i, now) = Some (gone, (j, now'))"
      using True j(1) by (subst await_exit.simps) (simp add: read_clock_def sleep_ms_def)
    moreover have "(deadline - (?now + 50) + 49) div 50 + 1 \<le> (deadline - now + 49) div 50"
      using poll_step[of now 50 "?now + 50" deadline] True by simp
    ultimately show ?thesis using j(2-4) by auto
  qed
qed

lemma wait_returns:
  "\<exists>gone j now'. wait_for_exit t pid ms (i, now) = Some (gone, (j, now')) \<and> j \<le> i + (ms + 49) div 50 + 2 \<and>
     now \<le> now' \<and> (\<not> gone \<longrightarrow> now + ms \<le> now')"
proof -
  let ?now = "now + tk_delay t i"
  from await_exit_returns[of "tk_alive t pid" "tk_delay t" "?now + ms" "Suc i" ?now] show ?thesis
    by (fastforce simp: wait_for_exit_def read_clock_def)
qed

lemma stop_service_returns:
  "\<exists>s' j now'. stop_service t name (s, (i, now)) = Some (s', (j, now')) \<and> j \<le> i + 124 \<and>
     (\<exists>evs. ex_log s' = ex_log s @ evs \<and> (\<forall>p. EvKill p SIGKILL \<in> set evs \<longrightarrow> now + 5000 \<le> now'))"
proof (cases "find_pid t name s")
  case (Some pid)
  obtain gone j now1 where j: "wait_for_exit t pid 5000 (i, now) = Some (gone, (j, now1))" "j \<le> i + 102"
    "\<not> gone \<longrightarrow> now + 5000 \<le> now1" using wait_returns[of t pid 5000 i now] by auto
  obtain gone' k now2 where k: "wait_for_exit t pid 1000 (j, now1) = Some (gone', (k, now2))" "k \<le> j + 22"
    "now1 \<le> now2" using wait_returns[of t pid 1000 j now1] by auto
  show ?thesis using Some j k
    by (cases gone; cases gone') (simp_all add: stop_service_def emit_def untrack_def)
qed (simp add: stop_service_def)

lemma stop_services_returns: "\<exists>s' c'. stop_services t names (s, c) = Some (s', c')"
proof (induction names arbitrary: s c)
  case (Cons name names)
  obtain s1 c1 where "stop_service t name (s, c) = Some (s1, c1)"
    using stop_service_returns[of t name s "fst c" "snd c"] by auto
  with Cons.IH[of s1 c1] show ?case by simp
qed simp

lemma stop_stragglers_returns: "\<exists>s' c'. stop_stragglers t ps (s, c) = Some (s', c')"
proof (induction ps arbitrary: s c)
  case (Cons p ps)
  obtain pid name where p: "p = (pid, name)" by fastforce
  obtain gone c1 where "wait_for_exit t pid 2000 c = Some (gone, c1)"
    using wait_returns[of t pid 2000 "fst c" "snd c"] by auto
  with Cons.IH show ?case by (simp add: p Let_def)
qed simp

section \<open>Who is signalled\<close>

lemma find_pid_cases:
  assumes "is_pid_order t"
  obtains (none) "find_pid t name s = None" "name \<notin> snd ` set (ex_pid_to_name s)"
    | (some) pid where "find_pid t name s = Some pid" "(pid, name) \<in> set (ex_pid_to_name s)"
proof (cases "find (\<lambda>(p, n). n = name) (tk_order t (ex_pid_to_name s))")
  case None
  then have "name \<notin> snd ` set (tk_order t (ex_pid_to_name s))" by (force simp: find_None_iff)
  with None show thesis by (intro none) (simp_all add: find_pid_def pid_order_set[OF assms])
next
  case (Some x)
  then have "x \<in> set (tk_order t (ex_pid_to_name s))" "snd x = name"
    by (auto simp: find_Some_iff) (metis nth_mem)
  with Some show thesis
    by (intro some[of "fst x"]) (auto simp: find_pid_def pid_order_set[OF assms])
qed

lemma stop_service_effect:
  assumes "stop_service t name (s, i) = Some (s', j)" "find_pid t name s = Some pid"
  shows "ex_pid_to_name s' = AList.delete pid (ex_pid_to_name s)" "ex_graph s' = ex_graph s"
    "\<exists>evs. ex_log s' = ex_log s @ evs \<and> sigterms evs = [pid] \<and> stops evs = [name]"
proof -
  show "ex_pid_to_name s' = AList.delete pid (ex_pid_to_name s)" "ex_graph s' = ex_graph s"
    using assms
    by (auto simp: stop_service_def Let_def untrack_def emit_def split: option.splits bool.splits)
  consider "s' = untrack pid (emit (EvKill pid SIGTERM) (emit (EvStopping name) s))"
    | "s' = untrack pid (emit (EvKill pid SIGKILL) (emit (EvSigkillLine name)
        (emit (EvKill pid SIGTERM) (emit (EvStopping name) s))))"
    | "s' = untrack pid (emit (EvStuckLine name) (emit (EvKill pid SIGKILL) (emit (EvSigkillLine name)
        (emit (EvKill pid SIGTERM) (emit (EvStopping name) s)))))"
    using assms by (auto simp: stop_service_def Let_def split: option.splits bool.splits)
  then show "\<exists>evs. ex_log s' = ex_log s @ evs \<and> sigterms evs = [pid] \<and> stops evs = [name]"
    by cases (auto simp: untrack_def emit_def sigterms_def stops_def)
qed

lemma delete_keys_mset:
  assumes "distinct (map fst ps)" "(p, n) \<in> set ps"
  shows "add_mset p (mset (map fst (AList.delete p ps))) = mset (map fst ps)"
proof -
  have "p \<in> set (map fst ps)" using assms(2) by force
  then have "add_mset p (mset (remove1 p (map fst ps))) = mset (map fst ps)" by simp
  then show ?thesis
    using assms(1) by (simp add: delete_keys distinct_remove1_removeAll)
qed

lemma delete_other_names:
  assumes "distinct (map fst ps)" "(p, n) \<in> set ps"
  shows "snd ` set ps - {n} \<subseteq> snd ` set (AList.delete p ps)"
  using assms by (force simp: AList.delete_eq dest: eq_key_imp_eq_value)

lemma stop_services_effect:
  assumes "is_pid_order t" "stop_services t names (s, i) = Some (s', j)"
    "distinct (map fst (ex_pid_to_name s))" "distinct names"
    "set names \<subseteq> snd ` set (ex_pid_to_name s)"
  shows "\<exists>evs. ex_log s' = ex_log s @ evs \<and> stops evs = names \<and>
    mset (sigterms evs) + mset (map fst (ex_pid_to_name s')) = mset (map fst (ex_pid_to_name s))"
  using assms(2-)
proof (induction names arbitrary: s i)
  case (Cons name names)
  let ?ps = "ex_pid_to_name s"
  obtain pid where f: "find_pid t name s = Some pid" "(pid, name) \<in> set ?ps"
    using Cons.prems(4) by (rule_tac find_pid_cases[OF assms(1), of name s]) auto
  obtain s1 k where s1: "stop_service t name (s, i) = Some (s1, k)"
    "stop_services t names (s1, k) = Some (s', j)"
    using Cons.prems(1) by (auto split: option.splits)
  note e = stop_service_effect[OF s1(1) f(1)]
  obtain ev1 where ev1: "ex_log s1 = ex_log s @ ev1" "sigterms ev1 = [pid]" "stops ev1 = [name]"
    using e(3) by blast
  have "set names \<subseteq> snd ` set ?ps - {name}" using Cons.prems(3,4) by auto
  also have "\<dots> \<subseteq> snd ` set (AList.delete pid ?ps)"
    by (rule delete_other_names[OF Cons.prems(2) f(2)])
  finally have "set names \<subseteq> snd ` set (ex_pid_to_name s1)" by (simp add: e(1))
  moreover have "distinct (map fst (ex_pid_to_name s1))"
    using Cons.prems(2) by (simp add: e(1) distinct_delete)
  ultimately obtain ev2 where "ex_log s' = ex_log s1 @ ev2" "stops ev2 = names"
    "mset (sigterms ev2) + mset (map fst (ex_pid_to_name s')) = mset (map fst (ex_pid_to_name s1))"
    using Cons.IH[OF s1(2)] Cons.prems(3) by auto
  then show ?case
    using ev1 delete_keys_mset[OF Cons.prems(2) f(2)]
    by (intro exI[of _ "ev1 @ ev2"]) (simp add: e(1))
qed simp

lemma stop_stragglers_effect:
  "stop_stragglers t ps (s, i) = Some (s', j) \<Longrightarrow>
   \<exists>evs. ex_log s' = ex_log s @ evs \<and> sigterms evs = map fst ps \<and> stops evs = [] \<and>
     ex_completed s' = ex_completed s"
proof (induction ps arbitrary: s i)
  case (Cons p ps)
  obtain pid name where p: "p = (pid, name)" by fastforce
  let ?s = "emit (EvKill pid SIGTERM) (emit (EvStraggler name) s)"
  from Cons.prems obtain gone k
    where "stop_stragglers t ps (if gone then ?s else emit (EvKill pid SIGKILL) ?s, k) = Some (s', j)"
    by (auto simp: p Let_def split: option.splits)
  from Cons.IH[OF this] obtain evs where
    "ex_log s' = ex_log (if gone then ?s else emit (EvKill pid SIGKILL) ?s) @ evs"
    "sigterms evs = map fst ps" "stops evs = []"
    "ex_completed s' = ex_completed (if gone then ?s else emit (EvKill pid SIGKILL) ?s)" by blast
  then show ?case
    by (intro exI[of _ "[EvStraggler name, EvKill pid SIGTERM] @
        (if gone then [] else [EvKill pid SIGKILL]) @ evs"])
      (auto simp: p emit_def sigterms_def stops_def)
qed simp

lemma shutdown_order_mset: "mset (shutdown_order g running) = mset running"
  by (simp add: shutdown_order_def shutdown_loop_mset)

lemma graceful_shutdown_effect:
  assumes "is_pid_order t" "distinct (map fst (ex_pid_to_name s))"
  obtains s' evs where "graceful_shutdown t s = Some s'" "ex_log s' = ex_log s @ evs"
    "mset (sigterms evs) = mset (map fst (ex_pid_to_name s))"
    "stops evs = shutdown_order (ex_graph s) (remdups (map snd (ex_pid_to_name s)))"
proof -
  let ?order = "shutdown_order (ex_graph s) (remdups (map snd (ex_pid_to_name s)))"
  have set_order: "set ?order = snd ` set (ex_pid_to_name s)"
    by (metis shutdown_order_mset set_mset_mset set_remdups set_map)
  have "distinct ?order"
    by (metis shutdown_order_mset mset_eq_imp_distinct_iff distinct_remdups)
  from stop_services_returns[of t ?order s "(0, 0)"] obtain s1 i
    where s1: "stop_services t ?order (s, (0, 0)) = Some (s1, i)" by blast
  obtain ev1 where ev1: "ex_log s1 = ex_log s @ ev1" "stops ev1 = ?order"
    "mset (sigterms ev1) + mset (map fst (ex_pid_to_name s1)) = mset (map fst (ex_pid_to_name s))"
    using stop_services_effect[OF assms(1) s1 assms(2) \<open>distinct ?order\<close>] set_order by blast
  let ?rest = "tk_order t (ex_pid_to_name s1)"
  from stop_stragglers_returns[of t ?rest s1 i] obtain s' j
    where s2: "stop_stragglers t ?rest (s1, i) = Some (s', j)" by blast
  from stop_stragglers_effect[OF this] obtain ev2 where ev2:
    "ex_log s' = ex_log s1 @ ev2" "sigterms ev2 = map fst ?rest" "stops ev2 = []" by blast
  have "mset (map fst ?rest) = mset (map fst (ex_pid_to_name s1))"
    using assms(1) by (simp add: is_pid_order_def)
  with ev1 ev2 s1 s2 show thesis
    by (intro that[of s' "ev1 @ ev2"]) (simp_all add: graceful_shutdown_def)
qed

section \<open>The pid table\<close>

definition pids_inv :: "exec \<Rightarrow> bool" where
  "pids_inv s \<longleftrightarrow> distinct (map fst (ex_pid_to_name s))"

interpretation pi: update_invariant env pids_inv for env
  by unfold_locales
    (simp_all add: pids_inv_def update_defs distinct_update distinct_delete split: prod.split)

end
