(* ===== verification/Executor_Samples.thy ===== *)
theory Executor_Samples
  imports Boot_Spec Executor_Shutdown Samples
begin

text \<open>
  Concrete environments and inputs for the executor: \<open>fork\<close> hands out the pids 100, 101, ...; a
  quiet round in which nothing happens, rounds in which every child exits, and a shutdown round.
\<close>

definition sample_env :: exec_env where
  "sample_env = \<lparr>users = (\<lambda>_. Inr None), fork_result = (\<lambda>n. Inr (100 + int n)),
     toml_parse = (\<lambda>_. Inl ''no parser''), service_dir = None\<rparr>"

definition quiet_tick :: tick where
  "quiet_tick = \<lparr>tk_shutdown = False, tk_commands = [], tk_ready = [], tk_late = None,
     tk_wait = (\<lambda>_. WStillAlive), tk_shutdown_at = (\<lambda>_. False), tk_order = (\<lambda>ps. ps),
     tk_alive = (\<lambda>_ _. False), tk_delay = (\<lambda>_. 0), tk_shutdown_end = False\<rparr>"

definition exit_tick :: "int \<Rightarrow> tick" where
  "exit_tick code = quiet_tick\<lparr>tk_wait := (\<lambda>_. WExited code)\<rparr>"

text \<open>Only the child \<open>p\<close> exits.\<close>

definition exit_one :: "pid \<Rightarrow> int \<Rightarrow> tick" where
  "exit_one p code = quiet_tick\<lparr>tk_wait := (\<lambda>q. if q = p then WExited code else WStillAlive)\<rparr>"

definition command_tick :: "ctl_command list \<Rightarrow> tick" where
  "command_tick cs = quiet_tick\<lparr>tk_commands := map (\<lambda>c. (c, Inl 2)) cs\<rparr>"

definition stop_tick :: tick where
  "stop_tick = quiet_tick\<lparr>tk_shutdown := True, tk_shutdown_end := True\<rparr>"

definition no_file :: "string \<Rightarrow> io_error + string" where
  "no_file n = Inl 2"

definition graph_of :: "service_def list \<Rightarrow> service_graph" where
  "graph_of services = (case build sample_order services of Ok g \<Rightarrow> g
     | _ \<Rightarrow> \<lparr>g_services = [], g_dependents = [], g_in_degree = [], g_needs_dependents = []\<rparr>)"

definition sample_init :: "service_def list \<Rightarrow> exec" where
  "sample_init services = init_exec sample_env no_file (graph_of services) services []"

definition sample_run :: "service_def list \<Rightarrow> tick list \<Rightarrow> run_result" where
  "sample_run services ts =
     run_with_marker sample_env no_file (graph_of services) services [] (Some ''/run/flint/ready'') ts"

lemma diamond_built: "build sample_order diamond = Ok (graph_of diamond)"
proof -
  have "case build sample_order diamond of Ok g \<Rightarrow> True | _ \<Rightarrow> False" by code_simp
  then show ?thesis by (auto simp: graph_of_def split: outcome.splits)
qed

lemma sample_pid_order [simp]: "is_pid_order stop_tick"
  by (simp add: is_pid_order_def stop_tick_def quiet_tick_def)

end
