(* ===== verification/Executor_Properties.thy ===== *)
theory Executor_Properties
  imports Executor_Samples
begin

text \<open>
  The properties of the executor: of every run (the order of starts, the restart bound, the status
  table, panics, shutdown), of a boot (completeness, propagation of failures), of the commands, and
  lemmas with concrete runs that show where the loop does not do what it means to.
\<close>

section \<open>Boot\<close>

text \<open>C5: start order. In a boot (no control commands, no shutdown, only started services signalled
  ready), whatever the children do, each start comes after the marks of all known dependencies of the
  service, and no service is started or given up twice.\<close>

theorem boot_starts_in_order:
  assumes "is_hash_order ho" "build ho services = Ok g"
    "ticks_ok False (\<lambda>_. False) sig_started env ts (init_exec env rd g services shared)"
    "ex_log (result_state (run_with_marker env rd g services shared marker ts)) =
       pre @ EvStarting n # post"
  shows "deps_of services n \<subseteq> set (marks pre) \<and>
    distinct (started (pre @ EvStarting n # post) @ blocked_out (pre @ EvStarting n # post))"
  using boot_order[OF assms] .

theorem boot_starts_in_order_witness:
  "deps_of diamond ''right'' \<subseteq> set (marks (take 4 (ex_log (result_state
     (sample_run diamond [exit_tick 0, exit_tick 1, exit_tick 0])))))"
proof -
  let ?ts = "[exit_tick 0, exit_tick 1, exit_tick 0]"
  have ok: "ticks_ok False (\<lambda>_. False) sig_started sample_env ?ts (sample_init diamond)" by code_simp
  have "drop 4 (ex_log (result_state (sample_run diamond ?ts))) =
      EvStarting ''right'' # drop 5 (ex_log (result_state (sample_run diamond ?ts)))"
    by code_simp
  then have "ex_log (result_state (sample_run diamond ?ts)) =
      take 4 (ex_log (result_state (sample_run diamond ?ts))) @
      EvStarting ''right'' # drop 5 (ex_log (result_state (sample_run diamond ?ts)))"
    by (metis append_take_drop_id)
  from boot_starts_in_order[OF sample_order_ok diamond_built ok[unfolded sample_init_def]
      this[unfolded sample_run_def]]
  show ?thesis unfolding sample_run_def by blast
qed

text \<open>C6: a boot forgets no service. Let the kernel keep two promises: \<open>waitpid\<close> never calls a child missing
  that was not reaped, and \<open>fork\<close> never gives the pid of a child that was not reaped (the pid of a reaped
  child may come again). Then, when the loop of a boot ends, no child is left running unobserved and every
  service was either started or given up because something it needs failed, exactly once.\<close>

theorem boot_covers_all_services:
  assumes "is_hash_order ho" "build ho services = Ok g"
    "ticks_ok False (\<lambda>_. False) sig_started env ts (init_exec env rd g services shared)"
    "run_with_marker env rd g services shared marker ts = Finished s"
    "echild_free (ex_log s)" "pids_fresh (ex_log s)"
  shows "ex_pid_to_name s = [] \<and>
    mset (started (ex_log s) @ blocked_out (ex_log s)) = mset (map sd_name services)"
proof -
  have i: "boot_inv services g s" using boot_run(2)[OF assms(1-3) assms(4)] .
  have e: "ex_to_start s = [] \<and> (ex_completed s \<ge> ex_total s \<or> ex_pid_to_name s = [])"
    using boot_finished[OF assms(3)] assms(4) by (simp add: run_with_marker_def)
  note c = boot_complete[OF i conjunct1[OF e] conjunct2[OF e] assms(5,6)]
  have "distinct (map sd_name services)" using build_Ok_facts(2)[OF assms(1,2)] .
  moreover have "set (map sd_name services) = set (seen s)" using c(2) by (simp add: names_of_def)
  ultimately have "mset (map sd_name services) = mset (seen s)"
    using c(3) by (metis set_eq_iff_mset_eq_distinct)
  then show ?thesis using c(1) by simp
qed

theorem boot_covers_all_services_witness:
  "case sample_run diamond [exit_tick 0, exit_tick 1, exit_tick 0] of
     Finished s \<Rightarrow> mset (started (ex_log s) @ blocked_out (ex_log s)) =
       {#''root'', ''left'', ''right'', ''leaf''#}
   | _ \<Rightarrow> False"
proof -
  let ?ts = "[exit_tick 0, exit_tick 1, exit_tick 0]"
  have ok: "ticks_ok False (\<lambda>_. False) sig_started sample_env ?ts (sample_init diamond)" by code_simp
  have "case sample_run diamond ?ts of
      Finished s \<Rightarrow> echild_free (ex_log s) \<and> pids_fresh (ex_log s) | _ \<Rightarrow> False"
    by code_simp
  then obtain s where s: "sample_run diamond ?ts = Finished s" "echild_free (ex_log s)"
    "pids_fresh (ex_log s)" by (auto split: run_result.splits)
  from boot_covers_all_services[OF sample_order_ok diamond_built ok[unfolded sample_init_def]
      s(1)[unfolded sample_run_def] s(2,3)] s(1)
  show ?thesis by (simp add: diamond_def ac_simps)
qed

text \<open>C7: failures propagate along \<open>needs\<close>. In a boot, a service that failed (its restarts are used
  up, its exit code is not 0, it was killed, or it was itself given up) without ever having been
  reported ready is never followed by the start of a service that needs it.\<close>

theorem boot_failed_needs_block:
  assumes "is_hash_order ho" "build ho services = Ok g"
    "ticks_ok False (\<lambda>_. False) sig_started env ts (init_exec env rd g services shared)"
    "s = result_state (run_with_marker env rd g services shared marker ts)"
    "map_of (ex_states s) m = Some st" "failing st" "EvReadyPidfile m \<notin> set (ex_log s)"
    "m \<in> needs_of services v"
  shows "v \<notin> set (started (ex_log s))"
proof -
  have b: "boot_safe services g s" using boot_run(1)[OF assms(1-3)] assms(4) by simp
  have "set (needs_dependents g m) \<subseteq> ex_blocked s"
    using b assms(5-7) by (auto simp: boot_safe_def failures_block_def)
  moreover have "v \<in> set (needs_dependents g m)"
    using build_Ok_facts(1)[OF assms(1,2)] assms(8) by (auto simp: graph_shape_def needs_of_def)
  ultimately show ?thesis using b by (auto simp: boot_safe_def account_inv_def)
qed

theorem boot_failed_needs_block_witness:
  "''leaf'' \<notin> set (started (ex_log (result_state
     (sample_run diamond [exit_tick 0, exit_tick 1, exit_tick 0]))))"
proof -
  let ?ts = "[exit_tick 0, exit_tick 1, exit_tick 0]"
  let ?s = "result_state (sample_run diamond ?ts)"
  have ok: "ticks_ok False (\<lambda>_. False) sig_started sample_env ?ts (sample_init diamond)" by code_simp
  have st: "map_of (ex_states ?s) ''right'' = Some (Exited 1)" by code_simp
  have "EvReadyPidfile ''right'' \<notin> set (ex_log ?s)" by code_simp
  moreover have "''right'' \<in> needs_of diamond ''leaf''" by (simp add: needs_of_def diamond_def)
  ultimately show ?thesis
    using boot_failed_needs_block[OF sample_order_ok diamond_built ok[unfolded sample_init_def]
        refl st[unfolded sample_run_def]] unfolding sample_run_def by simp
qed

text \<open>A service that was reported ready and fails later blocks nobody, and nothing that it had
  released is taken back.\<close>

lemma ready_failure_blocks_nobody:
  "n \<in> ex_ready_reported s \<Longrightarrow> ex_blocked (settle n failed s) = ex_blocked s \<and> ex_to_start (settle n failed s) = ex_to_start s"
  by (simp add: settle_def Let_def bump_completed_def)

section \<open>Every run\<close>

text \<open>C1: a boot implements the scheduler. From the state that any number of rounds of a boot have led
  to, the rest of the run is, seen through the abstraction, a sequence of scheduler steps, and that
  state is itself reached by such a sequence from nothing: the queue, the degrees, the processes and
  the restarts never let the executor begin, drop or release a service that the specification would
  not.\<close>

theorem boot_refines_scheduler:
  assumes "is_hash_order ho" "build ho services = Ok g"
    "ticks_ok False (\<lambda>_. False) sig_started env (ts @ us) (init_exec env rd g services shared)"
    "run_with_marker env rd g services shared marker ts = StillRunning s"
  shows "sched_steps services sched_init (sched_of s) \<and>
    sched_steps services (sched_of s)
      (sched_of (result_state (run_with_marker env rd g services shared marker (ts @ us))))"
proof -
  let ?i = "init_exec env rd g services shared"
  have b: "boot_inv services g ?i" using assms(1,2) by (intro boot_init) (auto simp: built_from_def)
  note r = assms(4)[unfolded run_with_marker_def]
  from ticks_ok_append[OF assms(3), of marker] r
  have t: "ticks_ok False (\<lambda>_. False) sig_started env ts ?i" "ticks_ok False (\<lambda>_. False) sig_started env us s"
    by auto
  have "sched_of ?i = sched_init" by (simp add: sched_of_def sched_init_def init_exec_def Let_def)
  with refine_tracks[OF b t(1), of marker] refine_tracks[OF boot_keeps[OF b t(1) r] t(2), of marker] r
  show ?thesis by (simp add: run_with_marker_def run_loop_append)
qed

theorem boot_refines_scheduler_witness:
  "case sample_run diamond [exit_tick 0] of
     StillRunning s \<Rightarrow>
       sched_steps diamond sched_init (sched_of s) \<and> sc_done (sched_of s) = {''root''} \<and>
       sched_steps diamond (sched_of s)
         (sched_of (result_state (sample_run diamond ([exit_tick 0] @ [exit_tick 1, exit_tick 0]))))
   | _ \<Rightarrow> False"
proof -
  have ok: "ticks_ok False (\<lambda>_. False) sig_started sample_env ([exit_tick 0] @ [exit_tick 1, exit_tick 0])
      (sample_init diamond)" by code_simp
  have "case sample_run diamond [exit_tick 0] of
      StillRunning s \<Rightarrow> sc_done (sched_of s) = {''root''} | _ \<Rightarrow> False" by code_simp
  then obtain s where s: "sample_run diamond [exit_tick 0] = StillRunning s" "sc_done (sched_of s) = {''root''}"
    by (auto split: run_result.splits)
  from boot_refines_scheduler[OF sample_order_ok diamond_built ok[unfolded sample_init_def]
      s(1)[unfolded sample_run_def]] s
  show ?thesis unfolding sample_run_def by simp
qed

text \<open>C15: whatever commands, signals and exits arrive, a service is started by the launch loop only
  after all its known dependencies were marked, as long as no service was marked twice before.\<close>

theorem starts_follow_marks:
  assumes "is_hash_order ho" "build ho services = Ok g"
    "ex_log (result_state (run_with_marker env rd g services shared marker ts)) =
       pre @ EvStarting n # post" "distinct (marks pre)"
  shows "deps_of services n \<subseteq> set (marks pre)"
  using release_run[OF assms(1,2), of env rd shared marker ts] assms(4)
  unfolding release_inv_def start_ordered_def assms(3) by blast

theorem starts_follow_marks_witness:
  "deps_of diamond ''left'' \<subseteq> set (marks (take 8 (ex_log (result_state (sample_run diamond
     [exit_tick 0, command_tick [CmdRestart ''right'' 1], exit_tick 0])))))"
proof -
  let ?ts = "[exit_tick 0, command_tick [CmdRestart ''right'' 1], exit_tick 0]"
  let ?log = "ex_log (result_state (sample_run diamond ?ts))"
  have "drop 8 ?log = EvStarting ''left'' # drop 9 ?log" by code_simp
  then have "?log = take 8 ?log @ EvStarting ''left'' # drop 9 ?log"
    by (metis append_take_drop_id)
  moreover have "distinct (marks (take 8 ?log))" by code_simp
  ultimately show ?thesis
    using starts_follow_marks[OF sample_order_ok diamond_built] unfolding sample_run_def by blast
qed

text \<open>C11: automatic restarts are bounded. In every run, the restart lines of a service are numbered
  1, 2, ... without gap or repetition and there are at most five of them.\<close>

theorem restart_bound:
  "\<exists>k. k \<le> MAX_RESTARTS \<and>
     restarts n (ex_log (result_state (run_with_marker env rd g services shared marker ts))) =
       [1..<k + 1]"
proof -
  have "restart_inv (init_exec env rd g services shared)"
    by (simp add: restart_inv_def init_exec_def Let_def restart_count_def)
  from ri.upd_run[OF this, of env marker ts] show ?thesis
    by (auto simp: restart_inv_def run_with_marker_def)
qed

text \<open>C17: the table that the control server reads shows, at every moment of every run that starts
  with an empty table, for exactly the services the executor has a state for, that state, under the
  service's own name.\<close>

theorem status_table_mirrors_states:
  "mirrors (ex_states (result_state (run_with_marker env rd g services [] marker ts)))
     (ex_shared (result_state (run_with_marker env rd g services [] marker ts)))"
  using si.upd_run[OF shown_init, of env marker ts] by (simp add: shown_inv_def run_with_marker_def)

text \<open>C16: when no definition without an argument list has a NUL byte in its command line, neither
  among the given services nor among what the parser returns, no run of the executor panics: every
  \<open>unwrap\<close> of the loop finds its value, whatever arrives.\<close>

theorem executor_no_panic:
  assumes "\<forall>d \<in> set services. nul_free d" "\<forall>raw d. toml_parse env raw = Inr d \<longrightarrow> nul_free d"
  shows "run_with_marker env rd g services shared marker ts \<noteq> RunPanic s"
proof -
  have "set (fold (\<lambda>s. AList.update (sd_name s) s) ss m) \<subseteq> set m \<union> (\<lambda>s. (sd_name s, s)) ` set ss" for ss m
  proof (induction ss arbitrary: m)
    case (Cons d ss)
    show ?case using Cons.IH[of "AList.update (sd_name d) d m"] set_update_subset[of "sd_name d" d m]
      by auto
  qed simp
  from this[of services "[]"] have "calm_inv env (init_exec env rd g services shared)"
    using assms by (auto simp: calm_inv_def known_inv_def init_exec_def Let_def)
  from calm.keeps_run[OF this ticks_ok_any, of marker ts] show ?thesis
    by (auto simp: run_with_marker_def)
qed

theorem executor_no_panic_witness:
  "\<forall>s. run_with_marker sample_env no_file (graph_of diamond) diamond [] None
     [exit_tick 0, command_tick [CmdReload ''left'' 7], exit_tick 3] \<noteq> RunPanic s"
proof -
  have "list_all nul_free diamond" by code_simp
  then have d: "\<forall>d \<in> set diamond. nul_free d" by (simp add: list_all_iff)
  have p: "\<forall>raw d. toml_parse sample_env raw = Inr d \<longrightarrow> nul_free d" by (simp add: sample_env_def)
  show ?thesis using executor_no_panic[OF d p] by blast
qed

section \<open>Shutdown\<close>

text \<open>C10: a shutdown ends, and reaches every child. When the flag is seen in a round of any run, the
  loop returns, whatever the children do and however the time passes; each tracked child gets exactly
  one SIGTERM, and the services are stopped in the shutdown order of the graph.\<close>

theorem shutdown_stops_every_child:
  assumes "run_with_marker env rd g services shared marker ts = StillRunning s"
    "tk_shutdown t" "is_pid_order t"
  shows "\<exists>s' evs. run_with_marker env rd g services shared marker (ts @ [t]) =
       Finished (finish marker (tk_shutdown_end t) s') \<and>
     ex_log s' = ex_log s @ evs \<and>
     mset (sigterms evs) = mset (map fst (ex_pid_to_name s)) \<and>
     stops evs = shutdown_order (ex_graph s) (remdups (map snd (ex_pid_to_name s)))"
proof -
  have "pids_inv (init_exec env rd g services shared)"
    by (simp add: pids_inv_def init_exec_def Let_def)
  from pi.upd_run[OF this, of env marker ts] assms(1) have "distinct (map fst (ex_pid_to_name s))"
    by (simp add: pids_inv_def run_with_marker_def)
  then obtain s' evs where e: "graceful_shutdown t s = Some s'" "ex_log s' = ex_log s @ evs"
    "mset (sigterms evs) = mset (map fst (ex_pid_to_name s))"
    "stops evs = shutdown_order (ex_graph s) (remdups (map snd (ex_pid_to_name s)))"
    using graceful_shutdown_effect[OF assms(3)] by blast
  then have "run_loop env marker [t] s = Finished (finish marker (tk_shutdown_end t) s')"
    using assms(2) by (simp add: iteration_def)
  with assms(1) e show ?thesis unfolding run_with_marker_def run_loop_append by auto
qed

theorem shutdown_stops_every_child_witness:
  "case sample_run diamond [exit_tick 0, quiet_tick] of
     StillRunning s \<Rightarrow>
       (\<exists>s' evs. sample_run diamond ([exit_tick 0, quiet_tick] @ [stop_tick]) =
          Finished (finish (Some ''/run/flint/ready'') True s') \<and>
        mset (sigterms evs) = {#101, 102#} \<and> stops evs = [''left'', ''right''])
   | _ \<Rightarrow> False"
proof -
  let ?ts = "[exit_tick 0, quiet_tick]"
  have "case sample_run diamond ?ts of
      StillRunning s \<Rightarrow> mset (map fst (ex_pid_to_name s)) = {#101, 102#} \<and>
        shutdown_order (ex_graph s) (remdups (map snd (ex_pid_to_name s))) = [''left'', ''right'']
    | _ \<Rightarrow> False" by code_simp
  then obtain s where s: "sample_run diamond ?ts = StillRunning s"
    "mset (map fst (ex_pid_to_name s)) = {#101, 102#}"
    "shutdown_order (ex_graph s) (remdups (map snd (ex_pid_to_name s))) = [''left'', ''right'']"
    by (auto split: run_result.splits)
  have t: "tk_shutdown stop_tick" "tk_shutdown_end stop_tick" by (simp_all add: stop_tick_def)
  from shutdown_stops_every_child[OF s(1)[unfolded sample_run_def] t(1) sample_pid_order] s t(2)
  show ?thesis unfolding sample_run_def by auto
qed

text \<open>C26: the waiting for one service during a shutdown is bounded, and patient: whatever the child does
  and however the time passes, it takes at most 124 readings of the clock, for 5 s after SIGTERM and
  1 s after SIGKILL in steps of 50 ms, even for a process that never dies; and a SIGKILL is sent only
  when 5 s have passed.\<close>

theorem shutdown_wait_bounded:
  "\<exists>s' j now'. stop_service t name (s, (i, now)) = Some (s', (j, now')) \<and> j \<le> i + 124 \<and>
     (\<exists>evs. ex_log s' = ex_log s @ evs \<and> (\<forall>p. EvKill p SIGKILL \<in> set evs \<longrightarrow> now + 5000 \<le> now'))"
  by (rule stop_service_returns)

text \<open>A child that never dies, on a machine where 5 s pass before each reading of the clock.\<close>

definition stubborn_tick :: tick where
  "stubborn_tick = stop_tick\<lparr>tk_alive := (\<lambda>_ _. True), tk_delay := (\<lambda>_. 5000)\<rparr>"

theorem shutdown_wait_bounded_witness:
  "\<exists>s' j now' evs. stop_service stubborn_tick ''root'' (enter_running ''root'' 100 (sample_init diamond), (3, 7)) =
       Some (s', (j, now')) \<and> j \<le> 3 + 124 \<and>
     ex_log s' = evs \<and> EvKill 100 SIGKILL \<in> set evs \<and> 5007 \<le> now'"
proof -
  let ?s = "enter_running ''root'' 100 (sample_init diamond)"
  have f: "find_pid stubborn_tick ''root'' ?s = Some 100" "ex_log ?s = []" by code_simp+
  have w: "wait_for_exit stubborn_tick p 5000 (i, now) = Some (False, (i + 2, now + 10000))"
    "wait_for_exit stubborn_tick p 1000 (i, now) = Some (False, (i + 2, now + 10000))" for p i now
    by (simp_all add: wait_for_exit_def read_clock_def stubborn_tick_def await_exit.simps[of _ _ _ "(Suc i, now + 5000)"])
  have "case stop_service stubborn_tick ''root'' (?s, (3, 7)) of
      Some (s', c) \<Rightarrow> EvKill 100 SIGKILL \<in> set (ex_log s') \<and> ex_log ?s = [] | None \<Rightarrow> False"
    using f by (simp add: stop_service_def w emit_def untrack_def)
  moreover obtain s' j now' evs where "stop_service stubborn_tick ''root'' (?s, (3, 7)) = Some (s', (j, now'))"
    "j \<le> 3 + 124" "ex_log s' = ex_log ?s @ evs" "\<forall>p. EvKill p SIGKILL \<in> set evs \<longrightarrow> 7 + 5000 \<le> now'"
    using shutdown_wait_bounded[of stubborn_tick "''root''" ?s 3 7] by blast
  ultimately show ?thesis by auto
qed

section \<open>Commands\<close>

fun cmd_service :: "ctl_command \<Rightarrow> string" where
  "cmd_service (CmdStart n _) = n"
| "cmd_service (CmdRestart n _) = n"
| "cmd_service (CmdReload n _) = n"

definition replies :: "event list \<Rightarrow> reply_id list" where
  "replies log = [r. EvReply r res \<leftarrow> log]"

text \<open>What a handler did with the reply channel: answered it, or kept it for the restart.\<close>

definition answered :: "reply_id \<Rightarrow> string \<Rightarrow> exec \<Rightarrow> exec \<Rightarrow> bool" where
  "answered r n s s' \<longleftrightarrow>
     (\<exists>evs. ex_log s' = ex_log s @ evs \<and> replies evs = [r]) \<or>
     (\<exists>evs. ex_log s' = ex_log s @ evs \<and> replies evs = [] \<and>
        map_of (ex_restart_replies s') n = Some r \<and> n \<in> ex_pending_restart s')"

lemma replies_simps [simp]:
  "replies [] = []" "replies (EvReply r res # evs) = r # replies evs"
  "replies (EvKill p sig # evs) = replies evs" "replies (EvSpawn n p c # evs) = replies evs"
  "replies (EvReplyDropped r # evs) = replies evs"
  by (simp_all add: replies_def)

lemma answered_later:
  "answered r n s' s'' \<Longrightarrow> ex_log s' = ex_log s @ evs \<Longrightarrow> replies evs = [] \<Longrightarrow> answered r n s s''"
  unfolding answered_def replies_def by (elim disjE exE conjE) (rule disjI1 disjI2, rule_tac x = "evs @ evsa" in exI, simp)+

lemma answered_now: "answered r n s (emit (EvReply r res) s)"
  unfolding answered_def by (rule disjI1) (auto simp: emit_def)

lemma answered_spawn: "spawn_and_reply env n r s = Go s' \<Longrightarrow> answered r n s s'"
  unfolding answered_def
  by (rule disjI1) (auto simp: spawn_and_reply_def spawn_def Let_def emit_def enter_running_def set_state_def
      split: option.splits prod.splits outcome.splits)

lemma answered_await: "answered r n s (await_restart n r s)"
  unfolding answered_def
  by (rule disjI2) (auto simp: await_restart_def Let_def emit_def update_conv' split: option.split)

lemma signal_log: "\<exists>evs. ex_log (signal_service t n sig s) = ex_log s @ evs \<and> replies evs = []"
  by (auto simp: signal_service_def emit_def split: option.split)

lemma answered_signal: "answered r n (signal_service t m sig s) s' \<Longrightarrow> answered r n s s'"
  using signal_log[of t m sig s] answered_later by blast

lemma answered_kill: "answered r n s (await_restart n r (emit (EvKill p sig) s))"
  by (rule answered_later[OF answered_await, where evs = "[EvKill p sig]"]) (simp_all add: emit_def)

lemma answered_reload:
  assumes "apply_reload env t n r raw def s = Go s'"
  shows "answered r n s s'"
proof -
  let ?s = "s\<lparr>ex_raw := AList.update n raw (ex_raw s),
    ex_svc_by_name := AList.update n def (ex_svc_by_name s)\<rparr>"
  have "answered r n ?s s'"
  proof (cases "find_pid t n ?s")
    case None
    with assms show ?thesis by (simp add: apply_reload_def answered_spawn)
  next
    case (Some pid)
    with assms show ?thesis by (auto simp: apply_reload_def answered_kill)
  qed
  then show ?thesis by (simp add: answered_def)
qed

text \<open>C18: no command is left without an answer: handling it sends exactly one reply on its channel,
  or keeps the channel as the one to answer when the restart that it waits for happens.\<close>

theorem command_answered:
  assumes "handle_command env t (c, file) s = Go s'"
  shows "answered (cmd_reply c) (cmd_service c) s s'"
proof (cases c)
  case (CmdStart n r)
  with assms show ?thesis
    by (auto simp: handle_start_def answered_now answered_spawn
        split: option.splits service_state.splits)
next
  case (CmdRestart n r)
  with assms show ?thesis
    by (auto simp: handle_restart_def Let_def answered_now answered_spawn
        intro!: answered_signal[OF answered_await] split: option.splits service_state.splits)
next
  case (CmdReload n r)
  with assms show ?thesis
    by (auto simp: handle_reload_def Let_def intro: answered_signal[OF answered_now]
        answered_signal[OF answered_reload] split: option.splits sum.splits if_splits)
qed

theorem command_answered_witness:
  "\<exists>s'. handle_command sample_env quiet_tick (CmdStart ''ghost'' 4, Inl 2) (sample_init diamond) = Go s' \<and>
     answered 4 ''ghost'' (sample_init diamond) s'"
proof -
  have "case handle_command sample_env quiet_tick (CmdStart ''ghost'' 4, Inl 2) (sample_init diamond) of
      Go s' \<Rightarrow> True | _ \<Rightarrow> False" by code_simp
  then obtain s' where s': "handle_command sample_env quiet_tick (CmdStart ''ghost'' 4, Inl 2)
      (sample_init diamond) = Go s'" by (auto split: flow.splits)
  from command_answered[OF this] s' show ?thesis by simp
qed

text \<open>A reload installs what the parser returns without validating it: when the file has
  changed and parses, the service runs the new definition from then on, whatever \<open>validate\<close> says of
  its readiness path, although the loader of the same directory refuses such a file.\<close>

lemma reload_skips_validation:
  assumes "service_dir env = Some dir" "trim new_raw \<noteq> trim (hm_get_or (ex_raw s) n [])"
    "toml_parse env new_raw = Inr def"
  shows "map_of (ex_svc_by_name (flow_state (handle_reload env t n r (Inr new_raw) s))) n = Some def"
proof -
  have sig: "ex_raw (signal_service t n SIGHUP s) = ex_raw s"
    by (simp add: signal_service_def emit_def split: option.split)
  have aw: "ex_svc_by_name (await_restart n r s1) = ex_svc_by_name s1" for s1
    by (simp add: await_restart_def Let_def split: option.split)
  have sp: "ex_svc_by_name (flow_state (spawn_and_reply env n r s1)) = ex_svc_by_name s1" for s1
  proof (cases "map_of (ex_svc_by_name s1) n")
    case (Some d)
    then show ?thesis
      by (auto simp: spawn_and_reply_def enter_running_def Let_def split: prod.split outcome.split)
        (metis snd_conv spawn_svc)+
  qed (simp add: spawn_and_reply_def)
  show ?thesis
    using assms by (simp add: handle_reload_def Let_def sig apply_reload_def aw sp update_conv'
        split: option.split)
qed

section \<open>Starting a process\<close>


text \<open>Turning a command line into C strings panics exactly when the definition has no argument
  list and its command line contains a NUL byte; with an argument list the same text is an error.\<close>

lemma exec_args_panics_iff:
  "build_exec_args def = Panic \<longleftrightarrow>
     svc_args (sd_service def) = None \<and> CHR 0x00 \<in> set (svc_exec (sd_service def))"
  by (auto simp: build_exec_args_panic_iff nul_free_def list_ex_iff is_nul_def)






section \<open>Where the loop does not do what it means to\<close>

text \<open>
  \<open>base\<close> fails, \<open>app\<close> needs it and is given up; \<open>late\<close> waits for \<open>app\<close> and \<open>slow\<close>.
\<close>

definition early_services :: "service_def list" where
  "early_services =
     [sample_service ''base'' [] [] None, sample_service ''app'' [] [''base''] None,
      sample_service ''slow'' [] [] None, sample_service ''late'' [''app'', ''slow''] [] None]"

definition early_run :: run_result where
  "early_run = sample_run early_services
     [exit_one 101 1, quiet_tick,
      (exit_one 102 0)\<lparr>tk_commands := [(CmdStart ''app'' 1, Inl 2)]\<rparr>, quiet_tick]"

text \<open>A service that was given up is marked once when the queue drops it and a second time when,
  after a manual start, it exits: the second mark is counted against another dependency. Here \<open>late\<close>
  is started although \<open>slow\<close>, on which it depends, was never marked.\<close>

lemma dependent_released_early:
  "''slow'' \<in> deps_of early_services ''late'' \<and>
   ''late'' \<in> set (started (ex_log (result_state early_run))) \<and>
   ''slow'' \<notin> set (marks (ex_log (result_state early_run)))"
proof (intro conjI)
  show "''slow'' \<in> deps_of early_services ''late''" by (simp add: deps_of_def early_services_def)
qed code_simp+

definition pair_services :: "service_def list" where
  "pair_services = [sample_service ''once'' [] [] None, sample_service ''daemon'' [] [] None]"

definition overcount_run :: run_result where
  "overcount_run = sample_run pair_services
     [exit_one 100 0, (exit_one 102 0)\<lparr>tk_commands := [(CmdStart ''once'' 1, Inl 2)]\<rparr>, quiet_tick]"

text \<open>\<open>completed\<close> counts exits, not services. A service that is started again by a command and
  exits again is counted twice, so the loop ends, and with it the boot process that then halts the
  machine, although another service is still running and no shutdown was requested.\<close>

lemma loop_ends_with_running_child:
  "case overcount_run of
     Finished s \<Rightarrow> ex_pid_to_name s = [(101, ''daemon'')] \<and> ex_completed s = 2 \<and>
       EvWriteFile ''/run/flint/ready'' \<in> set (ex_log s)
   | _ \<Rightarrow> False"
  by code_simp

definition twice_run :: run_result where
  "twice_run = sample_run diamond
     [(exit_one 101 0)\<lparr>tk_commands := [(CmdStart ''right'' 1, Inl 2)]\<rparr>, quiet_tick]"

text \<open>A start command for a service that still waits for its dependencies starts it at once, and
  the launch loop starts it a second time when they are ready: two processes of one service.\<close>

lemma started_twice:
  "case twice_run of
     StillRunning s \<Rightarrow>
       map fst (filter (\<lambda>(p, n). n = ''right'') (ex_pid_to_name s)) = [100, 102]
   | _ \<Rightarrow> False"
  by code_simp

text \<open>\<open>db\<close> is reported ready, fails for good while \<open>slow\<close> still runs, and \<open>app\<close>, which needs \<open>db\<close> and comes
  after \<open>slow\<close>, is started all the same.\<close>

definition ready_services :: "service_def list" where
  "ready_services =
     [sample_service ''db'' [] [] None, sample_service ''slow'' [] [] None,
      sample_service ''app'' [''slow''] [''db''] None]"

definition ready_run :: run_result where
  "ready_run = sample_run ready_services
     [quiet_tick\<lparr>tk_late := Some ''db''\<rparr>, exit_one 101 1, exit_one 100 0, quiet_tick]"

lemma failed_after_ready_does_not_block:
  "map_of (ex_states (result_state ready_run)) ''db'' = Some (Exited 1) \<and>
   ''db'' \<in> needs_of ready_services ''app'' \<and>
   ''app'' \<in> set (started (ex_log (result_state ready_run)))"
proof (intro conjI)
  show "''db'' \<in> needs_of ready_services ''app''" by (simp add: needs_of_def ready_services_def)
qed code_simp+

text \<open>A second restart command for the same service takes the place of the first, whose client
  is told that the executor is gone.\<close>

lemma second_restart_drops_first_reply:
  assumes "map_of (ex_states s) n = Some (Running p) \<or> map_of (ex_states s) n = Some Ready"
    "map_of (ex_restart_replies s) n = Some old"
  shows "\<exists>s'. handle_restart env t n new s = Go s' \<and> EvReplyDropped old \<in> set (ex_log s') \<and>
    map_of (ex_restart_replies s') n = Some new"
proof -
  have "ex_restart_replies (signal_service t n SIGTERM s) = ex_restart_replies s"
    by (simp add: signal_service_def emit_def split: option.split)
  with assms show ?thesis
    by (auto simp: handle_restart_def Let_def await_restart_def emit_def update_conv')
qed

text \<open>One service that cannot be spawned ends the whole loop: the error is returned while the
  services started before it keep running.\<close>

lemma launch_error_aborts_loop:
  assumes "n \<notin> ex_blocked s" "map_of (ex_svc_by_name s) n = Some def"
    "spawn_service env (ex_spawns s) def = Err e" "ex_to_start s = ns @ [n]"
  shows "\<exists>s'. launch_all env s = Fail e s' \<and> ex_pid_to_name s' = ex_pid_to_name s"
proof -
  let ?s = "remove_stale def (emit (EvStarting n) (pop_start s))"
  have [simp]: "ex_blocked (pop_start s) = ex_blocked s" "ex_pid_to_name ?s = ex_pid_to_name s"
    "ex_spawns ?s = ex_spawns s"
    by (simp_all add: pop_start_def remove_stale_def emit_def split: option.split)
  have "spawn env n def ?s = (Err e, ?s\<lparr>ex_spawns := ex_spawns s + 1\<rparr>)"
    using assms(3) by (simp add: spawn_def)
  then have "launch_one env n (pop_start s) = Fail e (?s\<lparr>ex_spawns := ex_spawns s + 1\<rparr>)"
    using assms(1,2) by (simp add: launch_one_def launch_start_def)
  with assms(4) show ?thesis by (subst launch_all.simps) simp
qed

end
