(* ===== verification/Cache_Coherence.thy ===== *)
theory Cache_Coherence
  imports Cache Samples
begin

text \<open>
  The cache against the directory. \<open>sound_entries\<close> is what the modification times promise: an entry
  with the time of its file holds what the file parses to. \<open>current\<close> says that the entries are
  those of the directory's files, once each, all parsed from their present content. Refreshing turns
  the first into the second.
\<close>

section \<open>Soundness and currency of entries\<close>

definition good_entry :: "toml_parser \<Rightarrow> 'b disk \<Rightarrow> (string \<times> int) list \<Rightarrow> manifest_entry \<Rightarrow> bool" where
  "good_entry toml dk files e \<longleftrightarrow>
     parse_toml toml dk (me_filename e) = Inr (me_def e) \<and>
     (\<forall>t. (me_filename e, t) \<in> set files \<longrightarrow> mtime_secs (me_filename e) t = Inr (me_mtime_secs e))"

definition sound_entries ::
  "toml_parser \<Rightarrow> 'b disk \<Rightarrow> (string \<times> int) list \<Rightarrow> manifest_entry list \<Rightarrow> bool" where
  "sound_entries toml dk files es \<longleftrightarrow>
     distinct (map me_filename es) \<and>
     (\<forall>e \<in> set es. \<forall>t. (me_filename e, t) \<in> set files \<longrightarrow>
        mtime_secs (me_filename e) t = Inr (me_mtime_secs e) \<longrightarrow>
        parse_toml toml dk (me_filename e) = Inr (me_def e))"

definition current ::
  "toml_parser \<Rightarrow> 'b disk \<Rightarrow> (string \<times> int) list \<Rightarrow> manifest_entry list \<Rightarrow> bool" where
  "current toml dk files es \<longleftrightarrow>
     distinct (map me_filename es) \<and> set (map me_filename es) = set (map fst files) \<and>
     (\<forall>e \<in> set es. good_entry toml dk files e)"

section \<open>Upserting\<close>

abbreviation entry :: "string \<Rightarrow> nat \<Rightarrow> service_def \<Rightarrow> manifest_entry" where
  "entry f secs def \<equiv> \<lparr>me_filename = f, me_mtime_secs = secs, me_def = def\<rparr>"

lemma upsert_names:
  "map me_filename (upsert f secs def es) =
     map me_filename es @ (if f \<in> me_filename ` set es then [] else [f])"
  by (induction es) auto

lemma upsert_set:
  "distinct (map me_filename es) \<Longrightarrow>
   set (upsert f secs def es) = insert (entry f secs def) {e \<in> set es. me_filename e \<noteq> f}"
proof (induction es)
  case (Cons e es)
  show ?case
  proof (cases "me_filename e = f")
    case True
    with Cons.prems show ?thesis by (cases e) (auto simp: image_iff)
  qed (use Cons in auto)
qed simp

lemma cached_mtime_Some:
  "cached_mtime f es = Some secs \<Longrightarrow> \<exists>e \<in> set es. me_filename e = f \<and> me_mtime_secs e = secs"
  by (auto simp: cached_mtime_def find_Some_iff intro: nth_mem)

lemma cached_mtime_mem:
  assumes "distinct (map me_filename es)" "e \<in> set es"
  shows "cached_mtime (me_filename e) es = Some (me_mtime_secs e)"
  using assms by (induction es) (auto simp: cached_mtime_def)

section \<open>Refreshing\<close>

lemma fresh_entry_good:
  assumes "sound_entries toml dk files es" "cached_mtime f es = Some secs" "(f, t) \<in> set files"
    "distinct (map fst files)" "mtime_secs f t = Inr secs" "e \<in> set es" "me_filename e = f"
  shows "good_entry toml dk files e"
proof -
  have dist: "distinct (map me_filename es)" using assms(1) by (simp add: sound_entries_def)
  have "me_mtime_secs e = secs"
    using cached_mtime_mem[OF dist assms(6)] assms(2,7) by simp
  with assms(5) have m: "mtime_secs (me_filename e) t = Inr (me_mtime_secs e)"
    by (simp add: assms(7))
  have mem: "(me_filename e, t) \<in> set files" using assms(3) by (simp add: assms(7))
  have "parse_toml toml dk (me_filename e) = Inr (me_def e)"
    using assms(1,6) m mem unfolding sound_entries_def by blast
  moreover have "t' = t" if "(me_filename e, t') \<in> set files" for t'
    using eq_key_imp_eq_value[OF assms(4) that mem] .
  ultimately show ?thesis using m unfolding good_entry_def by blast
qed

lemma upsert_sound:
  assumes "sound_entries toml dk files es" "(f, t) \<in> set files" "distinct (map fst files)"
    "mtime_secs f t = Inr secs" "parse_toml toml dk f = Inr def"
  shows "good_entry toml dk files (entry f secs def)" "sound_entries toml dk files (upsert f secs def es)"
proof -
  have dist: "distinct (map me_filename es)" using assms(1) by (simp add: sound_entries_def)
  have "t' = t" if "(f, t') \<in> set files" for t'
    using eq_key_imp_eq_value[OF assms(3) that assms(2)] .
  then show good: "good_entry toml dk files (entry f secs def)"
    using assms(4,5) by (auto simp: good_entry_def)
  show "sound_entries toml dk files (upsert f secs def es)"
    using assms(1) good by (auto simp: sound_entries_def upsert_set[OF dist] upsert_names good_entry_def)
qed

lemma refresh_good:
  assumes "refresh toml dk fs es ch = Inr (es', ch')" "set fs \<subseteq> set files"
    "distinct (map fst files)" "sound_entries toml dk files es"
  shows "sound_entries toml dk files es' \<and>
    set (map me_filename es') = set (map me_filename es) \<union> fst ` set fs \<and>
    (\<forall>e \<in> set es'. me_filename e \<in> fst ` set fs \<longrightarrow> good_entry toml dk files e) \<and>
    (\<forall>e \<in> set es'. me_filename e \<notin> fst ` set fs \<longrightarrow> e \<in> set es)"
  using assms(1,2,4)
proof (induction fs arbitrary: es ch)
  case (Cons ft fs)
  obtain f t where ft: "ft = (f, t)" by fastforce
  from Cons.prems(1) obtain secs where secs: "mtime_secs f t = Inr secs"
    by (auto simp: ft split: sum.splits)
  have mem: "(f, t) \<in> set files" using Cons.prems(2) by (simp add: ft)
  show ?case
  proof (cases "cached_mtime f es = Some secs")
    case True
    note good = fresh_entry_good[OF Cons.prems(3) True mem assms(3) secs]
    have "f \<in> me_filename ` set es" using cached_mtime_Some[OF True] by auto
    with Cons.IH[of es ch] Cons.prems True secs good show ?thesis by (auto simp: ft)
  next
    case False
    with Cons.prems(1) secs obtain def where def: "parse_toml toml dk f = Inr def"
      "refresh toml dk fs (upsert f secs def es) True = Inr (es', ch')"
      by (auto simp: ft split: sum.splits)
    let ?u = "upsert f secs def es"
    have dist: "distinct (map me_filename es)" using Cons.prems(3) by (simp add: sound_entries_def)
    note good = upsert_sound[OF Cons.prems(3) mem assms(3) secs def(1)]
    from Cons.IH[OF def(2) _ good(2)] Cons.prems(2)
    have ih: "sound_entries toml dk files es'"
      "set (map me_filename es') = set (map me_filename ?u) \<union> fst ` set fs"
      "\<And>e. e \<in> set es' \<Longrightarrow> me_filename e \<in> fst ` set fs \<Longrightarrow> good_entry toml dk files e"
      "\<And>e. e \<in> set es' \<Longrightarrow> me_filename e \<notin> fst ` set fs \<Longrightarrow> e \<in> set ?u"
      by auto
    have "good_entry toml dk files e" if "e \<in> set es'" "me_filename e = f" for e
      using ih(3)[OF that(1)] ih(4)[OF that(1)] that(2) good(1) upsert_set[OF dist, of f secs def]
      by (cases "f \<in> fst ` set fs") auto
    moreover have "e \<in> set es"
      if "e \<in> set es'" "me_filename e \<noteq> f" "me_filename e \<notin> fst ` set fs" for e
      using ih(4)[OF that(1,3)] that(2) upsert_set[OF dist, of f secs def] by auto
    moreover have "set (map me_filename ?u) = insert f (set (map me_filename es))"
      by (auto simp: upsert_names)
    ultimately show ?thesis using ih by (auto simp: ft)
  qed
qed simp

section \<open>Loading\<close>

lemma current_defs:
  assumes "current toml dk files es" "distinct (map fst files)"
  shows "mset (map (\<lambda>e. Inr (me_def e)) es) = mset (map (\<lambda>(f, t). parse_toml toml dk f) files)"
proof -
  have "map (\<lambda>e. Inr (me_def e)) es = map (parse_toml toml dk) (map me_filename es)"
    using assms(1) by (auto simp: current_def good_entry_def)
  moreover have "mset (map me_filename es) = mset (map fst files)"
    using assms by (intro set_eq_iff_mset_eq_distinct[THEN iffD1]) (auto simp: current_def)
  moreover have "map (\<lambda>(f, t). parse_toml toml dk f) files = map (parse_toml toml dk) (map fst files)"
    by (simp add: comp_def split_def)
  ultimately show ?thesis by (metis mset_map)
qed

lemma refresh_current:
  assumes "refresh toml dk files kept ch = Inr (es', ch')" "distinct (map fst files)"
    "sound_entries toml dk files es" "kept = filter (\<lambda>e. me_filename e \<in> set (map fst files)) es"
  shows "current toml dk files es'"
proof -
  have "sound_entries toml dk files kept"
    using assms(3,4) by (auto simp: sound_entries_def distinct_map_filter)
  from refresh_good[OF assms(1) _ assms(2) this] assms(4) show ?thesis
    by (auto simp: current_def sound_entries_def)
qed

lemma build_entries_good:
  assumes "build_entries toml dk fs acc = Inr es" "set fs \<subseteq> set files" "distinct (map fst files)"
    "\<forall>e \<in> set acc. good_entry toml dk files e" "distinct (map me_filename acc @ map fst fs)"
  shows "map me_filename es = map me_filename acc @ map fst fs \<and>
    (\<forall>e \<in> set es. good_entry toml dk files e)"
  using assms(1,2,4,5)
proof (induction fs arbitrary: acc)
  case (Cons ft fs)
  obtain f t where ft: "ft = (f, t)" by fastforce
  from Cons.prems(1) obtain secs def where s: "mtime_secs f t = Inr secs"
    "parse_toml toml dk f = Inr def" "build_entries toml dk fs (acc @ [entry f secs def]) = Inr es"
    by (auto simp: ft split: sum.splits)
  have "good_entry toml dk files (entry f secs def)"
    using s(1,2) Cons.prems(2) assms(3)
    by (auto simp: good_entry_def ft dest: eq_key_imp_eq_value)
  with Cons.IH[OF s(3)] Cons.prems show ?case by (auto simp: ft)
qed simp

lemma build_current:
  assumes "build_manifest toml dk files = Inr m" "distinct (map fst files)"
  shows "current toml dk files (mf_entries m) \<and> mf_version m = MANIFEST_VERSION"
  using assms build_entries_good[of toml dk files "[]" "mf_entries m" files]
  by (auto simp: build_manifest_def current_def simp del: set_map split: sum.splits)

lemma refresh_unchanged:
  "refresh toml dk fs es ch = Inr (es', False) \<Longrightarrow> \<not> ch \<and> es' = es"
proof (induction fs arbitrary: es ch)
  case (Cons ft fs)
  then show ?case by (cases ft) (auto split: sum.splits if_splits)
qed simp

lemma filter_same_length: "length (filter P xs) = length xs \<Longrightarrow> filter P xs = xs"
  by (metis filter_True length_filter_less nat_neq_iff)

lemma write_ok:
  assumes "codec_ok c" "write_and_return c wr m dk = (Inr defs, dk')" "mf_version m = MANIFEST_VERSION"
  shows "defs = map me_def (mf_entries m)" "read_manifest c dk' = Inr (Some m)"
    "dk_entries dk' = dk_entries dk"
  using assms
  by (auto simp: write_and_return_def write_manifest_def read_manifest_def codec_ok_def
      split: option.splits)

text \<open>What a successful load returns and leaves behind.\<close>

lemma load_current:
  assumes "codec_ok c" "scan_toml_files dk = Inr files" "distinct (map fst files)"
    "\<And>m. read_manifest c dk = Inr (Some m) \<Longrightarrow> sound_entries toml dk files (mf_entries m)"
    "load_services_cached c toml wr dk = (Inr defs, dk')"
  obtains m where "read_manifest c dk' = Inr (Some m)" "current toml dk files (mf_entries m)"
    "defs = map me_def (mf_entries m)" "dk_entries dk' = dk_entries dk"
proof (cases "read_manifest c dk")
  case (Inr mo)
  show thesis
  proof (cases mo)
    case None
    with Inr assms(2,5) obtain m where "build_manifest toml dk files = Inr m"
      "write_and_return c wr m dk = (Inr defs, dk')"
      by (auto simp: load_services_cached_def split: sum.splits)
    with build_current[OF _ assms(3)] write_ok[OF assms(1)] show thesis by (metis that)
  next
    case (Some m)
    have v: "mf_version m = MANIFEST_VERSION"
      using Inr Some by (auto simp: read_manifest_def split: file_state.splits option.splits if_splits)
    let ?kept = "filter (\<lambda>e. me_filename e \<in> set (map fst files)) (mf_entries m)"
    from Inr Some assms(2,5) obtain es ch where es:
      "refresh toml dk files ?kept (length ?kept \<noteq> length (mf_entries m)) = Inr (es, ch)"
      "(if ch then write_and_return c wr (m\<lparr>mf_entries := es\<rparr>) dk else (Inr (map me_def es), dk)) =
        (Inr defs, dk')"
      by (auto simp: load_services_cached_def update_cached_def Let_def split: sum.splits)
    have cur: "current toml dk files es"
      using refresh_current[OF es(1) assms(3) assms(4) refl] Inr Some by simp
    show thesis
    proof (cases ch)
      case True
      with es(2) have w: "write_and_return c wr (m\<lparr>mf_entries := es\<rparr>) dk = (Inr defs, dk')" by simp
      have v': "mf_version (m\<lparr>mf_entries := es\<rparr>) = MANIFEST_VERSION" using v by simp
      show thesis
        using write_ok[OF assms(1) w v'] cur by (intro that[of "m\<lparr>mf_entries := es\<rparr>"]) simp_all
    next
      case False
      with es(1) have "es = mf_entries m"
        using refresh_unchanged[of toml dk files ?kept _ es] filter_same_length by fastforce
      with False es(2) cur Inr Some show thesis by (intro that[of m]) simp_all
    qed
  qed
qed (use assms(2,5) in \<open>simp add: load_services_cached_def\<close>)

section \<open>Warm loads\<close>

lemma refresh_warm:
  assumes "\<And>f t. (f, t) \<in> set fs \<Longrightarrow> \<exists>secs. mtime_secs f t = Inr secs \<and> cached_mtime f es = Some secs"
  shows "refresh toml dk fs es ch = Inr (es, ch)"
  using assms
proof (induction fs)
  case (Cons ft fs)
  obtain f t where ft: "ft = (f, t)" by fastforce
  from Cons.prems[of f t] obtain secs where "mtime_secs f t = Inr secs" "cached_mtime f es = Some secs"
    by (auto simp: ft)
  with Cons show ?case by (simp add: ft)
qed simp

lemma load_warm:
  assumes "scan_toml_files dk = Inr files" "read_manifest c dk = Inr (Some m)"
    "current toml dk0 files (mf_entries m)"
  shows "load_services_cached c toml' wr dk = (Inr (map me_def (mf_entries m)), dk)"
proof -
  have kept: "filter (\<lambda>e. me_filename e \<in> set (map fst files)) (mf_entries m) = mf_entries m"
    using assms(3) by (auto simp: current_def filter_id_conv)
  have "\<exists>secs. mtime_secs f t = Inr secs \<and> cached_mtime f (mf_entries m) = Some secs"
    if ft: "(f, t) \<in> set files" for f t
  proof -
    have "f \<in> set (map fst files)" using ft by force
    then have "f \<in> set (map me_filename (mf_entries m))"
      using assms(3) unfolding current_def by blast
    then obtain e where e: "e \<in> set (mf_entries m)" "me_filename e = f" by auto
    with assms(3) ft cached_mtime_mem[of "mf_entries m" e] show ?thesis
      by (auto simp: current_def good_entry_def)
  qed
  then have "refresh toml' dk files (mf_entries m) False = Inr (mf_entries m, False)"
    by (rule refresh_warm)
  with assms(1,2) kept show ?thesis
    by (simp add: load_services_cached_def update_cached_def Let_def)
qed

section \<open>Files that do not parse\<close>

lemma cached_mtime_upsert: "g \<noteq> f \<Longrightarrow> cached_mtime f (upsert g secs def es) = cached_mtime f es"
  by (induction es) (auto simp: cached_mtime_def)

lemma cached_mtime_filter:
  "(\<And>e. me_filename e = f \<Longrightarrow> P e) \<Longrightarrow> cached_mtime f (filter P es) = cached_mtime f es"
  by (induction es) (auto simp: cached_mtime_def)

lemma refresh_stale_error:
  assumes "(f, t) \<in> set fs" "distinct (map fst fs)" "mtime_secs f t = Inr secs"
    "cached_mtime f es \<noteq> Some secs" "parse_toml toml dk f = Inl err"
  shows "\<exists>e. refresh toml dk fs es ch = Inl e"
  using assms(1,2,4)
proof (induction fs arbitrary: es ch)
  case (Cons gt fs)
  obtain g t' where gt: "gt = (g, t')" by fastforce
  show ?case
  proof (cases "gt = (f, t)")
    case True
    then show ?thesis using assms(3,5) Cons.prems(3) by simp
  next
    case False
    then have m: "(f, t) \<in> set fs" "g \<noteq> f" using Cons.prems(1,2) by (auto simp: gt image_iff)
    with Cons.IH[OF m(1)] Cons.prems show ?thesis
      by (auto simp: gt cached_mtime_upsert split: sum.split)
  qed
qed simp

section \<open>Watching\<close>

text \<open>What a directory holds under a name: nothing that the scan takes, or a file with its time and what it
  parses to.\<close>

definition file_view ::
  "toml_parser \<Rightarrow> 'b disk \<Rightarrow> string \<Rightarrow> (int \<times> (cache_error + service_def)) option" where
  "file_view toml dk g =
     (case scan_toml_files dk of
        Inl _ \<Rightarrow> None
      | Inr files \<Rightarrow> map_option (\<lambda>t. (t, parse_toml toml dk g)) (map_of files g))"

text \<open>The entries say of one name what the directory holds under it.\<close>

definition agrees :: "toml_parser \<Rightarrow> 'b disk \<Rightarrow> manifest_entry list \<Rightarrow> string \<Rightarrow> bool" where
  "agrees toml dk es g \<longleftrightarrow>
     (case file_view toml dk g of
        None \<Rightarrow> g \<notin> me_filename ` set es
      | Some (t, p) \<Rightarrow> \<exists>secs def. p = Inr def \<and> mtime_secs g t = Inr secs \<and> entry g secs def \<in> set es)"

definition distinct_files :: "'b disk \<Rightarrow> bool" where
  "distinct_files dk \<longleftrightarrow> (\<exists>files. scan_toml_files dk = Inr files \<and> distinct (map fst files))"

lemma agrees_current:
  assumes "scan_toml_files dk = Inr files" "distinct (map fst files)"
  shows "current toml dk files es \<longleftrightarrow> distinct (map me_filename es) \<and> (\<forall>g. agrees toml dk es g)"
proof -
  have view: "file_view toml dk g = (if g \<in> fst ` set files
      then Some (the (map_of files g), parse_toml toml dk g) else None)" for g
    using assms(1) by (auto simp: file_view_def map_of_eq_None_iff split: option.split)
  have time: "(g, t) \<in> set files \<longleftrightarrow> g \<in> fst ` set files \<and> t = the (map_of files g)" for g t
    using assms(2) by (metis map_of_eq_Some_iff option.sel weak_map_of_SomeI image_eqI fst_conv map_of_eq_None_iff option.exhaust_sel)
  show ?thesis
  proof (intro iffI conjI allI)
    assume c: "current toml dk files es"
    then show "distinct (map me_filename es)" by (simp add: current_def)
    show "agrees toml dk es g" for g
    proof (cases "g \<in> fst ` set files")
      case True
      then have "g \<in> me_filename ` set es" using c by (simp add: current_def)
      then obtain e where e: "e \<in> set es" "g = me_filename e" by blast
      with c have "good_entry toml dk files e" by (simp add: current_def)
      with True e show ?thesis by (cases e) (auto simp: agrees_def view good_entry_def time)
    qed (use c in \<open>simp add: agrees_def view current_def\<close>)
  next
    assume a: "distinct (map me_filename es) \<and> (\<forall>g. agrees toml dk es g)"
    then have ag: "agrees toml dk es g" for g by blast
    have names: "g \<in> me_filename ` set es \<longleftrightarrow> g \<in> fst ` set files" for g
      using ag[of g] by (force simp: agrees_def view split: if_splits)
    have "good_entry toml dk files e" if e: "e \<in> set es" for e
    proof -
      have mem: "me_filename e \<in> fst ` set files" using e names by blast
      then obtain secs def where g: "parse_toml toml dk (me_filename e) = Inr def"
        "mtime_secs (me_filename e) (the (map_of files (me_filename e))) = Inr secs"
        "entry (me_filename e) secs def \<in> set es" using ag[of "me_filename e"] by (auto simp: agrees_def view)
      have "e = entry (me_filename e) secs def"
        using a e g(3) by (metis (no_types, lifting) inj_onD distinct_map manifest_entry.select_convs(1))
      with g mem show ?thesis by (cases e) (auto simp: good_entry_def time)
    qed
    with a names show "current toml dk files es" by (auto simp: current_def)
  qed
qed

lemma entries_frame:
  assumes "dk_entries d = dk_entries d'"
  shows "scan_toml_files d = scan_toml_files d'" "parse_toml toml d = parse_toml toml d'"
    "file_view toml d = file_view toml d'" "distinct_files d = distinct_files d'"
proof -
  show 1: "scan_toml_files d = scan_toml_files d'" "parse_toml toml d = parse_toml toml d'"
    using assms by (simp_all add: fun_eq_iff scan_toml_files_def parse_toml_def read_file_def)
  show "file_view toml d = file_view toml d'" "distinct_files d = distinct_files d'"
    unfolding file_view_def distinct_files_def by (simp_all only: 1)
qed

text \<open>The \<open>.toml\<close> files that events name, and what the events must be like. An event may be handled long
  after what it reports: the directory it finds has then gone on. \<open>reports toml dk0 wm later\<close> asks that
  whatever differs from the directory \<open>dk0\<close> of the step before is named by this event or by one
  that is still to be handled, and that the last event of a file finds the file as it
  reports it: gone, or there, readable and with a time since 1970. Nothing is asked of the earlier
  events of a file. The manifest can be written, and the directory stays.\<close>

definition event_files :: "watch_moment list \<Rightarrow> string set" where
  "event_files wms = {f. \<exists>wm \<in> set wms. ev_name (wm_event wm) = Some f \<and> ends_with f ''.toml''}"

definition found_as_reported :: "toml_parser \<Rightarrow> 'b disk \<Rightarrow> watch_moment \<Rightarrow> string \<Rightarrow> bool" where
  "found_as_reported toml dk wm f \<longleftrightarrow>
     (if ev_delete (wm_event wm) then file_view toml dk f = None
      else \<exists>t def secs. wm_stat wm = Inr t \<and> file_view toml dk f = Some (t, Inr def) \<and> mtime_secs f t = Inr secs)"

definition reports :: "toml_parser \<Rightarrow> 'b disk \<Rightarrow> watch_moment \<Rightarrow> watch_moment list \<Rightarrow> bool" where
  "reports toml dk0 wm later \<longleftrightarrow>
     (let dk = dk0\<lparr>dk_entries := wm_entries wm\<rparr>
      in \<not> ev_self_gone (wm_event wm) \<and> distinct_files dk \<and>
         wr_write (wm_writes wm) = None \<and> wr_rename (wm_writes wm) = None \<and>
         (\<forall>g. file_view toml dk g \<noteq> file_view toml dk0 g \<longrightarrow> g \<in> event_files (wm # later)) \<and>
         (\<forall>f \<in> event_files [wm] - event_files later. found_as_reported toml dk wm f))"

fun reports_all :: "toml_parser \<Rightarrow> 'b disk \<Rightarrow> watch_moment list \<Rightarrow> bool" where
  "reports_all toml dk [] \<longleftrightarrow> True"
| "reports_all toml dk (wm # wms) \<longleftrightarrow>
     reports toml dk wm wms \<and> reports_all toml (dk\<lparr>dk_entries := wm_entries wm\<rparr>) wms"

text \<open>The manifest is there and right about every file without an event still to come.\<close>

definition synced :: "'b codec \<Rightarrow> toml_parser \<Rightarrow> watch_moment list \<Rightarrow> 'b disk \<Rightarrow> bool" where
  "synced c toml pending dk \<longleftrightarrow> distinct_files dk \<and>
     (\<exists>m. read_manifest c dk = Inr (Some m) \<and> distinct (map me_filename (mf_entries m)) \<and>
        (\<forall>g. g \<notin> event_files pending \<longrightarrow> agrees toml dk (mf_entries m) g))"

lemma manifest_frame [simp]:
  "read_manifest c (dk\<lparr>dk_entries := x\<rparr>) = read_manifest c dk"
  by (simp add: read_manifest_def)

lemma event_files_Cons: "event_files (wm # wms) = event_files [wm] \<union> event_files wms"
  by (auto simp: event_files_def)

lemma agrees_frame:
  "file_view toml dk g = file_view toml dk' g \<Longrightarrow> agrees toml dk es g = agrees toml dk' es g"
  by (simp add: agrees_def)

lemma watch_update_version: "mf_version (watch_update toml dk ev f stat m) = mf_version m"
  by (simp add: watch_update_def split: sum.split)

lemma read_manifest_version: "read_manifest c dk = Inr (Some m) \<Longrightarrow> mf_version m = MANIFEST_VERSION"
  by (auto simp: read_manifest_def split: file_state.splits option.splits if_splits)

text \<open>An update keeps the names distinct and what the entries say of other files; the last event of a file
  makes them right about it.\<close>

lemma watch_update_distinct:
  "distinct (map me_filename (mf_entries m)) \<Longrightarrow>
   distinct (map me_filename (mf_entries (watch_update toml dk ev f stat m)))"
  by (auto simp: watch_update_def distinct_map_filter upsert_names split: sum.split)

lemma watch_update_other:
  assumes "distinct (map me_filename (mf_entries m))" "me_filename e \<noteq> f"
  shows "e \<in> set (mf_entries (watch_update toml dk ev f stat m)) \<longleftrightarrow> e \<in> set (mf_entries m)"
  using assms by (auto simp: watch_update_def upsert_set split: sum.split)

lemma watch_update_agrees_other:
  assumes "distinct (map me_filename (mf_entries m))" "g \<noteq> f"
  shows "agrees toml dk (mf_entries (watch_update toml' dk' ev f stat m)) g = agrees toml dk (mf_entries m) g"
proof -
  let ?es = "mf_entries (watch_update toml' dk' ev f stat m)"
  have other: "entry g secs def \<in> set ?es \<longleftrightarrow> entry g secs def \<in> set (mf_entries m)" for secs def
    using watch_update_other[OF assms(1), of "entry g secs def" f] assms(2) by simp
  have "e \<in> set ?es \<longleftrightarrow> e \<in> set (mf_entries m)" if "me_filename e = g" for e
    by (rule watch_update_other[OF assms(1)]) (use that assms(2) in simp)
  then have "g \<in> me_filename ` set ?es \<longleftrightarrow> g \<in> me_filename ` set (mf_entries m)"
    by (auto simp: image_iff)
  then show ?thesis
    by (simp only: agrees_def other)
qed

lemma watch_update_agrees_self:
  assumes "distinct (map me_filename (mf_entries m))" "found_as_reported toml dk wm f"
  shows "agrees toml dk (mf_entries (watch_update toml dk (wm_event wm) f (wm_stat wm) m)) f"
proof (cases "ev_delete (wm_event wm)")
  case True
  with assms(2) show ?thesis by (auto simp: found_as_reported_def agrees_def watch_update_def)
next
  case False
  with assms(2) obtain t def secs where f: "wm_stat wm = Inr t" "file_view toml dk f = Some (t, Inr def)"
    "mtime_secs f t = Inr secs" by (auto simp: found_as_reported_def)
  then have "parse_toml toml dk f = Inr def" by (auto simp: file_view_def split: sum.splits)
  with f False assms(1) show ?thesis
    by (simp add: agrees_def watch_update_def parse_and_stat_def upsert_set)
qed

text \<open>One event.\<close>

lemma watch_step_synced:
  fixes dk0 :: "'b disk"
  assumes "codec_ok c" "synced c toml (wm # later) dk0" "reports toml dk0 wm later"
  obtains dk' where "watch_event_step c toml (wm_writes wm) (wm_event wm) (wm_stat wm)
      (dk0\<lparr>dk_entries := wm_entries wm\<rparr>) = (WatchOn, dk')" "synced c toml later dk'" "dk_entries dk' = wm_entries wm"
proof -
  let ?dk = "dk0\<lparr>dk_entries := wm_entries wm\<rparr>"
  have r: "\<not> ev_self_gone (wm_event wm)" "distinct_files ?dk" "wr_write (wm_writes wm) = None"
    "wr_rename (wm_writes wm) = None"
    "\<And>g. g \<notin> event_files (wm # later) \<Longrightarrow> file_view toml dk0 g = file_view toml ?dk g"
    "\<And>f. f \<in> event_files [wm] \<Longrightarrow> f \<notin> event_files later \<Longrightarrow> found_as_reported toml ?dk wm f"
    using assms(3) unfolding reports_def Let_def by (blast, blast, blast, blast, metis, blast)
  obtain m where m: "read_manifest c dk0 = Inr (Some m)" "distinct (map me_filename (mf_entries m))"
    "\<And>g. g \<notin> event_files (wm # later) \<Longrightarrow> agrees toml dk0 (mf_entries m) g"
    using assms(2) by (auto simp: synced_def)
  have old: "agrees toml ?dk (mf_entries m) g" if "g \<notin> event_files (wm # later)" for g
    using m(3)[OF that] agrees_frame[OF r(5)[OF that]] by simp
  show thesis
  proof (cases "\<exists>f. ev_name (wm_event wm) = Some f \<and> ends_with f ''.toml''")
    case False
    then have none: "event_files [wm] = {}" by (auto simp: event_files_def)
    have "event_files (wm # later) = event_files later"
      using event_files_Cons[of wm later] none by blast
    then have "synced c toml later ?dk"
      using r(2) m(1,2) old unfolding synced_def by simp
    moreover have "watch_event_step c toml (wm_writes wm) (wm_event wm) (wm_stat wm) ?dk = (WatchOn, ?dk)"
      using False r(1) by (auto simp: watch_event_step_def split: option.split)
    ultimately show thesis using that[of ?dk] by simp
  next
    case True
    then obtain f where f: "ev_name (wm_event wm) = Some f" "ends_with f ''.toml''" by blast
    then have one: "event_files [wm] = {f}" by (auto simp: event_files_def)
    let ?m = "watch_update toml ?dk (wm_event wm) f (wm_stat wm) m"
    let ?dk' = "?dk\<lparr>dk_manifest := Bytes (serialize c ?m), dk_tmp := NotFound\<rparr>"
    have "read_manifest c ?dk' = Inr (Some ?m)"
      using assms(1) read_manifest_version[OF m(1)]
      by (simp add: read_manifest_def codec_ok_def watch_update_version)
    moreover have "agrees toml ?dk' (mf_entries ?m) g" if g: "g \<notin> event_files later" for g
    proof -
      have "agrees toml ?dk (mf_entries ?m) g"
      proof (cases "g = f")
        case True
        then show ?thesis using watch_update_agrees_self[OF m(2) r(6)] g one by simp
      next
        case False
        then have "g \<notin> event_files (wm # later)" using g event_files_Cons[of wm later] one by blast
        with old show ?thesis by (simp add: watch_update_agrees_other[OF m(2) False])
      qed
      then show ?thesis using agrees_frame[of toml ?dk' g ?dk] entries_frame(3)[of ?dk' ?dk toml] by simp
    qed
    ultimately have "synced c toml later ?dk'"
      using r(2) entries_frame(4)[of ?dk' ?dk] watch_update_distinct[OF m(2)] by (simp add: synced_def)
    moreover have "watch_event_step c toml (wm_writes wm) (wm_event wm) (wm_stat wm) ?dk = (WatchOn, ?dk')"
      using f r m(1) by (simp add: watch_event_step_def write_manifest_def)
    ultimately show thesis using that[of ?dk'] by simp
  qed
qed

lemma reports_frame:
  fixes dk dk' :: "'b disk"
  assumes "dk_entries dk = dk_entries dk'"
  shows "reports_all toml dk wms = reports_all toml dk' wms"
proof -
  have r: "reports toml d wm l = reports toml d' wm l" if "dk_entries d = dk_entries d'" for d d' :: "'b disk" and wm l
  proof -
    let ?n = "\<lambda>d :: 'b disk. d\<lparr>dk_entries := wm_entries wm\<rparr>"
    have "dk_entries (?n d) = dk_entries (?n d')" by simp
    note eqs = entries_frame(3,4)[OF that] entries_frame(3,4)[OF this]
    show ?thesis
      unfolding reports_def Let_def found_as_reported_def by (simp only: eqs)
  qed
  show ?thesis using assms
  proof (induction wms arbitrary: dk dk')
    case (Cons wm wms)
    show ?case
      using r[OF Cons.prems, of wm] Cons.IH[of "dk\<lparr>dk_entries := wm_entries wm\<rparr>" "dk'\<lparr>dk_entries := wm_entries wm\<rparr>"]
      by simp
  qed simp
qed

lemma watch_events_synced:
  assumes "codec_ok c" "synced c toml (wms @ rest) dk" "reports_all toml dk (wms @ rest)"
  shows "\<exists>dk'. watch_events c toml wms dk = (WatchOn, dk') \<and> synced c toml rest dk' \<and> reports_all toml dk' rest"
  using assms(2,3)
proof (induction wms arbitrary: dk)
  case (Cons wm wms)
  have s0: "synced c toml (wm # (wms @ rest)) dk" "reports toml dk wm (wms @ rest)" using Cons.prems by simp_all
  obtain dk1 where s: "watch_event_step c toml (wm_writes wm) (wm_event wm) (wm_stat wm)
      (dk\<lparr>dk_entries := wm_entries wm\<rparr>) = (WatchOn, dk1)" "synced c toml (wms @ rest) dk1"
    "dk_entries dk1 = wm_entries wm"
    using watch_step_synced[OF assms(1) s0] by auto
  have "reports_all toml dk1 (wms @ rest)"
    using Cons.prems(2) reports_frame[of "dk\<lparr>dk_entries := wm_entries wm\<rparr>" dk1] s(3) by simp
  from Cons.IH[OF s(2) this] show ?case using s(1) by simp
qed simp

lemma watch_reads_synced:
  assumes "codec_ok c" "synced c toml (concat batches) dk" "reports_all toml dk (concat batches)"
  shows "\<exists>dk'. watch_reads c toml (map Inr batches) dk = (WatchOn, dk') \<and> synced c toml [] dk'"
  using assms(2,3)
proof (induction batches arbitrary: dk)
  case (Cons wms batches)
  from watch_events_synced[OF assms(1), of toml wms "concat batches"] Cons.prems obtain dk' where
    "watch_events c toml wms dk = (WatchOn, dk')" "synced c toml (concat batches) dk'"
    "reports_all toml dk' (concat batches)"
    by auto
  with Cons.IH show ?case by auto
qed simp

text \<open>A current manifest is right about every file; with no event to come, being right about every file
  is being current.\<close>

lemma current_synced:
  assumes "read_manifest c dk = Inr (Some m)" "scan_toml_files dk = Inr files" "distinct (map fst files)"
    "current toml dk files (mf_entries m)"
  shows "synced c toml pending dk"
  using assms agrees_current[OF assms(2,3)] by (auto simp: synced_def distinct_files_def)

lemma synced_current:
  assumes "synced c toml [] dk"
  obtains m files where "read_manifest c dk = Inr (Some m)" "scan_toml_files dk = Inr files"
    "distinct (map fst files)" "current toml dk files (mf_entries m)"
  using assms agrees_current by (fastforce simp: synced_def distinct_files_def event_files_def)

end
