(* ===== verification/Cache_Properties.thy ===== *)
theory Cache_Properties
  imports Cache_Coherence
begin

text \<open>
  The properties of the manifest cache and of the watcher that keeps it: loading through the cache
  gives what parsing the directory gives, a warm load parses nothing, a failed write leaves the old
  manifest, and what boot does with files that do not validate or do not parse.
\<close>

section \<open>Samples\<close>

definition plain_codec :: "manifest codec" where
  "plain_codec = \<lparr>serialize = (\<lambda>m. m), deserialize = Some\<rparr>"

definition writes_ok :: write_results where
  "writes_ok = \<lparr>wr_write = None, wr_rename = None\<rparr>"

definition sample_dirent :: "string \<Rightarrow> string \<Rightarrow> int \<Rightarrow> io_error + dirent" where
  "sample_dirent n content secs =
     Inr \<lparr>de_name = n, de_content = Inr content, de_mtime = Inr (secs * 10 ^ 9 + 7)\<rparr>"

text \<open>A parser for files that hold nothing but a name; \<open>wild\<close> and \<open>bad\<close> are special.\<close>

definition name_toml :: toml_parser where
  "name_toml s = (if s = ''bad'' then Inl ''syntax error'' else if s = ''wild'' then Inr wild_service
     else Inr (sample_service s [] [] None))"

definition sample_disk :: "manifest disk" where
  "sample_disk =
     \<lparr>dk_entries = Inr [sample_dirent ''a.toml'' ''a'' 5, sample_dirent ''services.bin'' '''' 9,
        sample_dirent ''b.toml'' ''b'' 6],
      dk_manifest = Bytes \<lparr>mf_version = 1, mf_entries =
        [\<lparr>me_filename = ''a.toml'', me_mtime_secs = 5, me_def = sample_service ''a'' [] [] None\<rparr>,
         \<lparr>me_filename = ''gone.toml'', me_mtime_secs = 5, me_def = sample_service ''gone'' [] [] None\<rparr>]\<rparr>,
      dk_tmp = NotFound\<rparr>"

lemma plain_codec_ok [simp]: "codec_ok plain_codec"
  by (simp add: codec_ok_def plain_codec_def)

definition sample_files :: "(string \<times> int) list" where
  "sample_files = [(''a.toml'', 5000000007), (''b.toml'', 6000000007)]"

lemma sample_scan: "scan_toml_files sample_disk = Inr sample_files"
  by code_simp

lemma sample_sound:
  "\<forall>m. read_manifest plain_codec sample_disk = Inr (Some m) \<longrightarrow>
     sound_entries name_toml sample_disk sample_files (mf_entries m)"
proof (intro allI impI)
  fix m assume r: "read_manifest plain_codec sample_disk = Inr (Some m)"
  have p: "parse_toml name_toml sample_disk ''a.toml'' = Inr (sample_service ''a'' [] [] None)"
    by code_simp
  have "mf_entries m =
      [\<lparr>me_filename = ''a.toml'', me_mtime_secs = 5, me_def = sample_service ''a'' [] [] None\<rparr>,
       \<lparr>me_filename = ''gone.toml'', me_mtime_secs = 5, me_def = sample_service ''gone'' [] [] None\<rparr>]"
    using r by (auto simp: read_manifest_def sample_disk_def plain_codec_def MANIFEST_VERSION_def)
  then show "sound_entries name_toml sample_disk sample_files (mf_entries m)"
    using p by (auto simp: sound_entries_def sample_files_def)
qed

section \<open>Loading\<close>

text \<open>C12: the cache is transparent. If every entry of the manifest whose recorded time equals the
  time of its file holds what the file parses to, a successful load through the cache returns, up to
  order, the parsed definitions of exactly the \<open>.toml\<close> files of the directory, and the manifest it
  leaves describes exactly those files.\<close>

theorem cached_load_is_fresh_parse:
  assumes "codec_ok c" "scan_toml_files dk = Inr files" "distinct (map fst files)"
    "\<forall>m. read_manifest c dk = Inr (Some m) \<longrightarrow> sound_entries toml dk files (mf_entries m)"
    "load_services_cached c toml wr dk = (Inr defs, dk')"
  shows "mset (map Inr defs) = mset (map (\<lambda>(f, t). parse_toml toml dk f) files) \<and>
    (\<exists>m. read_manifest c dk' = Inr (Some m) \<and> current toml dk files (mf_entries m))"
proof -
  obtain m where m: "read_manifest c dk' = Inr (Some m)" "current toml dk files (mf_entries m)"
    "defs = map me_def (mf_entries m)"
    using load_current[OF assms(1-3) assms(4)[rule_format] assms(5)] by metis
  with current_defs[OF m(2) assms(3)] show ?thesis by (auto simp: comp_def)
qed

theorem cached_load_is_fresh_parse_witness:
  "\<exists>defs dk'. load_services_cached plain_codec name_toml writes_ok sample_disk = (Inr defs, dk') \<and>
     map sd_name defs = [''a'', ''b''] \<and>
     mset (map Inr defs) = mset (map (\<lambda>(f, t). parse_toml name_toml sample_disk f) sample_files)"
proof -
  have "case load_services_cached plain_codec name_toml writes_ok sample_disk of
      (Inr defs, dk') \<Rightarrow> map sd_name defs = [''a'', ''b''] | _ \<Rightarrow> False" by code_simp
  then obtain defs dk' where l: "load_services_cached plain_codec name_toml writes_ok sample_disk =
      (Inr defs, dk')" "map sd_name defs = [''a'', ''b'']" by (auto split: prod.splits sum.splits)
  have "distinct (map fst sample_files)" by (simp add: sample_files_def)
  from cached_load_is_fresh_parse[OF plain_codec_ok sample_scan this sample_sound l(1)] l
  show ?thesis by (intro exI[of _ defs] exI[of _ dk'] conjI) simp_all
qed

text \<open>C37: a warm load parses nothing. After a successful load (from a manifest in which every entry with
  the time of its file holds what the file parses to), loading the unchanged directory again
  returns the same definitions in the same order and writes nothing, whatever the parser would say
  and whether or not writing would succeed.\<close>

theorem warm_load_does_not_parse:
  assumes "codec_ok c" "scan_toml_files dk = Inr files" "distinct (map fst files)"
    "\<forall>m. read_manifest c dk = Inr (Some m) \<longrightarrow> sound_entries toml dk files (mf_entries m)"
    "load_services_cached c toml wr dk = (Inr defs, dk')"
  shows "load_services_cached c toml' wr' dk' = (Inr defs, dk')"
proof -
  obtain m where m: "read_manifest c dk' = Inr (Some m)" "current toml dk files (mf_entries m)"
    "defs = map me_def (mf_entries m)" "dk_entries dk' = dk_entries dk"
    using load_current[OF assms(1-3) assms(4)[rule_format] assms(5)] by metis
  have "scan_toml_files dk' = Inr files" using assms(2) m(4) by (simp add: scan_toml_files_def)
  from load_warm[OF this m(1,2)] m(3) show ?thesis by simp
qed

theorem warm_load_does_not_parse_witness:
  "\<exists>defs dk'. load_services_cached plain_codec name_toml writes_ok sample_disk = (Inr defs, dk') \<and>
     load_services_cached plain_codec (\<lambda>_. Inl ''no parser'') \<lparr>wr_write = Some 28, wr_rename = None\<rparr> dk' =
       (Inr defs, dk')"
proof -
  have "case load_services_cached plain_codec name_toml writes_ok sample_disk of
      (Inr defs, dk') \<Rightarrow> True | _ \<Rightarrow> False" by code_simp
  then obtain defs dk' where l: "load_services_cached plain_codec name_toml writes_ok sample_disk = (Inr defs, dk')"
    by (auto split: prod.splits sum.splits)
  have "distinct (map fst sample_files)" by (simp add: sample_files_def)
  from warm_load_does_not_parse[OF plain_codec_ok sample_scan this sample_sound l,
      of "\<lambda>_. Inl ''no parser''" "\<lparr>wr_write = Some 28, wr_rename = None\<rparr>"] l
  show ?thesis by blast
qed

text \<open>A file that is only \<open>.toml\<close> has no extension for the load, but the watcher makes an entry for it.\<close>

lemma hidden_file_watched: "ends_with ''.toml'' ''.toml'' \<and> path_extension ''.toml'' = None"
  by code_simp

text \<open>The manifest is replaced as a whole. Whatever fails while it is written, afterwards the
  manifest file has its old content or the complete new one, and it has the new one exactly when the
  write reports success; what was written is what is read back.\<close>

lemma manifest_write_atomic:
  assumes "codec_ok c" "mf_version m = MANIFEST_VERSION" "write_manifest c wr m dk = (r, dk')"
  shows "if r = Inr () then read_manifest c dk' = Inr (Some m)
    else dk_manifest dk' = dk_manifest dk"
  using assms
  by (auto simp: write_manifest_def read_manifest_def codec_ok_def split: option.splits)

section \<open>Watching\<close>

text \<open>C13: the watcher keeps the manifest current. Let the manifest that \<open>flint-watch\<close> finds be up to date
  wherever its times are, and let every later difference of the \<open>.toml\<close> files be named by an event of
  the batches it has read, however long before an event is handled the change was made and however many
  files have changed by then. If the last event of each file finds the file as it reports it (gone, or
  there and parsable), then the watcher goes on, and when it has handled the events the manifest
  describes the directory, so that the next boot returns its definitions without parsing or writing
  anything.\<close>

theorem watch_keeps_manifest_current:
  assumes "codec_ok c" "dk = we_disk env (watch_dir (we_args env))" "scan_toml_files dk = Inr files"
    "distinct (map fst files)"
    "\<forall>m. read_manifest c dk = Inr (Some m) \<longrightarrow> sound_entries toml dk files (mf_entries m)"
    "load_services_cached c toml (we_writes env) dk = (Inr defs, dk1)" "we_init env = None" "we_add env = None"
    "we_reads env = map Inr batches" "reports_all toml dk1 (concat batches)"
  shows "\<exists>dk' m' files'. watch_main c toml env = (WatchOn, dk') \<and> scan_toml_files dk' = Inr files' \<and>
    read_manifest c dk' = Inr (Some m') \<and> current toml dk' files' (mf_entries m') \<and>
    load_services_cached c toml' wr' dk' = (Inr (map me_def (mf_entries m')), dk')"
proof -
  obtain m where m: "read_manifest c dk1 = Inr (Some m)" "current toml dk files (mf_entries m)"
    "dk_entries dk1 = dk_entries dk"
    using load_current[OF assms(1,3,4) assms(5)[rule_format] assms(6)] by metis
  have "current toml dk1 files (mf_entries m)"
    using m(2) unfolding current_def good_entry_def entries_frame(2)[OF m(3)] .
  then have "synced c toml (concat batches) dk1"
    using current_synced[OF m(1) _ assms(4)] assms(3) entries_frame(1)[OF m(3)] by simp
  from watch_reads_synced[OF assms(1) this assms(10)] obtain dk' where
    r: "watch_reads c toml (map Inr batches) dk1 = (WatchOn, dk')" "synced c toml [] dk'" by blast
  from r(2) obtain m' files' where f: "scan_toml_files dk' = Inr files'" "read_manifest c dk' = Inr (Some m')"
    "current toml dk' files' (mf_entries m')" by (rule synced_current)
  have "watch_main c toml env = (WatchOn, dk')"
    using assms(2,6-9) r(1) by (simp add: watch_main_def)
  with f load_warm[OF f] show ?thesis by blast
qed

definition warm_disk :: "manifest disk" where
  "warm_disk = sample_disk\<lparr>dk_manifest := Bytes \<lparr>mf_version = 1, mf_entries =
     [\<lparr>me_filename = ''a.toml'', me_mtime_secs = 5, me_def = sample_service ''a'' [] [] None\<rparr>,
      \<lparr>me_filename = ''b.toml'', me_mtime_secs = 6, me_def = sample_service ''b'' [] [] None\<rparr>]\<rparr>\<rparr>"

text \<open>Before the watcher reads anything, \<open>b.toml\<close> is written again, \<open>a.toml\<close> is written again and \<open>b.toml\<close> is
  removed. One batch reports the three.\<close>

definition changed_disk :: "manifest disk" where
  "changed_disk = warm_disk\<lparr>dk_entries := Inr [sample_dirent ''a.toml'' ''aa'' 8,
     sample_dirent ''services.bin'' '''' 9]\<rparr>"

definition moment :: "string \<Rightarrow> bool \<Rightarrow> io_error + int \<Rightarrow> watch_moment" where
  "moment f deleted stat = \<lparr>wm_event = \<lparr>ev_name = Some f, ev_delete = deleted, ev_self_gone = False\<rparr>,
     wm_entries = dk_entries changed_disk, wm_stat = stat, wm_writes = writes_ok\<rparr>"

definition sample_batch :: "watch_moment list" where
  "sample_batch = [moment ''b.toml'' False (Inl 2), moment ''a.toml'' False (Inr 8000000007),
     moment ''b.toml'' True (Inl 2)]"

text \<open>The event that the watcher's own renaming of the manifest causes comes in the next batch.\<close>

definition sample_watch :: "manifest watch_env" where
  "sample_watch = \<lparr>we_args = [''flint-watch''], we_disk = (\<lambda>_. warm_disk), we_writes = writes_ok,
     we_init = None, we_add = None,
     we_reads = [Inr sample_batch, Inr [moment ''services.bin'' False (Inr 9000000007)]]\<rparr>"

lemma event_files_moment [simp]:
  "event_files [] = {}"
  "event_files (moment f d st # wms) = (if ends_with f ''.toml'' then {f} else {}) \<union> event_files wms"
  by (auto simp: event_files_def moment_def)

lemma sample_reports:
  "reports_all name_toml warm_disk (concat [sample_batch, [moment ''services.bin'' False (Inr 9000000007)]])"
proof -
  have scan: "scan_toml_files changed_disk = Inr [(''a.toml'', 8000000007)]"
    "scan_toml_files warm_disk = Inr sample_files" by code_simp+
  have p: "parse_toml name_toml changed_disk ''a.toml'' = Inr (sample_service ''aa'' [] [] None)"
    "mtime_secs ''a.toml'' 8000000007 = Inr 8" "ends_with ''a.toml'' ''.toml''"
    "ends_with ''b.toml'' ''.toml''" "\<not> ends_with ''services.bin'' ''.toml''" by code_simp+
  have view: "file_view name_toml changed_disk g = file_view name_toml warm_disk g"
    if "g \<noteq> ''a.toml''" "g \<noteq> ''b.toml''" for g
    using that scan by (simp add: file_view_def sample_files_def)
  have dk: "wm_entries (moment f d st) = dk_entries changed_disk"
    "warm_disk\<lparr>dk_entries := dk_entries changed_disk\<rparr> = changed_disk"
    "changed_disk\<lparr>dk_entries := dk_entries changed_disk\<rparr> = changed_disk" for f d st
    by (simp_all add: changed_disk_def moment_def)
  have m: "\<not> ev_self_gone (wm_event (moment f d st))" "wr_write (wm_writes (moment f d st)) = None"
    "wr_rename (wm_writes (moment f d st)) = None" "ev_delete (wm_event (moment f d st)) = d"
    "wm_stat (moment f d st) = st" for f d st
    by (simp_all add: moment_def writes_ok_def)
  have "distinct_files changed_disk" using scan by (simp add: distinct_files_def)
  moreover have "found_as_reported name_toml changed_disk (moment ''a.toml'' False (Inr 8000000007)) ''a.toml''"
    "found_as_reported name_toml changed_disk (moment ''b.toml'' True (Inl 2)) ''b.toml''"
    using scan p by (simp_all add: found_as_reported_def m file_view_def)
  ultimately show ?thesis
    using view p by (auto simp: sample_batch_def reports_def dk m Let_def)
qed

theorem watch_keeps_manifest_current_witness:
  "\<exists>dk' m' files'. watch_main plain_codec name_toml sample_watch = (WatchOn, dk') \<and>
    scan_toml_files dk' = Inr files' \<and> read_manifest plain_codec dk' = Inr (Some m') \<and>
    current name_toml dk' files' (mf_entries m') \<and>
    load_services_cached plain_codec (\<lambda>_. Inl ''no parser'') writes_ok dk' =
      (Inr (map me_def (mf_entries m')), dk')"
proof -
  have p: "parse_toml name_toml warm_disk ''a.toml'' = Inr (sample_service ''a'' [] [] None)"
    "parse_toml name_toml warm_disk ''b.toml'' = Inr (sample_service ''b'' [] [] None)"
    "scan_toml_files warm_disk = Inr sample_files" "distinct (map fst sample_files)" by code_simp+
  have s: "\<forall>m. read_manifest plain_codec warm_disk = Inr (Some m) \<longrightarrow>
      sound_entries name_toml warm_disk sample_files (mf_entries m)"
    using p(1,2) by (auto simp: read_manifest_def warm_disk_def plain_codec_def MANIFEST_VERSION_def sound_entries_def
        split: if_splits)
  have l: "load_services_cached plain_codec name_toml (we_writes sample_watch) warm_disk =
      (Inr [sample_service ''a'' [] [] None, sample_service ''b'' [] [] None], warm_disk)" by code_simp
  have w: "warm_disk = we_disk sample_watch (watch_dir (we_args sample_watch))"
    "we_init sample_watch = None" "we_add sample_watch = None"
    "we_reads sample_watch = map Inr [sample_batch, [moment ''services.bin'' False (Inr 9000000007)]]"
    by (simp_all add: sample_watch_def)
  from watch_keeps_manifest_current[OF plain_codec_ok w(1) p(3,4) s l w(2-4) sample_reports,
      of "\<lambda>_. Inl ''no parser''" writes_ok]
  show ?thesis by blast
qed

section \<open>Where the boot differs from the loader\<close>

definition wild_disk :: "manifest disk" where
  "wild_disk = \<lparr>dk_entries = Inr [sample_dirent ''left.toml'' ''wild'' 5], dk_manifest = NotFound,
     dk_tmp = NotFound\<rparr>"

text \<open>The boot does not validate. \<open>main\<close> loads its services through the cache, which accepts a
  definition whose readiness path lies outside \<open>/run\<close>; \<open>load_services_from_dir\<close> refuses the same
  directory.\<close>

lemma boot_load_skips_validation:
  "fst (load_services_cached plain_codec name_toml writes_ok wild_disk) = Inr [wild_service] \<and>
   load_services_from_dir name_toml (dk_entries wild_disk) =
     Inl (LoadInvalid ''left.toml'' (NotUnderRun ''left'' ''/etc/passwd''))"
  by code_simp

text \<open>C39: the watcher's fallback is not used. When a changed file does not parse, \<open>flint-watch\<close> leaves
  the old entry in the manifest "so boot still has a valid definition", but the next load sees that
  the time of the file is not the recorded one, parses the file and fails.\<close>

theorem unparsable_change_fails_boot:
  assumes "scan_toml_files dk = Inr files" "distinct (map fst files)" "(f, t) \<in> set files"
    "parse_toml toml dk f = Inl err" "mtime_secs f t = Inr secs"
    "read_manifest c dk = Inr (Some m)" "cached_mtime f (mf_entries m) \<noteq> Some secs"
  shows "watch_update toml dk \<lparr>ev_name = Some f, ev_delete = False, ev_self_gone = False\<rparr> f (Inr t) m = m \<and>
    (\<exists>e. fst (load_services_cached c toml wr dk) = Inl e)"
proof -
  let ?kept = "filter (\<lambda>e. me_filename e \<in> set (map fst files)) (mf_entries m)"
  have "f \<in> set (map fst files)" using assms(3) by force
  then have "cached_mtime f ?kept \<noteq> Some secs" using assms(7) by (simp add: cached_mtime_filter)
  from refresh_stale_error[OF assms(3,2,5) this assms(4)] obtain e
    where "refresh toml dk files ?kept (length ?kept \<noteq> length (mf_entries m)) = Inl e" by blast
  then show ?thesis
    using assms(1,4,6)
    by (simp add: load_services_cached_def update_cached_def Let_def watch_update_def parse_and_stat_def)
qed

definition broken_disk :: "manifest disk" where
  "broken_disk = sample_disk\<lparr>dk_entries := Inr [sample_dirent ''a.toml'' ''bad'' 8]\<rparr>"

theorem unparsable_change_fails_boot_witness:
  "\<exists>e. fst (load_services_cached plain_codec name_toml writes_ok broken_disk) = Inl e"
proof -
  have h: "scan_toml_files broken_disk = Inr [(''a.toml'', 8000000007)]"
    "parse_toml name_toml broken_disk ''a.toml'' = Inl (CacheParse ''a.toml'' ''syntax error'')"
    "mtime_secs ''a.toml'' 8000000007 = Inr 8" by code_simp+
  have r: "case read_manifest plain_codec broken_disk of
      Inr (Some m) \<Rightarrow> cached_mtime ''a.toml'' (mf_entries m) \<noteq> Some 8 | _ \<Rightarrow> False" by code_simp
  then obtain m where m: "read_manifest plain_codec broken_disk = Inr (Some m)"
    "cached_mtime ''a.toml'' (mf_entries m) \<noteq> Some 8" by (auto split: sum.splits option.splits)
  from unparsable_change_fails_boot[OF h(1) _ _ h(2,3) m, of writes_ok] show ?thesis by simp
qed

end
