(* ===== verification/Check.thy ===== *)
theory Check
  imports Service_Graph "HOL-Library.Word"
begin

text \<open>
  \<open>check.rs\<close>: the migration audit and the preflight of \<open>flint-ctl check\<close>. What the code asks the
  file system (listings of directories, permissions of files) are the fields of two records; the
  lines it prints are the result of \<open>run_check\<close> beside its verdict. \<open>has_cycle\<close> repeats the edge
  loops of \<open>ServiceGraph::build\<close> on the same kind of maps, so it is modelled with the same
  functions, and the guarded decrement of its queue loop is \<open>kahn_sat\<close>.

  The lemmas show that \<open>has_cycle\<close> decides whether building the graph would fail, and what a
  preflight without errors guarantees.
\<close>

section \<open>Migration audit\<close>

record migration_audit =
  au_covered :: "string list"
  au_missing :: "string list"
  au_unknown :: "string list"

text \<open>A directory of the old init system: whether it exists and what reading it returns.\<close>

type_synonym listing = "bool \<times> (io_error + (io_error + string) list)"

record old_init =
  openrc_default :: listing
  openrc_boot :: listing
  runit_current :: listing
  s6_contents :: listing

definition flatten_entries :: "(io_error + 'a) list \<Rightarrow> 'a list" where
  "flatten_entries es = [x. Inr x \<leftarrow> es]"

definition listed :: "listing \<Rightarrow> string list" where
  "listed l = (case snd l of Inl _ \<Rightarrow> [] | Inr es \<Rightarrow> flatten_entries es)"

definition readable :: "listing \<Rightarrow> bool" where
  "readable l = (case snd l of Inl _ \<Rightarrow> False | Inr _ \<Rightarrow> True)"

definition detect_enabled_services :: "hash_order \<Rightarrow> old_init \<Rightarrow> string list option" where
  "detect_enabled_services ho oi =
     (if fst (openrc_default oi) \<or> fst (openrc_boot oi) then
        Some (ho ''services'' (remdups (listed (openrc_default oi) @ listed (openrc_boot oi))))
      else if fst (runit_current oi) \<and> readable (runit_current oi) then Some (listed (runit_current oi))
      else if fst (s6_contents oi) \<and> readable (s6_contents oi) then Some (listed (s6_contents oi))
      else None)"

definition installed_service_names :: "io_error + (io_error + dirent) list \<Rightarrow> string set" where
  "installed_service_names rd =
     (case rd of
        Inl _ \<Rightarrow> {}
      | Inr es \<Rightarrow> set (map (\<lambda>d. file_stem (de_name d))
          (filter (\<lambda>d. path_extension (de_name d) = Some ''toml'') (flatten_entries es))))"

definition audit_one :: "string set \<Rightarrow> string set \<Rightarrow> string \<Rightarrow> migration_audit \<Rightarrow> migration_audit" where
  "audit_one installed catalog svc audit =
     (if svc \<in> installed then audit\<lparr>au_covered := au_covered audit @ [svc]\<rparr>
      else if svc \<in> catalog then audit\<lparr>au_missing := au_missing audit @ [svc]\<rparr>
      else audit\<lparr>au_unknown := au_unknown audit @ [svc]\<rparr>)"

definition run_migration_audit ::
  "hash_order \<Rightarrow> old_init \<Rightarrow> io_error + (io_error + dirent) list \<Rightarrow> string set \<Rightarrow> migration_audit option"
where
  "run_migration_audit ho oi rd catalog =
     (case detect_enabled_services ho oi of
        None \<Rightarrow> None
      | Some enabled \<Rightarrow>
          (let audit = fold (audit_one (installed_service_names rd) catalog) enabled
                 \<lparr>au_covered = [], au_missing = [], au_unknown = []\<rparr>
           in Some \<lparr>au_covered = sort (au_covered audit), au_missing = sort (au_missing audit),
                    au_unknown = sort (au_unknown audit)\<rparr>))"

section \<open>Preflight\<close>

record preflight_result =
  pf_ok :: "string list"
  pf_warnings :: "(string \<times> string) list"
  pf_errors :: "(string \<times> string) list"

text \<open>What \<open>metadata\<close> returns for a path, and the text of an I/O error.\<close>

record file_meta =
  fm_is_file :: bool
  fm_mode :: "32 word"

record check_env =
  ce_metadata :: "string \<Rightarrow> file_meta option"
  ce_show_io :: "io_error \<Rightarrow> string"

text \<open>\<open>0x49\<close> is \<open>0o111\<close>, \<open>0x80\<close> is \<open>0o200\<close>.\<close>

definition meta_executable :: "file_meta \<Rightarrow> bool" where
  "meta_executable m = (fm_is_file m \<and> and (fm_mode m) 0x49 \<noteq> 0)"

definition is_executable :: "check_env \<Rightarrow> string \<Rightarrow> bool" where
  "is_executable ce path = (case ce_metadata ce path of None \<Rightarrow> False | Some m \<Rightarrow> meta_executable m)"

text \<open>\<open>exists()\<close> is \<open>metadata().is_ok()\<close>.\<close>

definition parent_readonly :: "check_env \<Rightarrow> string \<Rightarrow> bool" where
  "parent_readonly ce path =
     (case path_parent path of
        None \<Rightarrow> False
      | Some parent \<Rightarrow>
          (case ce_metadata ce parent of None \<Rightarrow> False | Some m \<Rightarrow> and (fm_mode m) 0x80 = 0))"

definition is_ephemeral_path :: "string \<Rightarrow> bool" where
  "is_ephemeral_path path =
     (starts_with path ''/run/'' \<or> starts_with path ''/var/run/'' \<or> starts_with path ''/dev/'')"

definition has_cycle :: "hash_order \<Rightarrow> service_def list \<Rightarrow> bool" where
  "has_cycle ho services =
     (let names = remdups (map sd_name services);
          in_degree0 = map (\<lambda>n. (n, 0)) (ho ''names'' names);
          adjacency0 = map (\<lambda>n. (n, [])) (ho ''names'' names);
          (adjacency, in_degree) =
            fold (add_service_edges ho names) services (adjacency0, in_degree0);
          queue = ho ''in_degree'' (zero_degree in_degree)
      in fst (kahn_sat adjacency queue in_degree 0) \<noteq> length services)"

definition show_validate :: "validate_error \<Rightarrow> string" where
  "show_validate e =
     (case e of
        NotAbsolute n p \<Rightarrow> ''service '' @ [CHR 0x27] @ n @ [CHR 0x27] @ '': ready.path '' @ [CHR 0x27] @ p @ [CHR 0x27] @ '' must be absolute''
      | ParentTraversal n p \<Rightarrow> ''service '' @ [CHR 0x27] @ n @ [CHR 0x27] @ '': ready.path '' @ [CHR 0x27] @ p @ [CHR 0x27] @ '' contains '' @ [CHR 0x27] @ ''..'' @ [CHR 0x27] @ '' traversal''
      | NotUnderRun n p \<Rightarrow> ''service '' @ [CHR 0x27] @ n @ [CHR 0x27] @ '': ready.path '' @ [CHR 0x27] @ p @ [CHR 0x27] @ '' must be under /run/ or /var/run/'')"

fun preflight_load ::
  "check_env \<Rightarrow> toml_parser \<Rightarrow> dirent list \<Rightarrow> service_def list \<times> (string \<times> string) list
    \<Rightarrow> service_def list \<times> (string \<times> string) list" where
  "preflight_load ce toml [] acc = acc"
| "preflight_load ce toml (d # ds) (services, errors) =
     (if path_extension (de_name d) \<noteq> Some ''toml'' then preflight_load ce toml ds (services, errors)
      else
        (let name = file_stem (de_name d)
         in case de_content d of
              Inl e \<Rightarrow> preflight_load ce toml ds (services, errors @ [(name, ''read error: '' @ ce_show_io ce e)])
            | Inr content \<Rightarrow>
                (case toml (trim_end_matches is_nul content) of
                   Inl e \<Rightarrow> preflight_load ce toml ds (services, errors @ [(name, ''parse error: '' @ e)])
                 | Inr def \<Rightarrow>
                     (case validate def of
                        Inl e \<Rightarrow> preflight_load ce toml ds (services, errors @ [(name, show_validate e)])
                      | Inr _ \<Rightarrow> preflight_load ce toml ds (services @ [def], errors)))))"

definition after_names :: "service_def \<Rightarrow> string list" where
  "after_names s = (case sd_deps s of None \<Rightarrow> [] | Some d \<Rightarrow> deps_after d)"

definition service_errors :: "string set \<Rightarrow> service_def \<Rightarrow> string list" where
  "service_errors names svc =
     map (\<lambda>dep. ''broken needs-dep '' @ [CHR 0x22] @ dep @ [CHR 0x22] @ '' (not installed)'')
       (filter (\<lambda>dep. dep \<notin> names) (need_names svc))"

definition service_warnings :: "check_env \<Rightarrow> string set \<Rightarrow> service_def \<Rightarrow> string list" where
  "service_warnings ce names svc =
     (let exec_bin = (case split_whitespace (svc_exec (sd_service svc)) of [] \<Rightarrow> [] | w # _ \<Rightarrow> w)
      in (if exec_bin \<noteq> [] \<and> \<not> is_executable ce exec_bin then [exec_bin @ '' not found''] else []) @
         map (\<lambda>dep. ''unknown after-dep '' @ [CHR 0x22] @ dep @ [CHR 0x22])
           (filter (\<lambda>dep. dep \<notin> names) (after_names svc)) @
         (case sd_ready_path svc of
            None \<Rightarrow> []
          | Some path \<Rightarrow>
              if \<not> is_ephemeral_path path \<and> parent_readonly ce path
              then [''parent dir of '' @ path @ '' may not be writable''] else []))"

definition preflight_service ::
  "check_env \<Rightarrow> string set \<Rightarrow> service_def \<Rightarrow> preflight_result \<Rightarrow> preflight_result" where
  "preflight_service ce names svc r =
     (if service_errors names svc \<noteq> []
      then r\<lparr>pf_errors := pf_errors r @ [(sd_name svc, join ''; '' (service_errors names svc))]\<rparr>
      else if service_warnings ce names svc \<noteq> []
      then r\<lparr>pf_warnings := pf_warnings r @ [(sd_name svc, join ''; '' (service_warnings ce names svc))]\<rparr>
      else r\<lparr>pf_ok := pf_ok r @ [sd_name svc]\<rparr>)"

definition run_preflight ::
  "hash_order \<Rightarrow> check_env \<Rightarrow> toml_parser \<Rightarrow> io_error + (io_error + dirent) list \<Rightarrow> preflight_result" where
  "run_preflight ho ce toml rd =
     (case rd of
        Inl _ \<Rightarrow> \<lparr>pf_ok = [], pf_warnings = [], pf_errors = []\<rparr>
      | Inr es \<Rightarrow>
          (case preflight_load ce toml (flatten_entries es) ([], []) of (services, errors) \<Rightarrow>
             (let r = fold (preflight_service ce (set (map sd_name services))) services
                        \<lparr>pf_ok = [], pf_warnings = [], pf_errors = errors\<rparr>;
                  r = (if has_cycle ho services
                       then r\<lparr>pf_errors := pf_errors r @ [(''(graph)'', ''dependency cycle detected'')]\<rparr>
                       else r)
              in r\<lparr>pf_ok := sort (pf_ok r), pf_warnings := sort_key fst (pf_warnings r),
                   pf_errors := sort_key fst (pf_errors r)\<rparr>)))"

text \<open>What \<open>run_check\<close> prints, line by line.\<close>

definition audit_report :: "migration_audit option \<Rightarrow> string list" where
  "audit_report ma =
     (case ma of
        None \<Rightarrow> [''  (no known init system detected '' @ em_dash @ '' skipping migration audit)'']
      | Some audit \<Rightarrow>
          (let covered = au_covered audit; missing = au_missing audit; unknown = au_unknown audit
           in (if covered \<noteq> []
               then [''  covered   '' @ join '', '' covered @ ''   ('' @ show_nat (length covered) @ '' services)'']
               else []) @
              (if missing \<noteq> []
               then [''  missing   '' @ join '', '' missing @ ''   (in catalog '' @ em_dash @
                     '' run: flint-ctl get '' @ join '' '' missing @ '')'']
               else []) @
              (if unknown \<noteq> []
               then [''  unknown   '' @ join '', '' unknown @ ''   (not in catalog '' @ em_dash @ '' run: '' @
                     join ''  |  '' (map (\<lambda>s. ''flint-ctl scaffold '' @ s) unknown) @ '')'']
               else []) @
              (if covered = [] \<and> missing = [] \<and> unknown = []
               then [''  (no enabled services detected from old init system)''] else [])))"

definition preflight_report :: "preflight_result \<Rightarrow> string list" where
  "preflight_report pf =
     (if pf_ok pf \<noteq> []
      then [''  ok        '' @ join '' '' (pf_ok pf) @ ''   ('' @ show_nat (length (pf_ok pf)) @ '' services)'']
      else []) @
     map (\<lambda>(name, msg). ''  warning   '' @ name @ '': '' @ msg) (pf_warnings pf) @
     map (\<lambda>(name, msg). ''  error     '' @ name @ '': '' @ msg) (pf_errors pf)"

definition run_check ::
  "hash_order \<Rightarrow> check_env \<Rightarrow> toml_parser \<Rightarrow> old_init \<Rightarrow> string \<Rightarrow> bool
    \<Rightarrow> io_error + (io_error + dirent) list \<Rightarrow> string set option \<Rightarrow> string list \<times> bool" where
  "run_check ho ce toml oi services_dir dir_exists rd catalog =
     (let audit = (case catalog of
                     None \<Rightarrow> []
                   | Some cat \<Rightarrow>
                       [''[check] migration audit''] @ audit_report (run_migration_audit ho oi rd cat) @ ['''']);
          out = audit @ [''[check] preflight'']
      in if \<not> dir_exists then
           (out @ [''  warning: '' @ services_dir @ '' does not exist '' @ em_dash @ '' no services installed''], True)
         else
           (let pf = run_preflight ho ce toml rd
            in if pf_ok pf = [] \<and> pf_warnings pf = [] \<and> pf_errors pf = []
               then (out @ [''  (no services found in '' @ services_dir @ '')''], True)
               else (out @ preflight_report pf, pf_errors pf = [])))"

section \<open>The cycle test\<close>

lemma has_cycle_iff:
  assumes ho: "is_hash_order ho"
  shows "has_cycle ho services \<longleftrightarrow> \<not> (acyclic (dep_rel services) \<and> distinct (map sd_name services))"
proof -
  let ?names = "remdups (map sd_name services)"
  let ?d0 = "map (\<lambda>n. (n, 0::nat)) (ho ''names'' ?names)"
  let ?a0 = "map (\<lambda>n. (n, [] :: string list)) (ho ''names'' ?names)"
  obtain dm ind where e: "fold (add_service_edges ho ?names) services (?a0, ?d0) = (dm, ind)" by fastforce
  have keys: "fst ` set ?d0 = names_of services" "fst ` set ?a0 = names_of services"
    "distinct (map fst ?d0)" "set ?names = names_of services"
    using ho by (auto simp: names_of_def comp_def image_image)
  have zero: "hm_get_or ?d0 v 0 = 0" "succs ?a0 u = []" for u v
    by (auto simp: hm_get_or_def succs_def split: option.split dest!: map_of_SomeD)
  note a = add_all_edges[OF ho e]
  have m: "\<And>u. succs dm u = (if u \<in> names_of services then dependents_of services u else [])"
    "\<And>v. hm_get_or ind v 0 = degree_of services services v"
    "fst ` set dm = names_of services" "fst ` set ind = names_of services" "distinct (map fst ind)"
    using a keys zero by (simp_all add: degree_of_def)
  have inv: "kahn_inv (names_of services) dm [] (ho ''in_degree'' (zero_degree ind)) ind"
    using m ho degree_count[where known = services and services = services]
    by (auto simp: kahn_inv_def topo_prefix_def set_zero_degree distinct_zero_degree)
  have cl: "\<And>u. u \<in> names_of services \<Longrightarrow> set (succs dm u) \<subseteq> names_of services"
    using m(1) dependents_of_subset by simp
  obtain P tmp where k: "kahn_sat dm (ho ''in_degree'' (zero_degree ind)) ind 0 = (length P, tmp)"
    "kahn_inv (names_of services) dm P [] tmp"
    using kahn_run[OF finite_names_of cl _ inv, of 0] m(3,4) by auto
  have "length P = length services \<longleftrightarrow>
      acyclic (dep_rel services) \<and> distinct (map sd_name services)"
    using kahn_final(2)[OF finite_names_of cl k(2)] kahn_inv_length_le[OF finite_names_of k(2)]
      card_names_of_le[of services] card_names_of_eq[of services] edge_rel_dep_rel[OF m(1)] by auto
  then show ?thesis using e k(1) by (simp add: has_cycle_def)
qed

lemma has_cycle_build:
  assumes "is_hash_order ho" "is_hash_order ho'"
  shows "has_cycle ho services \<longleftrightarrow> \<not> (\<exists>g. build ho' services = Ok g)"
  by (rule build_cases[OF assms(2), of services]) (use has_cycle_iff[OF assms(1), of services] in auto)

section \<open>What a preflight without errors guarantees\<close>

lemma flatten_map_Inr [simp]: "flatten_entries (map Inr ds) = ds"
  by (induction ds) (simp_all add: flatten_entries_def)

lemma preflight_load_load:
  assumes "preflight_load ce toml ds acc = (services, [])"
  shows "load_entries toml (map Inr ds) (fst acc) = Inr services \<and> snd acc = []"
  using assms
proof (induction ds arbitrary: acc)
  case (Cons d ds)
  obtain ss es where acc: "acc = (ss, es)" by fastforce
  from Cons.prems Cons.IH show ?case
    by (fastforce simp: acc Let_def split: if_splits sum.splits)
qed auto

lemma preflight_fold_errors:
  "pf_errors (fold (preflight_service ce names) ss r) =
     pf_errors r @ map (\<lambda>s. (sd_name s, join ''; '' (service_errors names s)))
       (filter (\<lambda>s. service_errors names s \<noteq> []) ss)"
  by (induction ss arbitrary: r) (auto simp: preflight_service_def)

lemma sort_key_Nil_iff [simp]: "sort_key f xs = [] \<longleftrightarrow> xs = []"
  by (metis length_0_conv length_sort)

lemma preflight_no_errors:
  assumes "pf_errors (run_preflight ho ce toml (Inr es)) = []"
  obtains services where "load_entries toml (map Inr (flatten_entries es)) [] = Inr services"
    "\<not> has_cycle ho services" "\<forall>s \<in> set services. set (need_names s) \<subseteq> names_of services"
proof -
  obtain services errors where l: "preflight_load ce toml (flatten_entries es) ([], []) = (services, errors)"
    by fastforce
  from assms l have e: "errors = []" "\<not> has_cycle ho services"
    "filter (\<lambda>s. service_errors (set (map sd_name services)) s \<noteq> []) services = []"
    by (auto simp: run_preflight_def preflight_fold_errors Let_def split: if_splits)
  show thesis
  proof (rule that)
    show "load_entries toml (map Inr (flatten_entries es)) [] = Inr services"
      using preflight_load_load[OF l[unfolded e(1)]] by simp
    show "\<forall>s \<in> set services. set (need_names s) \<subseteq> names_of services"
      using e(3) by (auto simp: filter_empty_conv service_errors_def names_of_def)
  qed (rule e(2))
qed

end
