(* ===== verification/Ctl_Server.thy ===== *)
theory Ctl_Server
  imports Ctl_Proto
begin

text \<open>
  \<open>ctl_server.rs\<close>: one connection of the control socket. What a connection gets from the outside is
  the record \<open>conn\<close>: the credentials of the peer, whether the stream can be cloned, the lines that
  arrive, the shared table (\<open>None\<close> when its lock is poisoned) and, for a command, whether the channel
  to the executor takes it and what comes back, if anything has come back yet: \<open>rx.recv()\<close> waits
  without a limit. A line is decoded by \<open>read_request\<close>. \<open>handle_connection\<close> returns what it
  does, in order, and \<open>start_server\<close> what the whole server does: its calls on the socket, then one list per
  connection, or the error that it logs.
\<close>

text \<open>The texts of an error response, one case per message of the source.\<close>

datatype ctl_error =
    PermissionDenied
  | NotFoundOrNotRunning string
  | ExecutorDisconnected
  | Refused reply_error
  | InvalidRequest string

datatype response =
    RespStatus "service_info list"
  | RespOk bool
  | RespError ctl_error

datatype ctl_action =
    WriteResponse response
  | KillTerm int
  | SendCommand ctl_command

text \<open>What \<open>rx.recv()\<close> has returned so far.\<close>

datatype recv_result = Received "reply_error + unit" | Disconnected | Waiting

record conn =
  cn_getsockopt :: "int \<times> 32 word"
  cn_clone_ok :: bool
  cn_lines :: "(io_error + string) list"
  cn_shared :: "shared_state option"
  cn_send_ok :: bool
  cn_reply :: recv_result
  cn_reply_id :: reply_id

text \<open>The texts on the wire; \<open>debug\<close> and \<open>show_io\<close> print an error of the executor and of the system.\<close>

definition single_quoted :: "string \<Rightarrow> string" where
  "single_quoted s = [CHR 0x27] @ s @ [CHR 0x27]"

definition show_reply_error ::
  "(executor_error \<Rightarrow> string) \<Rightarrow> (io_error \<Rightarrow> string) \<Rightarrow> reply_error \<Rightarrow> string" where
  "show_reply_error debug show_io e =
     (case e of
        AlreadyRunning service \<Rightarrow> ''service '' @ single_quoted service @ '' is already running''
      | UnknownService service \<Rightarrow> ''unknown service '' @ single_quoted service
      | SpawnFailed err \<Rightarrow> ''spawn failed: '' @ debug err
      | CannotRead path err \<Rightarrow> ''cannot read '' @ quoted path @ '': '' @ show_io err
      | ParseError msg \<Rightarrow> ''parse error: '' @ msg)"

definition show_ctl_error ::
  "(executor_error \<Rightarrow> string) \<Rightarrow> (io_error \<Rightarrow> string) \<Rightarrow> ctl_error \<Rightarrow> string" where
  "show_ctl_error debug show_io e =
     (case e of
        PermissionDenied \<Rightarrow> ''permission denied: root access required''
      | NotFoundOrNotRunning service \<Rightarrow> ''service '' @ single_quoted service @ '' not found or not running''
      | ExecutorDisconnected \<Rightarrow> ''executor disconnected''
      | Refused err \<Rightarrow> show_reply_error debug show_io err
      | InvalidRequest msg \<Rightarrow> ''invalid request: '' @ msg)"

section \<open>Binding the socket\<close>

datatype bind_action = BindMkdir string | BindRemove string | BindListen string | BindChmod string "32 word"

record bind_env =
  be_mkdir :: "io_error option"
  be_bind :: "io_error option"
  be_chmod :: "io_error option"

definition CTL_SOCKET_PATH :: string where
  "CTL_SOCKET_PATH = ''/run/flint/ctl.sock''"

text \<open>The mode \<open>0o600\<close> is \<open>0x180\<close>.\<close>

definition bind_rest :: "bind_env \<Rightarrow> string \<Rightarrow> bind_action list \<times> (io_error + unit)" where
  "bind_rest be sock_path =
     (case be_bind be of
        Some e \<Rightarrow> ([BindRemove sock_path, BindListen sock_path], Inl e)
      | None \<Rightarrow>
          ([BindRemove sock_path, BindListen sock_path, BindChmod sock_path 0x180],
           case be_chmod be of Some e \<Rightarrow> Inl e | None \<Rightarrow> Inr ()))"

definition bind_socket :: "bind_env \<Rightarrow> string \<Rightarrow> bind_action list \<times> (io_error + unit)" where
  "bind_socket be sock_path =
     (case path_parent sock_path of
        None \<Rightarrow> bind_rest be sock_path
      | Some parent \<Rightarrow>
          (case be_mkdir be of
             Some e \<Rightarrow> ([BindMkdir parent], Inl e)
           | None \<Rightarrow> (case bind_rest be sock_path of (acts, r) \<Rightarrow> (BindMkdir parent # acts, r))))"

text \<open>The return value of \<open>getsockopt\<close> and the uid it filled in.\<close>

definition get_peer_uid :: "conn \<Rightarrow> 32 word option" where
  "get_peer_uid cn = (case cn_getsockopt cn of (ret, uid) \<Rightarrow> if ret = 0 then Some uid else None)"

section \<open>handle\_connection\<close>

text \<open>\<open>cmd_tx.send(..)\<close> and \<open>rx.recv()\<close>, the same for the three commands.\<close>

definition forward :: "conn \<Rightarrow> ctl_command \<Rightarrow> ctl_action list \<times> response option" where
  "forward cn cmd =
     (if \<not> cn_send_ok cn then ([], Some (RespError ExecutorDisconnected))
      else ([SendCommand cmd],
            case cn_reply cn of
              Received (Inr _) \<Rightarrow> Some (RespOk True)
            | Received (Inl e) \<Rightarrow> Some (RespError (Refused e))
            | Disconnected \<Rightarrow> Some (RespError ExecutorDisconnected)
            | Waiting \<Rightarrow> None))"

definition shared_values :: "conn \<Rightarrow> service_info list" where
  "shared_values cn = (case cn_shared cn of None \<Rightarrow> [] | Some m \<Rightarrow> map snd m)"

definition shared_pid :: "conn \<Rightarrow> string \<Rightarrow> 32 word option" where
  "shared_pid cn service = Option.bind (cn_shared cn) (\<lambda>m. Option.bind (map_of m service) si_pid)"

definition answer ::
  "json_lib \<Rightarrow> conn \<Rightarrow> string \<Rightarrow> ctl_action list \<times> response option" where
  "answer jl cn line =
     (case read_request jl line of
        Inr ReqStatus \<Rightarrow> ([], Some (RespStatus (shared_values cn)))
      | Inr (ReqStop service) \<Rightarrow>
          (case shared_pid cn service of
             Some p \<Rightarrow> ([KillTerm (sint p)], Some (RespOk True))
           | None \<Rightarrow> ([], Some (RespError (NotFoundOrNotRunning service))))
      | Inr (ReqStart service) \<Rightarrow> forward cn (CmdStart service (cn_reply_id cn))
      | Inr (ReqRestart service) \<Rightarrow> forward cn (CmdRestart service (cn_reply_id cn))
      | Inr (ReqReload service) \<Rightarrow> forward cn (CmdReload service (cn_reply_id cn))
      | Inl e \<Rightarrow> ([], Some (RespError (InvalidRequest e))))"

definition serve_lines :: "json_lib \<Rightarrow> conn \<Rightarrow> ctl_action list" where
  "serve_lines jl cn =
     (if \<not> cn_clone_ok cn then []
      else (case cn_lines cn of
              [] \<Rightarrow> []
            | Inl _ # _ \<Rightarrow> []
            | Inr line # _ \<Rightarrow>
                (case answer jl cn line of (acts, resp) \<Rightarrow>
                   acts @ (case resp of None \<Rightarrow> [] | Some r \<Rightarrow> [WriteResponse r]))))"

definition handle_connection ::
  "json_lib \<Rightarrow> bool \<Rightarrow> conn \<Rightarrow> ctl_action list" where
  "handle_connection jl require_root cn =
     (if require_root \<and> get_peer_uid cn \<noteq> Some 0 then
        (if cn_clone_ok cn then [WriteResponse (RespError PermissionDenied)] else [])
      else serve_lines jl cn)"

text \<open>\<open>serve\<close> binds the socket and then spawns a thread per accepted connection, with the root check on.\<close>

definition serve ::
  "json_lib \<Rightarrow> bind_env \<Rightarrow> (io_error + conn) list
    \<Rightarrow> bind_action list \<times> (io_error + ctl_action list list)" where
  "serve jl be incoming =
     (case bind_socket be CTL_SOCKET_PATH of
        (acts, Inl e) \<Rightarrow> (acts, Inl e)
      | (acts, Inr _) \<Rightarrow> (acts, Inr [handle_connection jl True cn. Inr cn \<leftarrow> incoming]))"

text \<open>The body of the thread that \<open>start\<close> spawns: an error of \<open>serve\<close> ends it with a line in the log.\<close>

datatype server_end = ServerLogged io_error | Served "ctl_action list list"

definition start_server ::
  "json_lib \<Rightarrow> bind_env \<Rightarrow> (io_error + conn) list \<Rightarrow> bind_action list \<times> server_end" where
  "start_server jl be incoming =
     (case serve jl be incoming of
        (acts, Inl e) \<Rightarrow> (acts, ServerLogged e)
      | (acts, Inr traces) \<Rightarrow> (acts, Served traces))"

lemma start_server_Served:
  "start_server jl be incoming = (acts, Served traces) \<Longrightarrow> serve jl be incoming = (acts, Inr traces)"
  by (auto simp: start_server_def split: prod.splits sum.splits)

lemma bind_socket_ok: "bind_socket be p = (acts, Inr ()) \<Longrightarrow> last acts = BindChmod p 0x180"
  by (auto simp: bind_socket_def bind_rest_def split: option.splits)

lemma refused: "get_peer_uid cn \<noteq> Some 0 \<Longrightarrow> a \<in> set (handle_connection jl True cn) \<Longrightarrow>
    a = WriteResponse (RespError PermissionDenied)"
  by (auto simp: handle_connection_def split: if_splits)

lemma serve_Inr:
  assumes "serve jl be incoming = (acts, Inr traces)"
  shows "bind_socket be CTL_SOCKET_PATH = (acts, Inr ())"
    "Inr cn \<in> set incoming \<Longrightarrow> handle_connection jl True cn \<in> set traces"
proof -
  obtain acts' r where r: "bind_socket be CTL_SOCKET_PATH = (acts', r)" by fastforce
  with assms show "bind_socket be CTL_SOCKET_PATH = (acts, Inr ())"
    by (cases r) (simp_all add: serve_def)
  have "traces = [handle_connection jl True cn. Inr cn \<leftarrow> incoming]"
    using assms r by (cases r) (simp_all add: serve_def)
  then show "handle_connection jl True cn \<in> set traces" if "Inr cn \<in> set incoming"
    using that by simp (metis (no_types, lifting) list.set_intros(1) sum.case(2))
qed

lemmas stop_simps = answer_def shared_pid_def sync_state_def sync_info_def

end
