(* ===== verification/Json_Samples.thy ===== *)
theory Json_Samples
  imports Ctl_Proto
begin

text \<open>
  A small JSON library on which the witnesses and the replayed tests evaluate the protocol: objects whose
  values are strings, without escapes. It reads what it prints.
\<close>

definition print_fields :: "(string \<times> json) list \<Rightarrow> string" where
  "print_fields members =
     join '','' (map (\<lambda>(k, v). quoted k @ '':'' @ (case v of JString s \<Rightarrow> quoted s | _ \<Rightarrow> ''null'')) members)"

definition sample_print :: "json \<Rightarrow> string" where
  "sample_print v = (case v of JObject members \<Rightarrow> ''{'' @ print_fields members @ ''}'' | _ \<Rightarrow> ''null'')"

text \<open>The pieces between quotation marks.\<close>

fun read_fields :: "string list \<Rightarrow> (string \<times> json) list option" where
  "read_fields (k # colon # v # next_piece # pieces) =
     (if colon \<noteq> '':'' then None
      else if next_piece = ''}'' \<and> pieces = [] then Some [(k, JString v)]
      else if next_piece = '','' then map_option (\<lambda>fs. (k, JString v) # fs) (read_fields pieces)
      else None)"
| "read_fields _ = None"

definition sample_parse :: "string \<Rightarrow> string + json" where
  "sample_parse line =
     (case split_on CHR 0x22 line of
        first # pieces \<Rightarrow>
          if first = ''{'' then
            (case read_fields pieces of Some members \<Rightarrow> Inr (JObject members) | None \<Rightarrow> Inl ''expected value'')
          else Inl ''expected value''
      | [] \<Rightarrow> Inl ''expected value'')"

definition sample_json :: json_lib where
  "sample_json = \<lparr>json_print = sample_print, json_pretty = (\<lambda>v. Some (sample_print v)), json_parse = sample_parse,
     json_array = (\<lambda>_. Inl ''invalid length''), json_refuse = (\<lambda>_. ''missing field'')\<rparr>"

lemma sample_json_reads_back:
  "read_request sample_json (sample_print (JObject [(''service'', JString ''sshd''), (''cmd'', JString ''stop'')])) =
     Inr (ReqStop ''sshd'')"
  "read_request sample_json (sample_print (JObject [(''cmd'', JString ''Stop''), (''service'', JString ''sshd'')])) =
     Inl ''missing field''"
  "read_request sample_json (sample_print (JObject [(''cmd'', JString ''stop''), (''name'', JString ''sshd'')])) =
     Inl ''missing field''"
  by code_simp+

end
