(* ===== verification/Tools_Properties.thy ===== *)
theory Tools_Properties
  imports Check Fstab Ctl_Server Json_Samples Samples
begin

text \<open>
  The properties of the loader, of \<open>flint-ctl check\<close>, of the control server and of the fstab
  handling.
\<close>

section \<open>The loader\<close>

text \<open>C29: what \<open>load_services_from_dir\<close> returns is safe to delete files for: every readiness path of
  every returned definition has no \<open>..\<close> component and lies, component by component, below \<open>/run\<close> or
  \<open>/var/run\<close>; and the definitions are those of all \<open>.toml\<close> files, in directory order.\<close>

theorem loader_returns_validated:
  assumes "load_services_from_dir toml (Inr es) = Inr services"
  shows "(\<forall>d \<in> set services. \<forall>p. sd_ready_path d = Some p \<longrightarrow> below_run p) \<and>
    map Inr services = map (\<lambda>d. case de_content d of Inl e \<Rightarrow> Inl e
      | Inr c \<Rightarrow> map_sum (\<lambda>_. 0) id (toml (trim_end_matches is_nul c))) (toml_entries es)"
proof -
  have l: "load_entries toml es [] = Inr services"
    using assms by (simp add: load_services_from_dir_def)
  have "validate d = Inr ()" if "d \<in> set services" for d
    using load_entries_validated[OF l] that by simp
  then show ?thesis using validate_below_run load_entries_all[OF l] by auto
qed

definition run_service :: service_def where
  "run_service = (sample_service ''dbus'' [] [] None)
     \<lparr>sd_ready := Some \<lparr>rd_strategy = Socket, rd_path = Some ''/run/dbus/socket''\<rparr>\<rparr>"

definition run_dir :: "(io_error + dirent) list" where
  "run_dir = [Inr \<lparr>de_name = ''dbus.toml'', de_content = Inr ''x'', de_mtime = Inr 0\<rparr>]"

theorem loader_returns_validated_witness:
  "load_services_from_dir (\<lambda>_. Inr run_service) (Inr run_dir) = Inr [run_service] \<and>
   below_run ''/run/dbus/socket''"
proof -
  have l: "load_services_from_dir (\<lambda>_. Inr run_service) (Inr run_dir) = Inr [run_service]" by code_simp
  have "sd_ready_path run_service = Some ''/run/dbus/socket''" by code_simp
  with loader_returns_validated[OF l] l show ?thesis by simp
qed

section \<open>flint-ctl check\<close>

text \<open>C22: the cycle test of \<open>flint-ctl check\<close> agrees with the boot: for all services and all hash
  iteration orders on both sides, it reports a cycle exactly when building the graph would fail.\<close>

theorem check_cycle_agrees_with_build:
  assumes "is_hash_order ho" "is_hash_order ho'"
  shows "has_cycle ho services \<longleftrightarrow> \<not> (\<exists>g. build ho' services = Ok g)"
  using has_cycle_build[OF assms] .

theorem check_cycle_agrees_with_build_witness:
  "has_cycle sample_order two_cycle \<and> \<not> (\<exists>g. build sample_order two_cycle = Ok g)"
proof -
  have "has_cycle sample_order two_cycle" by code_simp
  with check_cycle_agrees_with_build[OF sample_order_ok sample_order_ok] show ?thesis by blast
qed

section \<open>The control server\<close>

text \<open>C21: only root is served. Whenever the server of the running system serves connections, its socket
  was made accessible to its owner only before the first of them; a peer whose uid is not 0 or cannot
  be determined then gets at most the refusal: no signal is sent and no command reaches the executor,
  whatever it writes.\<close>

theorem ctl_requires_root:
  assumes "start_server jl be incoming = (acts, Served traces)" "Inr cn \<in> set incoming"
    "get_peer_uid cn \<noteq> Some 0"
  shows "last acts = BindChmod CTL_SOCKET_PATH 0x180 \<and> handle_connection jl True cn \<in> set traces \<and>
    (\<forall>a \<in> set (handle_connection jl True cn). a = WriteResponse (RespError PermissionDenied))"
proof -
  note s = serve_Inr[OF start_server_Served[OF assms(1)]]
  from bind_socket_ok[OF s(1)] s(2)[OF assms(2)] refused[OF assms(3)] show ?thesis by blast
qed

definition sample_conn :: conn where
  "sample_conn = \<lparr>cn_getsockopt = (0, 1000), cn_clone_ok = True, cn_lines = [Inr (sample_print (JObject [(''cmd'', JString ''stop''), (''service'', JString ''sshd'')]))],
     cn_shared = Some (sync_state ''sshd'' (Running 4242) []), cn_send_ok = True,
     cn_reply = Received (Inr ()), cn_reply_id = 0\<rparr>"

definition bind_ok :: bind_env where
  "bind_ok = \<lparr>be_mkdir = None, be_bind = None, be_chmod = None\<rparr>"

theorem ctl_requires_root_witness:
  "\<exists>acts. start_server sample_json bind_ok [Inr sample_conn] =
     (acts, Served [[WriteResponse (RespError PermissionDenied)]]) \<and>
   last acts = BindChmod CTL_SOCKET_PATH 0x180 \<and>
   list_all (\<lambda>a. a = WriteResponse (RespError PermissionDenied)) (handle_connection sample_json True sample_conn)"
proof -
  have "case start_server sample_json bind_ok [Inr sample_conn] of
      (acts, Served ts) \<Rightarrow> ts = [[WriteResponse (RespError PermissionDenied)]] | _ \<Rightarrow> False" by code_simp
  then obtain acts where s: "start_server sample_json bind_ok [Inr sample_conn] =
      (acts, Served [[WriteResponse (RespError PermissionDenied)]])" by (auto split: prod.splits server_end.splits)
  have g: "get_peer_uid sample_conn \<noteq> Some 0" by code_simp
  have "Inr sample_conn \<in> set [Inr sample_conn]" by simp
  from ctl_requires_root[OF s this g] s show ?thesis unfolding list_all_iff by blast
qed

section \<open>fstab\<close>

text \<open>C33: a line of \<open>/etc/fstab\<close> is read back as it was written: for an entry whose four fields are
  words and whose first field does not begin with \<open>#\<close>, the file that holds its line parses to exactly
  this entry.\<close>

theorem fstab_line_roundtrip:
  assumes "is_word (fs_spec e)" "is_word (fs_file e)" "is_word (fs_vfstype e)" "is_word (fs_options e)"
    "\<not> starts_with (fs_spec e) ''#''"
  shows "parse_fstab (render_entry e) = [e]"
proof -
  have r: "render_entry e = fs_spec e @ CHR '' '' # join '' '' [fs_file e, fs_vfstype e, fs_options e, ''0'', ''0'']"
    by (simp add: render_entry_def)
  obtain c cs where c: "fs_spec e = c # cs" "\<not> is_whitespace c"
    using assms(1) by (cases "fs_spec e") (auto simp: is_word_def)
  have nl: "CHR 0x0A \<notin> set (render_entry e)"
    using assms(1-4) word_no_newline by (auto simp: render_entry_def)
  have "lines (render_entry e) = [render_entry e]"
    using lines_single[OF nl] r c by (auto simp: render_entry_def)
  moreover have "keep_line (render_entry e)"
  proof -
    have ts: "trim_start (render_entry e) = render_entry e" using c by (simp add: trim_start_def r)
    have "c \<in> set (render_entry e)" using c by (simp add: r)
    then have "trim (render_entry e) \<noteq> []"
      using c(2) unfolding trim_def ts trim_end_matches_def by (auto simp: dropWhile_eq_Nil_conv)
    moreover have "\<not> starts_with (render_entry e) ''#''"
      using c assms(5) by (simp add: r starts_with_def)
    ultimately show ?thesis by (simp add: keep_line_def ts)
  qed
  ultimately show ?thesis
    using parse_line_render[OF assms(1-4)] by (simp add: parse_fstab_def List.map_filter_def)
qed

definition home_entry :: fstab_entry where
  "home_entry = \<lparr>fs_spec = ''UUID=ab'', fs_file = ''/home'', fs_vfstype = ''ext4'',
     fs_options = ''rw,nosuid,data=ordered''\<rparr>"

theorem fstab_line_roundtrip_witness: "parse_fstab (render_entry home_entry) = [home_entry]"
proof -
  have w: "is_word (fs_spec home_entry)" "is_word (fs_file home_entry)" "is_word (fs_vfstype home_entry)"
    "is_word (fs_options home_entry)" "\<not> starts_with (fs_spec home_entry) ''#''" by code_simp+
  show ?thesis by (rule fstab_line_roundtrip[OF w])
qed

text \<open>What is mounted. Every mount call of the boot is for an entry of the file that is not the
  root, not of a virtual type and not \<open>noauto\<close>, and it is preceded by the creation of its mount
  point.\<close>

lemma fstab_mounts_only_auto:
  "\<exists>es. set es \<subseteq> set (parse_fstab s) \<and> mount_all (Inr s) = concat (map mount_entry es) \<and>
     list_all (\<lambda>e. fs_file e \<noteq> ''/'' \<and> fs_vfstype e \<notin> set VIRTUAL_TYPES \<and>
       ''noauto'' \<notin> set (map trim (split_on (CHR '','') (fs_options e))) \<and>
       map (\<lambda>c. case c of CreateDirAll d \<Rightarrow> d | Mount _ f _ _ _ \<Rightarrow> f) (mount_entry e) =
         [fs_file e, fs_file e]) es"
  by (rule exI[of _ "filter should_mount (parse_fstab s)"])
    (auto simp: mount_all_def list_all_iff should_mount_def list_ex_iff mount_entry_def
      split: if_splits prod.split)

fun option_bit :: "string \<Rightarrow> nat option" where
  "option_bit opt =
     map_of [(''ro'', 0), (''nosuid'', 1), (''nodev'', 2), (''noexec'', 3), (''sync'', 4),
       (''relatime'', 21), (''strictatime'', 24)] opt"

text \<open>C34: the flag word passed to \<open>mount\<close> has exactly the bits of the options that are named: bit by
  bit, a bit is set if and only if one of the comma-separated options stands for it.\<close>

theorem mount_flags_exact:
  "bit (fst (parse_flags options)) n \<longleftrightarrow>
     (\<exists>opt. opt \<in> set (split_on (CHR '','') options) \<and> option_bit (trim opt) = Some n)"
proof -
  have one: "bit (fst (parse_option opt (0, []))) n \<longleftrightarrow> option_bit (trim opt) = Some n" for opt
    by (auto simp: parse_option_def Let_def ms_flag_bits)
  have "fst (parse_flags options) = fst (fold parse_option (split_on (CHR '','') options) (0, []))"
    by (simp add: parse_flags_def split: prod.split)
  then show ?thesis by (auto simp: fold_parse_option_flags one)
qed

end
