(* ===== verification/Pid1.thy ===== *)
theory Pid1
  imports Fstab Service_Def "HOL-Library.Word"
begin

text \<open>
  \<open>pid1.rs\<close>: what the init process does around the executor. \<open>setup\<close> mounts the kernel file systems
  and creates the directories of \<open>tmpfiles.d\<close>; \<open>supervise_forever\<close> unmounts, asks the kernel to reboot
  or halt and then reaps. Each function returns the system calls it makes, in order; what they return
  is the input: the fields of \<open>setup_env\<close> and \<open>exit_env\<close>. Log lines are left out.

  The lemmas show which calls \<open>setup\<close> makes on every branch, that a line of \<open>tmpfiles.d\<close> is read as it
  was written, and in which order the file systems are detached.
\<close>

section \<open>tmpfiles.d\<close>

datatype pid1_action =
    MakeDir string
  | MountFs string string string "string option"
  | MakeDirMode string "32 word"
  | Symlink string string
  | Dup2 int int
  | CloseFd int
  | FstabCall mount_call

text \<open>The default mode \<open>0o755\<close> is \<open>0x1ED\<close>.\<close>

definition tmpfiles_line :: "string \<Rightarrow> (string \<times> 32 word) option" where
  "tmpfiles_line l =
     (let line = trim l
      in if starts_with line ''#'' \<or> line = [] then None
         else (case split_whitespace line of
                 kind # dir_path # rest \<Rightarrow>
                   if kind \<noteq> ''d'' \<and> kind \<noteq> ''D'' then None
                   else Some (dir_path,
                     case Option.bind (case rest of [] \<Rightarrow> None | m # _ \<Rightarrow> Some m) (\<lambda>m. from_str_radix m 8) of
                       Some mode \<Rightarrow> of_nat mode
                     | None \<Rightarrow> 0x1ED)
               | _ \<Rightarrow> None))"

text \<open>The action is the call, with the mode that it asks for; the kernel takes the bits of the umask out of
  it, which is not modelled.\<close>

definition tmpfiles_dir :: "io_error + (io_error + dirent) list \<Rightarrow> pid1_action list" where
  "tmpfiles_dir rd =
     (case rd of
        Inl _ \<Rightarrow> []
      | Inr es \<Rightarrow>
          [MakeDirMode dir mode.
             Inr entry \<leftarrow> es, path_extension (de_name entry) = Some ''conf'',
             content \<leftarrow> (case de_content entry of Inl _ \<Rightarrow> [] | Inr c \<Rightarrow> [c]),
             Some (dir, mode) \<leftarrow> map tmpfiles_line (lines content)])"

text \<open>The two directories, \<open>/usr/lib/tmpfiles.d\<close> before \<open>/etc/tmpfiles.d\<close>.\<close>

definition apply_tmpfiles ::
  "io_error + (io_error + dirent) list \<Rightarrow> io_error + (io_error + dirent) list \<Rightarrow> pid1_action list" where
  "apply_tmpfiles usr etc = tmpfiles_dir usr @ tmpfiles_dir etc"

section \<open>setup\<close>

record setup_env =
  se_pid :: "32 word"
  se_mkdir :: "string \<Rightarrow> io_error option"
  se_mount :: "string \<Rightarrow> int option"
  se_tmp_usr :: "io_error + (io_error + dirent) list"
  se_tmp_etc :: "io_error + (io_error + dirent) list"
  se_kmsg :: "io_error + int"
  se_fstab :: "int + string"

datatype setup_error = CreateFailed string io_error | MountFailed string int

definition EBUSY :: int where
  "EBUSY = 16"

text \<open>One of the five blocks: create the directory, mount, and take \<open>EBUSY\<close> for mounted already. Any
  other error is returned, unless the block only logs it.\<close>

definition mount_block ::
  "setup_env \<Rightarrow> bool \<Rightarrow> string \<Rightarrow> string \<Rightarrow> string option \<Rightarrow> pid1_action list \<times> (setup_error + unit)" where
  "mount_block env fatal fstype target data =
     (case se_mkdir env target of
        Some e \<Rightarrow> ([MakeDir target], Inl (CreateFailed target e))
      | None \<Rightarrow>
          ([MakeDir target, MountFs fstype target fstype data],
           case se_mount env target of
             None \<Rightarrow> Inr ()
           | Some e \<Rightarrow> if e = EBUSY \<or> \<not> fatal then Inr () else Inl (MountFailed target e)))"

text \<open>\<open>?\<close> between two blocks.\<close>

definition then_block ::
  "pid1_action list \<times> (setup_error + unit) \<Rightarrow> pid1_action list \<times> (setup_error + unit)
    \<Rightarrow> pid1_action list \<times> (setup_error + unit)" where
  "then_block a b = (case snd a of Inl e \<Rightarrow> a | Inr _ \<Rightarrow> (fst a @ fst b, snd b))"

definition dev_links :: "pid1_action list" where
  "dev_links =
     [Symlink ''/proc/self/fd'' ''/dev/fd'', Symlink ''/proc/self/fd/0'' ''/dev/stdin'',
      Symlink ''/proc/self/fd/1'' ''/dev/stdout'', Symlink ''/proc/self/fd/2'' ''/dev/stderr'']"

definition redirect_log :: "setup_env \<Rightarrow> pid1_action list" where
  "redirect_log env = (case se_kmsg env of Inl _ \<Rightarrow> [] | Inr fd \<Rightarrow> [Dup2 fd 2, CloseFd fd])"

definition pid1_setup :: "setup_env \<Rightarrow> pid1_action list \<times> (setup_error + unit)" where
  "pid1_setup env =
     (if se_pid env \<noteq> 1 then ([], Inr ())
      else
        then_block (mount_block env True ''proc'' ''/proc'' None)
        (then_block (mount_block env True ''sysfs'' ''/sys'' None)
        (then_block (mount_block env True ''tmpfs'' ''/run'' (Some ''mode=755,size=128m''))
        (then_block (apply_tmpfiles (se_tmp_usr env) (se_tmp_etc env), Inr ())
        (then_block (mount_block env False ''cgroup2'' ''/sys/fs/cgroup'' None)
        (then_block (mount_block env True ''devtmpfs'' ''/dev'' None)
          (dev_links @ redirect_log env @ map FstabCall (mount_all (se_fstab env)), Inr ())))))))"

section \<open>unmount\_all\<close>

datatype reboot_mode = RB_AUTOBOOT | RB_HALT_SYSTEM

datatype exit_action = UmountDetach string | SyncAll | Reboot reboot_mode

definition SKIP_TYPES :: "string list" where
  "SKIP_TYPES =
     [''proc'', ''sysfs'', ''devtmpfs'', ''devpts'', ''cgroup'', ''cgroup2'', ''tmpfs'', ''efivarfs'',
      ''bpf'', ''debugfs'', ''pstore'', ''securityfs'', ''hugetlbfs'', ''mqueue'', ''tracefs'',
      ''fusectl'', ''rootfs'']"

definition mount_point :: "string \<Rightarrow> string option" where
  "mount_point line =
     (case split_whitespace line of
        _ # mountpoint # vfstype # _ \<Rightarrow>
          if mountpoint = ''/'' then None
          else if vfstype \<in> set SKIP_TYPES then None
          else Some mountpoint
      | _ \<Rightarrow> None)"

definition unmount_all :: "io_error + string \<Rightarrow> exit_action list" where
  "unmount_all mounts =
     (case mounts of
        Inl _ \<Rightarrow> []
      | Inr s \<Rightarrow> map UmountDetach (rev (List.map_filter mount_point (lines s))) @ [SyncAll])"

section \<open>supervise\_forever\<close>

text \<open>\<open>xe_mounts\<close> is what the first and the second reading of \<open>/proc/mounts\<close> return, and \<open>xe_reboot\<close>
  tells for the first and the second request whether the kernel honours it; then nothing follows.\<close>

record exit_env =
  xe_on_exit :: "string option"
  xe_mounts :: "nat \<Rightarrow> io_error + string"
  xe_reboot :: "nat \<Rightarrow> bool"

definition exit_mode :: "string option \<Rightarrow> reboot_mode" where
  "exit_mode v = (if v = Some ''reboot'' then RB_AUTOBOOT else RB_HALT_SYSTEM)"

datatype wait_result = WaitExited int int | WaitSignaled int int | WaitNone

datatype reap_action = Reaped int | SleepMs nat

fun reap_step :: "wait_result \<Rightarrow> reap_action" where
  "reap_step (WaitExited pid code) = Reaped pid"
| "reap_step (WaitSignaled pid sig) = Reaped pid"
| "reap_step WaitNone = SleepMs 100"

text \<open>The endless loop, on the results of \<open>waitpid\<close> so far.\<close>

definition reap_loop :: "wait_result list \<Rightarrow> reap_action list" where
  "reap_loop ws = map reap_step ws"

definition supervise_forever ::
  "exit_env \<Rightarrow> bool \<Rightarrow> wait_result list \<Rightarrow> exit_action list \<times> reap_action list" where
  "supervise_forever env reboot ws =
     (let first = (if reboot then unmount_all (xe_mounts env 0) @ [Reboot RB_AUTOBOOT] else []);
          k = (if reboot then 1 else 0)
      in if reboot \<and> xe_reboot env 0 then (first, [])
         else
           (let acts = first @ unmount_all (xe_mounts env k) @ [Reboot (exit_mode (xe_on_exit env))]
            in if xe_reboot env k then (acts, []) else (acts, reap_loop ws)))"

section \<open>Reading tmpfiles.d\<close>

definition render_tmpfiles :: "string \<times> 32 word \<Rightarrow> string" where
  "render_tmpfiles dm = join '' '' [''d'', fst dm, show_radix 8 (unat (snd dm))]"

lemma show_radix_not_ws:
  assumes "c \<in> set (show_radix 8 n)"
  shows "\<not> is_whitespace c"
proof -
  have "\<not> is_whitespace (digit_char d)" if "d < 8" for d
  proof -
    have "d \<in> {0, 1, 2, 3, 4, 5, 6, 7}" using that by auto
    then show ?thesis by (auto simp: digit_char_def is_whitespace_def char_of_def)
  qed
  then show ?thesis using assms
  proof (induction "8::nat" n rule: show_radix.induct)
    case (1 n)
    show ?case
      using "1.prems"(2) "1.hyps" "1.prems"(1) show_radix.simps[of 8 n]
      by (cases "n < 8") (auto simp: not_less)
  qed
qed

lemma is_word_show [simp]: "is_word (show_radix 8 n)"
proof -
  have "show_radix 8 n \<noteq> []" by (subst show_radix.simps) simp
  then show ?thesis using show_radix_not_ws by (auto simp: is_word_def list_all_iff)
qed

lemma is_word_d: "is_word ''d''"
  by (simp add: is_word_def is_whitespace_def)

lemma trim_id:
  assumes "\<not> is_whitespace (hd s)" "\<not> is_whitespace (last s)" "s \<noteq> []"
  shows "trim s = s"
proof -
  have "dropWhile is_whitespace s = s" using assms by (cases s) auto
  moreover have "dropWhile is_whitespace (rev s) = rev s"
    using assms by (cases "rev s") (auto simp: hd_rev[symmetric])
  ultimately show ?thesis by (simp add: trim_def trim_start_def trim_end_matches_def)
qed

lemma render_last_not_ws: "\<not> is_whitespace (last (render_tmpfiles dm))"
proof -
  have "show_radix 8 (unat (snd dm)) \<noteq> []" using is_word_show by (auto simp: is_word_def)
  then have "last (render_tmpfiles dm) \<in> set (show_radix 8 (unat (snd dm)))"
    by (simp add: render_tmpfiles_def)
  then show ?thesis by (rule show_radix_not_ws)
qed

lemma tmpfiles_line_render:
  assumes "is_word (fst dm)"
  shows "tmpfiles_line (render_tmpfiles dm) = Some dm"
proof -
  let ?ws = "[''d'', fst dm, show_radix 8 (unat (snd dm))]"
  have sp: "split_whitespace (render_tmpfiles dm) = ?ws"
    unfolding render_tmpfiles_def using assms is_word_d by (intro split_whitespace_join) simp
  have "trim (render_tmpfiles dm) = render_tmpfiles dm"
    using render_last_not_ws[of dm] by (intro trim_id) (simp_all add: render_tmpfiles_def is_whitespace_def)
  moreover have "from_str_radix (show_radix 8 (unat (snd dm))) 8 = Some (unat (snd dm))"
    by (intro from_str_radix_show) (simp_all add: order.strict_trans2[OF unsigned_less])
  ultimately show ?thesis
    using sp by (simp add: tmpfiles_line_def Let_def render_tmpfiles_def starts_with_def)
qed

lemma tmpfiles_conf_render:
  assumes "\<And>dm. dm \<in> set dms \<Longrightarrow> is_word (fst dm)"
  shows "map tmpfiles_line (lines (unlines (map render_tmpfiles dms))) = map Some dms"
proof -
  have "CHR 0x0A \<notin> set (render_tmpfiles dm)" if "dm \<in> set dms" for dm
    using word_no_newline[OF assms[OF that]] word_no_newline[OF is_word_show]
    by (auto simp: render_tmpfiles_def)
  moreover have "\<not> ends_with (render_tmpfiles dm) [CHR 0x0D]" for dm
    using render_last_not_ws[of dm] by (auto simp: ends_with_iff is_whitespace_def)
  ultimately have "lines (unlines (map render_tmpfiles dms)) = map render_tmpfiles dms"
    by (intro lines_unlines) auto
  then show ?thesis using assms tmpfiles_line_render by simp
qed

section \<open>The branches of setup\<close>

definition kernel_mounts :: "(string \<times> string \<times> string option) list" where
  "kernel_mounts =
     [(''proc'', ''/proc'', None), (''sysfs'', ''/sys'', None),
      (''tmpfs'', ''/run'', Some ''mode=755,size=128m''), (''cgroup2'', ''/sys/fs/cgroup'', None),
      (''devtmpfs'', ''/dev'', None)]"

definition block_ok :: "setup_env \<Rightarrow> bool \<Rightarrow> string \<Rightarrow> bool" where
  "block_ok env fatal target \<longleftrightarrow>
     se_mkdir env target = None \<and> (fatal \<longrightarrow> se_mount env target \<in> {None, Some EBUSY})"

lemma mount_block_ok:
  "block_ok env fatal target \<Longrightarrow>
     mount_block env fatal fstype target data =
       ([MakeDir target, MountFs fstype target fstype data], Inr ())"
  by (auto simp: block_ok_def mount_block_def split: option.split)

lemma mount_block_fails:
  "\<not> block_ok env fatal target \<Longrightarrow> \<exists>e. snd (mount_block env fatal fstype target data) = Inl e"
  by (auto simp: block_ok_def mount_block_def split: option.split)

lemma then_block_fails: "snd a = Inl e \<Longrightarrow> then_block a b = a"
  by (simp add: then_block_def)

lemma then_block_ok [simp]: "then_block (acts, Inr ()) b = (acts @ fst b, snd b)"
  by (simp add: then_block_def)

lemma then_block_Inr: "snd (then_block a b) = Inr () \<longleftrightarrow> snd a = Inr () \<and> snd b = Inr ()"
  by (auto simp: then_block_def split: sum.split)

lemma mount_block_Inr: "snd (mount_block env fatal fstype target data) = Inr () \<longleftrightarrow> block_ok env fatal target"
  using mount_block_ok mount_block_fails by (metis Inr_Inl_False snd_conv)

lemma pid1_setup_Inr:
  assumes "se_pid env = 1"
  shows "snd (pid1_setup env) = Inr () \<longleftrightarrow>
    block_ok env True ''/proc'' \<and> block_ok env True ''/sys'' \<and> block_ok env True ''/run'' \<and>
    block_ok env False ''/sys/fs/cgroup'' \<and> block_ok env True ''/dev''"
  using assms by (simp add: pid1_setup_def then_block_Inr mount_block_Inr)

lemma pid1_setup_calls:
  assumes "se_pid env = 1" "snd (pid1_setup env) = Inr ()"
  shows "fst (pid1_setup env) =
    concat (map (\<lambda>(fs, t, d). [MakeDir t, MountFs fs t fs d]) (take 3 kernel_mounts)) @
    apply_tmpfiles (se_tmp_usr env) (se_tmp_etc env) @
    concat (map (\<lambda>(fs, t, d). [MakeDir t, MountFs fs t fs d]) (drop 3 kernel_mounts)) @
    dev_links @ redirect_log env @ map FstabCall (mount_all (se_fstab env))"
  using assms pid1_setup_Inr[OF assms(1)]
  by (simp add: pid1_setup_def mount_block_ok kernel_mounts_def)

section \<open>The order of detaching\<close>

lemma map_filter_append: "List.map_filter f (xs @ ys) = List.map_filter f xs @ List.map_filter f ys"
  by (simp add: List.map_filter_def)

lemma unmount_all_order:
  assumes "lines s = xs @ l # ys @ k # zs" "mount_point l = Some p" "mount_point k = Some q"
  shows "\<exists>as bs cs. unmount_all (Inr s) = as @ UmountDetach q # bs @ UmountDetach p # cs"
  using assms
  by (fastforce simp: unmount_all_def map_filter_append List.map_filter_simps)

end
