(* ===== verification/Ready.thy ===== *)
theory Ready
  imports Service_Def
begin

text \<open>
  \<open>ready.rs\<close>: the thread that waits for the readiness file of one service. Its inputs are what the two
  existence checks, the inotify calls, the reads of events, the connection attempt and the channel
  return; its result is what it sends and how it ended. The reads are a list: when it is used up, the
  thread still waits.

  The history of the watched directory is a list of operations. \<open>observes\<close> says which inputs a history
  gives: the watch reports the operations that follow its installation, the second check sees the
  file as the operations up to then have left it. The lemmas show that a file that is there in the end
  is never missed, wherever its creation falls between the checks.
\<close>

section \<open>The watcher\<close>

record inotify_event =
  ie_name :: "string option"
  ie_create :: bool
  ie_moved_to :: bool
  ie_close_write :: bool

record watch_input =
  wi_exists1 :: bool
  wi_init :: "io_error option"
  wi_add :: "io_error option"
  wi_exists2 :: bool
  wi_reads :: "(io_error + inotify_event list) list"
  wi_connects :: bool
  wi_send_ok :: bool

datatype ready_error =
    NoParent
  | NoFilename
  | InotifyInit io_error
  | InotifyAdd io_error
  | InotifyRead io_error
  | ChannelClosed

datatype ready_action = ProbeSocket string bool | SendReady string

datatype watch_end = WatchReturned "ready_error + unit" | WatchWaiting

definition probe_unix_socket :: "watch_input \<Rightarrow> string \<Rightarrow> bool" where
  "probe_unix_socket inp path = wi_connects inp"

text \<open>The result of the probe only chooses the log line.\<close>

definition maybe_probe :: "watch_input \<Rightarrow> string \<Rightarrow> bool \<Rightarrow> ready_action list" where
  "maybe_probe inp path probe =
     (if \<not> probe then [] else [ProbeSocket path (probe_unix_socket inp path)])"

text \<open>The three lines that follow each of the three detections.\<close>

definition signal_ready ::
  "watch_input \<Rightarrow> string \<Rightarrow> string \<Rightarrow> bool \<Rightarrow> ready_action list \<times> watch_end" where
  "signal_ready inp path service_name probe =
     (if wi_send_ok inp
      then (maybe_probe inp path probe @ [SendReady service_name], WatchReturned (Inr ()))
      else (maybe_probe inp path probe, WatchReturned (Inl ChannelClosed)))"

definition event_matches :: "string \<Rightarrow> inotify_event \<Rightarrow> bool" where
  "event_matches filename ev =
     (case ie_name ev of
        None \<Rightarrow> False
      | Some name \<Rightarrow> name = filename \<and> (ie_create ev \<or> ie_moved_to ev \<or> ie_close_write ev))"

fun watch_loop ::
  "watch_input \<Rightarrow> string \<Rightarrow> string \<Rightarrow> string \<Rightarrow> bool \<Rightarrow> (io_error + inotify_event list) list
    \<Rightarrow> ready_action list \<times> watch_end" where
  "watch_loop inp path filename service_name probe [] = ([], WatchWaiting)"
| "watch_loop inp path filename service_name probe (Inl e # reads) =
     ([], WatchReturned (Inl (InotifyRead e)))"
| "watch_loop inp path filename service_name probe (Inr events # reads) =
     (if list_ex (event_matches filename) events then signal_ready inp path service_name probe
      else watch_loop inp path filename service_name probe reads)"

definition watch_once ::
  "watch_input \<Rightarrow> string \<Rightarrow> string \<Rightarrow> bool \<Rightarrow> ready_action list \<times> watch_end" where
  "watch_once inp path service_name probe =
     (if wi_exists1 inp then signal_ready inp path service_name probe
      else (case path_parent path of
              None \<Rightarrow> ([], WatchReturned (Inl NoParent))
            | Some parent \<Rightarrow>
                (case path_file_name path of
                   None \<Rightarrow> ([], WatchReturned (Inl NoFilename))
                 | Some filename \<Rightarrow>
                     (case (wi_init inp, wi_add inp) of
                        (Some e, _) \<Rightarrow> ([], WatchReturned (Inl (InotifyInit e)))
                      | (None, Some e) \<Rightarrow> ([], WatchReturned (Inl (InotifyAdd e)))
                      | (None, None) \<Rightarrow>
                          if wi_exists2 inp then signal_ready inp path service_name probe
                          else watch_loop inp path filename service_name probe (wi_reads inp)))))"

text \<open>The body of the spawned threads; an error of \<open>watch_once\<close> is logged.\<close>

definition watch_pidfile :: "watch_input \<Rightarrow> string \<Rightarrow> string \<Rightarrow> ready_action list \<times> watch_end" where
  "watch_pidfile inp path service_name = watch_once inp path service_name False"

definition watch_socket :: "watch_input \<Rightarrow> string \<Rightarrow> string \<Rightarrow> ready_action list \<times> watch_end" where
  "watch_socket inp path service_name = watch_once inp path service_name True"

definition sent :: "ready_action list \<Rightarrow> string list" where
  "sent acts = [n. SendReady n \<leftarrow> acts]"

section \<open>Histories of the watched directory\<close>

datatype dir_op = OpCreate string | OpMovedTo string | OpCloseWrite string | OpRemove string

fun op_present :: "string \<Rightarrow> dir_op \<Rightarrow> bool \<Rightarrow> bool" where
  "op_present f (OpCreate n) b = (n = f \<or> b)"
| "op_present f (OpMovedTo n) b = (n = f \<or> b)"
| "op_present f (OpCloseWrite n) b = b"
| "op_present f (OpRemove n) b = (n \<noteq> f \<and> b)"

definition present :: "string \<Rightarrow> bool \<Rightarrow> dir_op list \<Rightarrow> bool" where
  "present f b ops = fold (op_present f) ops b"

fun op_events :: "dir_op \<Rightarrow> inotify_event list" where
  "op_events (OpCreate n) =
     [\<lparr>ie_name = Some n, ie_create = True, ie_moved_to = False, ie_close_write = False\<rparr>]"
| "op_events (OpMovedTo n) =
     [\<lparr>ie_name = Some n, ie_create = False, ie_moved_to = True, ie_close_write = False\<rparr>]"
| "op_events (OpCloseWrite n) =
     [\<lparr>ie_name = Some n, ie_create = False, ie_moved_to = False, ie_close_write = True\<rparr>]"
| "op_events (OpRemove n) = []"

text \<open>\<open>h1\<close> happens between the first check and the installation of the watch, \<open>h2\<close> between it and the
  second check, \<open>h3\<close> after that; the events arrive in any batches.\<close>

definition observes ::
  "string \<Rightarrow> bool \<Rightarrow> dir_op list \<Rightarrow> dir_op list \<Rightarrow> dir_op list \<Rightarrow> watch_input \<Rightarrow> bool" where
  "observes f b h1 h2 h3 inp \<longleftrightarrow>
     wi_exists1 inp = b \<and> wi_exists2 inp = present f b (h1 @ h2) \<and>
     list_all (\<lambda>r. \<exists>evs. r = Inr evs) (wi_reads inp) \<and>
     [e. Inr evs \<leftarrow> wi_reads inp, e \<leftarrow> evs] = concat (map op_events (h2 @ h3))"

section \<open>Lemmas\<close>

lemma present_append: "present f b (xs @ ys) = present f (present f b xs) ys"
  by (simp add: present_def)

lemma present_creates:
  assumes "present f False ops"
  shows "OpCreate f \<in> set ops \<or> OpMovedTo f \<in> set ops"
  using assms
proof (induction ops rule: rev_induct)
  case (snoc op ops)
  then show ?case by (cases op) (auto simp: present_def)
qed (simp add: present_def)

lemma op_events_match:
  "list_ex (event_matches f) (op_events op) \<longleftrightarrow> op \<in> {OpCreate f, OpMovedTo f, OpCloseWrite f}"
  by (cases op) (auto simp: event_matches_def)

lemma watch_loop_cases:
  assumes "list_all (\<lambda>r. \<exists>evs. r = Inr evs) reads"
  shows "watch_loop inp path f n probe reads =
    (if list_ex (event_matches f) [e. Inr evs \<leftarrow> reads, e \<leftarrow> evs] then signal_ready inp path n probe
     else ([], WatchWaiting))"
  using assms by (induction reads) auto

lemma watch_once_observed:
  assumes "observes f b h1 h2 h3 inp" "path_parent path = Some d" "path_file_name path = Some f"
    "wi_init inp = None" "wi_add inp = None"
  shows "watch_once inp path n probe =
    (if b \<or> present f b (h1 @ h2) \<or> set (h2 @ h3) \<inter> {OpCreate f, OpMovedTo f, OpCloseWrite f} \<noteq> {}
     then signal_ready inp path n probe else ([], WatchWaiting))"
proof -
  have "list_ex (event_matches f) (concat (map op_events ops)) \<longleftrightarrow>
      set ops \<inter> {OpCreate f, OpMovedTo f, OpCloseWrite f} \<noteq> {}" for ops
    by (induction ops) (auto simp: op_events_match)
  note m = this[of "h2 @ h3"]
  show ?thesis
    using assms m unfolding observes_def watch_once_def
    by (auto simp: watch_loop_cases)
qed

lemma sent_signal [simp]:
  "sent (fst (signal_ready inp path n probe)) = (if wi_send_ok inp then [n] else [])"
  by (simp add: signal_ready_def maybe_probe_def sent_def)

lemma present_at_end_detected:
  assumes "present f b (h1 @ h2 @ h3)"
  shows "b \<or> present f b (h1 @ h2) \<or> set (h2 @ h3) \<inter> {OpCreate f, OpMovedTo f, OpCloseWrite f} \<noteq> {}"
proof (cases "present f b (h1 @ h2)")
  case False
  then have "present f False h3" using assms present_append[of f b "h1 @ h2" h3] by simp
  from present_creates[OF this] show ?thesis by auto
qed simp

end
