(* ===== verification/System_Properties.thy ===== *)
theory System_Properties
  imports Pid1 Ready
begin

text \<open>
  The properties of the init process (\<open>pid1.rs\<close>) and of the readiness watchers (\<open>ready.rs\<close>).
\<close>

section \<open>The init process\<close>

definition sample_setup :: setup_env where
  "sample_setup = \<lparr>se_pid = 1, se_mkdir = (\<lambda>_. None), se_mount = (\<lambda>_. None), se_tmp_usr = Inl 2,
     se_tmp_etc = Inl 2, se_kmsg = Inr 5, se_fstab = Inl 2\<rparr>"

text \<open>C31: the mounts of the init process. As PID 1, the setup succeeds exactly if all five directories can
  be created and \<open>/proc\<close>, \<open>/sys\<close>, \<open>/run\<close> and \<open>/dev\<close> can be mounted or are busy; then it has made every
  call of the list, in this order: the directories of \<open>tmpfiles.d\<close> come after \<open>/run\<close> is mounted, and
  the file systems of \<open>/etc/fstab\<close> come last.\<close>

theorem pid1_setup_exact:
  assumes "se_pid env = 1"
  shows "(snd (pid1_setup env) = Inr () \<longleftrightarrow>
      list_all (\<lambda>t. se_mkdir env t = None) [''/proc'', ''/sys'', ''/run'', ''/sys/fs/cgroup'', ''/dev''] \<and>
      list_all (\<lambda>t. se_mount env t \<in> {None, Some EBUSY}) [''/proc'', ''/sys'', ''/run'', ''/dev'']) \<and>
    (snd (pid1_setup env) = Inr () \<longrightarrow> fst (pid1_setup env) =
      concat (map (\<lambda>(fs, t, d). [MakeDir t, MountFs fs t fs d]) (take 3 kernel_mounts)) @
      apply_tmpfiles (se_tmp_usr env) (se_tmp_etc env) @
      concat (map (\<lambda>(fs, t, d). [MakeDir t, MountFs fs t fs d]) (drop 3 kernel_mounts)) @
      dev_links @ redirect_log env @ map FstabCall (mount_all (se_fstab env)))"
  using pid1_setup_Inr[OF assms] pid1_setup_calls[OF assms] by (auto simp: block_ok_def)

theorem pid1_setup_exact_witness:
  "\<exists>rest. fst (pid1_setup sample_setup) =
     [MakeDir ''/proc'', MountFs ''proc'' ''/proc'' ''proc'' None, MakeDir ''/sys'',
      MountFs ''sysfs'' ''/sys'' ''sysfs'' None, MakeDir ''/run'',
      MountFs ''tmpfs'' ''/run'' ''tmpfs'' (Some ''mode=755,size=128m'')] @ rest"
proof -
  have "se_pid sample_setup = 1" by (simp add: sample_setup_def)
  from pid1_setup_exact[OF this] show ?thesis by (simp add: sample_setup_def kernel_mounts_def)
qed

text \<open>C32: a \<open>tmpfiles.d\<close> file is read as it was written: for every list of directories whose names are
  words, and all modes, the file with their lines asks for exactly these directories with exactly these
  modes, in order. The octal text of any 32 bit mode is read back without overflow.\<close>

theorem tmpfiles_roundtrip:
  assumes "\<forall>dm \<in> set dms. is_word (fst dm)" "path_extension file = Some ''conf''"
  shows "tmpfiles_dir (Inr [Inr \<lparr>de_name = file, de_content = Inr (unlines (map render_tmpfiles dms)),
      de_mtime = t\<rparr>]) = map (\<lambda>(dir, mode). MakeDirMode dir mode) dms"
proof -
  have "map tmpfiles_line (lines (unlines (map render_tmpfiles dms))) = map Some dms"
    using assms(1) by (intro tmpfiles_conf_render) blast
  moreover have "[MakeDirMode d m. Some (d, m) \<leftarrow> map Some dms] = map (\<lambda>(d, m). MakeDirMode d m) dms" for dms
    by (induction dms) auto
  ultimately show ?thesis using assms(2) by (simp add: tmpfiles_dir_def del: map_map)
qed

theorem tmpfiles_roundtrip_witness:
  "tmpfiles_dir (Inr [Inr \<lparr>de_name = ''x.conf'',
     de_content = Inr (unlines (map render_tmpfiles [(''/run/lock'', 0x3FF), (''/run/user'', 0xFFFFFFFF)])),
     de_mtime = Inr 0\<rparr>]) = [MakeDirMode ''/run/lock'' 0x3FF, MakeDirMode ''/run/user'' 0xFFFFFFFF]"
proof -
  have e: "path_extension ''x.conf'' = Some ''conf''" by code_simp
  let ?dms = "[(''/run/lock'', 0x3FF :: 32 word), (''/run/user'', 0xFFFFFFFF)]"
  have "list_all (\<lambda>dm. is_word (fst dm)) ?dms" by code_simp
  then have "\<forall>dm \<in> set ?dms. is_word (fst dm)" unfolding list_all_iff .
  from tmpfiles_roundtrip[OF this e, of "Inr 0"] show ?thesis by simp
qed

text \<open>A reboot that the kernel refuses ends in a halt.\<close>

lemma refused_reboot_halts:
  assumes "\<not> xe_reboot env 0" "xe_on_exit env = None"
  shows "last (fst (supervise_forever env True ws)) = Reboot RB_HALT_SYSTEM"
  using assms by (simp add: supervise_forever_def exit_mode_def Let_def)

text \<open>The kernel writes a space in a mount point as \<open>\040\<close>; it is not read back as a space.\<close>

lemma escaped_mount_point:
  "mount_point (''/dev/sdb1 /mnt/my'' @ [CHR 0x5C] @ ''040disk ext4 rw 0 0'') =
     Some (''/mnt/my'' @ [CHR 0x5C] @ ''040disk'')"
  by code_simp

section \<open>Readiness\<close>

text \<open>C14: the watcher neither misses a readiness file nor invents one. However the operations on the
  directory fall between the first check, the installation of the watch and the second check, and in
  whatever batches inotify reports them: if the file is there in the end, the service is signalled
  exactly once; and if it is signalled, the file was there at the first check or was created, moved
  there or written since.\<close>

theorem ready_signal_exact:
  assumes "observes f b h1 h2 h3 inp" "path_parent path = Some d" "path_file_name path = Some f"
    "wi_init inp = None" "wi_add inp = None" "wi_send_ok inp"
  shows "(present f b (h1 @ h2 @ h3) \<longrightarrow> sent (fst (watch_once inp path n probe)) = [n]) \<and>
    (sent (fst (watch_once inp path n probe)) \<noteq> [] \<longrightarrow>
       b \<or> set (h1 @ h2 @ h3) \<inter> {OpCreate f, OpMovedTo f, OpCloseWrite f} \<noteq> {})"
proof -
  note w = watch_once_observed[OF assms(1-5), of n probe]
  have "sent [] = []" by (simp add: sent_def)
  moreover have "b \<or> set (h1 @ h2) \<inter> {OpCreate f, OpMovedTo f, OpCloseWrite f} \<noteq> {}" if "present f b (h1 @ h2)"
    using that present_creates[of f "h1 @ h2"] by (cases b) auto
  ultimately show ?thesis
    using w present_at_end_detected[of f b h1 h2 h3] assms(6) by (auto split: if_splits)
qed

definition late_watch :: watch_input where
  "late_watch = \<lparr>wi_exists1 = False, wi_init = None, wi_add = None, wi_exists2 = False,
     wi_reads = [Inr [\<lparr>ie_name = Some ''other'', ie_create = True, ie_moved_to = False, ie_close_write = False\<rparr>],
       Inr [\<lparr>ie_name = Some ''x.pid'', ie_create = True, ie_moved_to = False, ie_close_write = False\<rparr>]],
     wi_connects = False, wi_send_ok = True\<rparr>"

theorem ready_signal_exact_witness:
  "sent (fst (watch_once late_watch ''/run/x/x.pid'' ''x'' True)) = [''x'']"
proof -
  have o_ok: "observes ''x.pid'' False [OpCreate ''x.pid'', OpRemove ''x.pid''] [OpCreate ''other'']
      [OpCreate ''x.pid''] late_watch"
    by (simp add: observes_def late_watch_def present_def)
  have p: "path_parent ''/run/x/x.pid'' = Some ''/run/x''" "path_file_name ''/run/x/x.pid'' = Some ''x.pid''"
    by code_simp+
  have "wi_init late_watch = None" "wi_add late_watch = None" "wi_send_ok late_watch"
    by (simp_all add: late_watch_def)
  from ready_signal_exact[OF o_ok p this, of "''x''" True] show ?thesis by (simp add: present_def)
qed

end
