(* ===== verification/Scaffold.thy ===== *)
theory Scaffold
  imports Rust_Text
begin

text \<open>
  \<open>scaffold.rs\<close>: a starter definition from the \<open>--help\<close> text of a program. The child process is an
  input: whether it could be spawned, what the successive \<open>try_wait\<close> calls return, the clock (in
  milliseconds since the start), and what its two pipes hold. The texts of the source that are not
  ASCII are written with the bytes of their encoding.

  The lemmas show that the wait for the program ends, and what the substring search finds.
\<close>

section \<open>Probing the program\<close>

definition FOREGROUND_FLAGS :: "string list" where
  "FOREGROUND_FLAGS =
     [''--foreground'', ''--no-daemon'', ''--nodaemon'', ''--no-fork'', ''--nofork'', ''-f'']"

datatype try_wait = TwExited | TwRunning | TwError

record help_run =
  hp_spawned :: bool
  hp_wait :: "nat \<Rightarrow> try_wait"
  hp_elapsed :: "nat \<Rightarrow> nat"
  hp_stdout :: string
  hp_stderr :: string

text \<open>The waiting loop: \<open>True\<close> when the child has exited, \<open>False\<close> when it was killed; with the number
  of rounds.\<close>

partial_function (option) help_wait :: "help_run \<Rightarrow> nat \<Rightarrow> (bool \<times> nat) option" where
  "help_wait hp i =
     (case hp_wait hp i of
        TwExited \<Rightarrow> Some (True, Suc i)
      | TwRunning \<Rightarrow> if hp_elapsed hp i \<ge> 2000 then Some (False, Suc i) else help_wait hp (Suc i)
      | TwError \<Rightarrow> Some (False, Suc i))"

declare help_wait.simps [code]

text \<open>The outer option is the loop that does not end, the inner one the \<open>Option\<close> of the source.\<close>

definition run_help_with_timeout :: "help_run \<Rightarrow> string option option" where
  "run_help_with_timeout hp =
     (if \<not> hp_spawned hp then Some None
      else (case help_wait hp 0 of
              None \<Rightarrow> None
            | Some (False, _) \<Rightarrow> Some None
            | Some (True, _) \<Rightarrow> Some (Some (hp_stdout hp @ hp_stderr hp))))"

section \<open>Reading the help text\<close>

definition detect_foreground_flag :: "string \<Rightarrow> string option" where
  "detect_foreground_flag help_output = find (\<lambda>f. contains_sub help_output f) FOREGROUND_FLAGS"

definition nl :: string where
  "nl = [CHR 0x0A]"

definition detect_readiness_block :: "string \<Rightarrow> string \<Rightarrow> string option" where
  "detect_readiness_block name help_output =
     (let lower = to_lowercase help_output
      in if contains_sub lower ''socket'' then
           Some (''[ready]'' @ nl @ ''strategy = '' @ quoted ''socket'' @ nl @
                 ''path = '' @ quoted (''/run/'' @ name @ ''.sock'') @ ''   # verify path'')
         else if contains_sub lower ''pidfile'' \<or> contains_sub lower ''pid-file'' \<or>
                 contains_sub lower ''pid file'' then
           Some (''[ready]'' @ nl @ ''strategy = '' @ quoted ''pidfile'' @ nl @
                 ''path = '' @ quoted (''/run/'' @ name @ ''/'' @ name @ ''.pid'') @ ''   # verify path'')
         else None)"

definition exec_line :: "string \<Rightarrow> string option \<Rightarrow> string" where
  "exec_line binary help =
     (case help of
        None \<Rightarrow> ''# exec = '' @ quoted binary @ ''   # binary not found or foreground flag unknown '' @
                em_dash @ '' verify manually''
      | Some output \<Rightarrow>
          (case detect_foreground_flag output of
             Some flag \<Rightarrow> ''exec = '' @ quoted (binary @ '' '' @ flag) @ ''   # auto-detected''
           | None \<Rightarrow> ''exec = '' @ quoted binary @ ''   # foreground flag unknown '' @ em_dash @
                     '' verify manually''))"

definition ready_block :: "string \<Rightarrow> string option \<Rightarrow> string" where
  "ready_block name help =
     (case help of
        None \<Rightarrow> ''# [ready]  # could not probe binary '' @ em_dash @ '' add manually''
      | Some output \<Rightarrow>
          (case detect_readiness_block name output of
             Some block \<Rightarrow> block
           | None \<Rightarrow> ''# [ready]  # readiness strategy unknown '' @ em_dash @ '' add manually''))"

definition print_scaffold :: "string \<Rightarrow> string \<Rightarrow> help_run \<Rightarrow> string option" where
  "print_scaffold name binary hp =
     map_option (\<lambda>help.
       ''[service]'' @ nl @ ''name = '' @ quoted name @ nl @ exec_line binary help @ nl @
       ''restart = '' @ quoted ''on-failure'' @ nl @ nl @ ''# [deps]'' @ nl @
       ''# needs = ['' @ quoted ''dbus'' @ '']'' @ nl @ nl @ ready_block name help @ nl)
     (run_help_with_timeout hp)"

section \<open>Lemmas\<close>

lemma help_wait_returns:
  assumes "\<And>i. hp_elapsed hp i + 100 \<le> hp_elapsed hp (Suc i)"
  shows "\<exists>gone j. help_wait hp i = Some (gone, j) \<and> j \<le> i + (2000 - hp_elapsed hp i + 99) div 100 + 1"
proof (induction "2000 - hp_elapsed hp i" arbitrary: i rule: less_induct)
  case less
  show ?case
  proof (cases "hp_wait hp i = TwRunning \<and> hp_elapsed hp i < 2000")
    case False
    then show ?thesis by (subst help_wait.simps) (auto split: try_wait.split)
  next
    case True
    have step: "hp_elapsed hp i + 100 \<le> hp_elapsed hp (Suc i)" by (rule assms)
    then have "2000 - hp_elapsed hp (Suc i) < 2000 - hp_elapsed hp i" using True by linarith
    from less[OF this] obtain gone j where j: "help_wait hp (Suc i) = Some (gone, j)"
      "j \<le> Suc i + (2000 - hp_elapsed hp (Suc i) + 99) div 100 + 1" by auto
    have "help_wait hp i = Some (gone, j)" using True j(1) by (subst help_wait.simps) simp
    moreover have "(2000 - hp_elapsed hp (Suc i) + 99) div 100 + 1 \<le> (2000 - hp_elapsed hp i + 99) div 100"
      using poll_step[OF step, of 2000] True by simp
    ultimately show ?thesis using j(2) by auto
  qed
qed

lemma contains_sub_iff: "contains_sub s p \<longleftrightarrow> (\<exists>a b. s = a @ p @ b)"
proof (induction s)
  case IH: (Cons x xs)
  show ?case
  proof
    assume "contains_sub (x # xs) p"
    then consider "starts_with (x # xs) p" | "contains_sub xs p" by auto
    then show "\<exists>a b. x # xs = a @ p @ b"
    proof cases
      case 1
      then obtain t where "x # xs = [] @ p @ t" by (auto simp: starts_with_iff)
      then show ?thesis by blast
    next
      case 2
      with IH obtain a b where "x # xs = (x # a) @ p @ b" by auto
      then show ?thesis by blast
    qed
  next
    assume "\<exists>a b. x # xs = a @ p @ b"
    then obtain a b where ab: "x # xs = a @ p @ b" by blast
    show "contains_sub (x # xs) p"
    proof (cases a)
      case Nil
      with ab have "starts_with (x # xs) p" by (simp add: starts_with_iff)
      then show ?thesis by simp
    next
      case (Cons y ys)
      with ab have "xs = ys @ p @ b" by simp
      with IH show ?thesis by auto
    qed
  qed
qed auto

end
