(* ===== verification/Flint_Ctl.thy ===== *)
theory Flint_Ctl
  imports Catalog Scaffold Check Ctl_Server
begin

text \<open>
  \<open>bin/flint_ctl.rs\<close>: the command line client. Its state is the record \<open>ctl_world\<close>: the files it can
  see, the lines that are left on standard input, what it has printed, the URLs it has requested, what
  it has sent to the control socket, and the catalog cache. A function that can end the process
  returns \<open>Exit\<close> (always with code 1) or \<open>Continue\<close>. Everything else it asks the system for is in
  \<open>ctl_env\<close>; what the web serves and whether the directory and a file can be written may change with
  the time, which is counted in requests. A path names one file: two different spellings of a path are
  two files here.

  \<open>fetch_and_install\<close> calls itself for the dependencies that the user accepts, so its depth is not
  bounded by the program text; it has fuel, and the lemmas show that one more than the number of
  lines on standard input is always enough, because every call is paid for by an accepted prompt.
\<close>

section \<open>State\<close>

datatype ctl_msg =
    MsgFetch fetch_error
  | MsgParseDeps string string
  | MsgCannotCreate io_error
  | MsgCannotWrite string io_error
  | MsgMissing string string
  | MsgNotInCatalog string
  | MsgNotAvailable string string
  | MsgNotInPath string
  | MsgHasEntry string string
  | MsgNoDefinition string
  | MsgUsage string
  | MsgConnect io_error
  | MsgWrite io_error
  | MsgRead io_error

datatype ctl_out = Out string | ErrOut ctl_msg

record ctl_world =
  cw_files :: "(string \<times> string) list"
  cw_stdin :: "string list"
  cw_out :: "ctl_out list"
  cw_requests :: "string list"
  cw_sent :: "string list"
  cw_cache :: cache_fs

record ctl_env =
  fe_http :: "nat \<Rightarrow> string \<Rightarrow> http_result"
  fe_toml :: toml_parser
  fe_cat_toml :: "string \<Rightarrow> string + catalog"
  fe_os_release :: "io_error + string"
  fe_faults :: faults
  fe_mkdir :: "nat \<Rightarrow> io_error option"
  fe_write :: "nat \<Rightarrow> string \<Rightarrow> (io_error \<times> nat option) option"
  fe_path :: "string option"
  fe_metadata :: "string \<Rightarrow> file_meta option"
  fe_help :: "string \<Rightarrow> help_run"
  fe_order :: hash_order
  fe_show_io :: "io_error \<Rightarrow> string"
  fe_old_init :: old_init
  fe_dir :: "string \<Rightarrow> bool \<times> (io_error + (io_error + dirent) list)"

datatype ctl_result = Continue ctl_world | Exit ctl_world

fun result_world :: "ctl_result \<Rightarrow> ctl_world" where
  "result_world (Continue w) = w"
| "result_world (Exit w) = w"

definition SERVICES_DIR :: string where
  "SERVICES_DIR = ''/etc/flint/services''"

definition say :: "ctl_out \<Rightarrow> ctl_world \<Rightarrow> ctl_world" where
  "say o_line w = w\<lparr>cw_out := cw_out w @ [o_line]\<rparr>"

definition dest_path :: "string \<Rightarrow> string" where
  "dest_path name = path_join SERVICES_DIR (name @ ''.toml'')"

definition file_exists :: "ctl_world \<Rightarrow> string \<Rightarrow> bool" where
  "file_exists w p = (p \<in> fst ` set (cw_files w))"

section \<open>prompt\<close>

text \<open>At the end of the input \<open>read_line\<close> leaves the line empty.\<close>

definition prompt :: "string \<Rightarrow> ctl_world \<Rightarrow> bool \<times> ctl_world" where
  "prompt msg w =
     (let w = say (Out msg) w
      in case cw_stdin w of
           [] \<Rightarrow> (False, w)
         | line # rest \<Rightarrow>
             (to_lowercase (trim line) \<in> {''y'', ''yes''}, w\<lparr>cw_stdin := rest\<rparr>))"

section \<open>get\<close>

text \<open>The loop over the missing dependencies; \<open>install\<close> is the recursive call.\<close>

fun install_deps ::
  "(string \<Rightarrow> ctl_world \<Rightarrow> ctl_result option) \<Rightarrow> string \<Rightarrow> string list \<Rightarrow> string list \<Rightarrow> ctl_world
    \<Rightarrow> ctl_result option" where
  "install_deps install name [] skipped w =
     Some (Continue (fold (\<lambda>dep. say (ErrOut (MsgMissing name dep))) skipped w))"
| "install_deps install name (dep # deps) skipped w =
     (case prompt (name @ '' requires '' @ dep @ '' '' @ em_dash @ '' fetch it too? [y/N] '') w of
        (True, w) \<Rightarrow>
          (case install dep w of
             None \<Rightarrow> None
           | Some (Exit w) \<Rightarrow> Some (Exit w)
           | Some (Continue w) \<Rightarrow> install_deps install name deps skipped w)
      | (False, w) \<Rightarrow> install_deps install name deps (skipped @ [dep]) w)"

text \<open>Fetching and writing one file: the missing dependencies, or the end of the process. A write that
  fails may leave the beginning of the file, unless the file could not even be opened.\<close>

definition put_file :: "string \<Rightarrow> string \<Rightarrow> ctl_world \<Rightarrow> ctl_world" where
  "put_file p content w = w\<lparr>cw_files := AList.update p content (cw_files w)\<rparr>"

definition failed_write :: "string \<Rightarrow> string \<Rightarrow> nat option \<Rightarrow> ctl_world \<Rightarrow> ctl_world" where
  "failed_write p content left w = (case left of None \<Rightarrow> w | Some n \<Rightarrow> put_file p (take n content) w)"

definition install_one :: "ctl_env \<Rightarrow> string \<Rightarrow> string \<Rightarrow> ctl_world \<Rightarrow> ctl_world + string list \<times> ctl_world" where
  "install_one env name distro w =
     (let now = length (cw_requests w)
      in case fetch_service_toml (fe_http env now) distro name of (res, urls) \<Rightarrow>
        (let w = w\<lparr>cw_requests := cw_requests w @ urls\<rparr>
         in case res of
              Inl e \<Rightarrow> Inl (say (ErrOut (MsgFetch e)) w)
            | Inr toml_str \<Rightarrow>
                (case missing_deps (fe_toml env) (file_exists w) toml_str SERVICES_DIR of
                   Inl e \<Rightarrow> Inl (say (ErrOut (MsgParseDeps name e)) w)
                 | Inr missing \<Rightarrow>
                     (case fe_mkdir env now of
                        Some e \<Rightarrow> Inl (say (ErrOut (MsgCannotCreate e)) w)
                      | None \<Rightarrow>
                          (case fe_write env now (dest_path name) of
                             Some (e, left) \<Rightarrow>
                               Inl (say (ErrOut (MsgCannotWrite (dest_path name) e))
                                 (failed_write (dest_path name) toml_str left w))
                           | None \<Rightarrow>
                               Inr (missing, say (Out (''installed: '' @ dest_path name))
                                 (put_file (dest_path name) toml_str w)))))))"

fun fetch_and_install :: "nat \<Rightarrow> ctl_env \<Rightarrow> string \<Rightarrow> string \<Rightarrow> ctl_world \<Rightarrow> ctl_result option" where
  "fetch_and_install 0 env distro name w = None"
| "fetch_and_install (Suc fuel) env distro name w =
     (case (if file_exists w (dest_path name)
            then prompt (name @ ''.toml already exists '' @ em_dash @ '' overwrite? [y/N] '') w
            else (True, w)) of
        (False, w) \<Rightarrow> Some (Continue w)
      | (True, w) \<Rightarrow>
          (case install_one env name distro w of
             Inl w \<Rightarrow> Some (Exit w)
           | Inr (missing, w) \<Rightarrow> install_deps (fetch_and_install fuel env distro) name missing [] w))"

definition with_catalog :: "ctl_env \<Rightarrow> ctl_world \<Rightarrow> (fetch_error + catalog) \<times> ctl_world" where
  "with_catalog env w =
     (case fetch_catalog (fe_cat_toml env) (fe_http env (length (cw_requests w))) (fe_faults env) (cw_cache w) of
        (res, fs, urls) \<Rightarrow> (res, w\<lparr>cw_cache := fs, cw_requests := cw_requests w @ urls\<rparr>))"

definition available :: "string \<Rightarrow> catalog_entry \<Rightarrow> bool" where
  "available distro e = (case ct_distros e of None \<Rightarrow> True | Some ds \<Rightarrow> distro \<in> set ds)"

definition cmd_get :: "nat \<Rightarrow> ctl_env \<Rightarrow> string \<Rightarrow> ctl_world \<Rightarrow> ctl_result option" where
  "cmd_get fuel env name w =
     (let distro = detect_distro_from (fe_os_release env)
      in case with_catalog env w of
           (Inl e, w) \<Rightarrow> Some (Exit (say (ErrOut (MsgFetch e)) w))
         | (Inr cat, w) \<Rightarrow>
             (case map_of cat name of
                None \<Rightarrow> Some (Exit (say (ErrOut (MsgNotInCatalog name)) w))
              | Some entry \<Rightarrow>
                  if \<not> available distro entry
                  then Some (Exit (say (ErrOut (MsgNotAvailable name distro)) w))
                  else fetch_and_install fuel env distro name w))"

text \<open>\<open>{:<24}\<close>: padded on the right, never cut.\<close>

definition pad_right :: "nat \<Rightarrow> string \<Rightarrow> string" where
  "pad_right n s = s @ replicate (n - length s) (CHR '' '')"

definition cmd_get_list :: "ctl_env \<Rightarrow> ctl_world \<Rightarrow> ctl_result" where
  "cmd_get_list env w =
     (let distro = detect_distro_from (fe_os_release env)
      in case with_catalog env w of
           (Inl e, w) \<Rightarrow> Exit (say (ErrOut (MsgFetch e)) w)
         | (Inr cat, w) \<Rightarrow>
             Continue (fold (\<lambda>name. say (Out (pad_right 24 name @ '' '' @ ct_description (the (map_of cat name)))))
               (sort (filter (\<lambda>name. available distro (the (map_of cat name))) (map fst cat))) w))"

section \<open>scaffold, check and contribute\<close>

fun find_in_dirs :: "ctl_env \<Rightarrow> string \<Rightarrow> string list \<Rightarrow> string option" where
  "find_in_dirs env name [] = None"
| "find_in_dirs env name (dir # dirs) =
     (case fe_metadata env (path_join dir name) of
        Some m \<Rightarrow> if meta_executable m then Some (path_join dir name) else find_in_dirs env name dirs
      | None \<Rightarrow> find_in_dirs env name dirs)"

definition find_in_path :: "ctl_env \<Rightarrow> string \<Rightarrow> string option" where
  "find_in_path env name =
     find_in_dirs env name (split_on (CHR '':'') (case fe_path env of None \<Rightarrow> [] | Some p \<Rightarrow> p))"

text \<open>The catalog path is written with \<open>format!\<close> here, not joined.\<close>

definition catalog_path :: "string \<Rightarrow> string" where
  "catalog_path name = SERVICES_DIR @ ''/'' @ name @ ''.toml''"

definition cmd_scaffold :: "ctl_env \<Rightarrow> string \<Rightarrow> ctl_world \<Rightarrow> ctl_result option" where
  "cmd_scaffold env name w =
     (let w = (if file_exists w (catalog_path name)
               then say (ErrOut (MsgHasEntry name (catalog_path name))) w else w)
      in case find_in_path env name of
           None \<Rightarrow> Some (Exit (say (ErrOut (MsgNotInPath name)) w))
         | Some exec_path \<Rightarrow>
             map_option (\<lambda>text. Continue (say (Out text) w)) (print_scaffold name exec_path (fe_help env exec_path)))"

text \<open>A catalog that cannot be fetched is left out.\<close>

definition cmd_check :: "ctl_env \<Rightarrow> string \<Rightarrow> ctl_world \<Rightarrow> ctl_result" where
  "cmd_check env services_dir w =
     (case with_catalog env w of (res, w) \<Rightarrow>
        (let catalog = (case res of Inl _ \<Rightarrow> None | Inr cat \<Rightarrow> Some (fst ` set cat));
             ce = \<lparr>ce_metadata = fe_metadata env, ce_show_io = fe_show_io env\<rparr>
         in case run_check (fe_order env) ce (fe_toml env) (fe_old_init env) services_dir
                   (fst (fe_dir env services_dir)) (snd (fe_dir env services_dir)) catalog of
              (out, ok) \<Rightarrow>
                (let w = fold (\<lambda>l. say (Out l)) out w in if ok then Continue w else Exit w)))"

definition REPO_URL :: string where
  "REPO_URL = ''https://github.com/RicePollution/flint-init''"

text \<open>The rule of 42 box characters.\<close>

definition rule :: string where
  "rule = concat (replicate 42 [CHR 0xE2, CHR 0x94, CHR 0x80])"

definition contribute_text :: "string \<Rightarrow> string \<Rightarrow> string \<Rightarrow> string list" where
  "contribute_text name target_subdir toml_content =
     (let service_path = catalog_path name;
          target_path = ''services/'' @ target_subdir @ ''/'' @ name @ ''.toml''
      in ['''',
          ''To contribute '' @ name @ '' to the flint-init catalog:'', '''',
          ''  1. Fork '' @ REPO_URL @ '' on GitHub'', '''',
          ''  2. Clone your fork and create a branch:'',
          ''       git clone '' @ REPO_URL @ ''/fork-url'',
          ''       cd flint-init'',
          ''       git checkout -b contribute/'' @ target_subdir @ ''-'' @ name, '''',
          ''  3. Copy your service definition:'',
          ''       cp '' @ service_path @ '' '' @ target_path, '''',
          ''  4. Open a PR '' @ em_dash @ '' title: '' @ quoted (''catalog: add '' @ target_subdir @ ''/'' @ name), '''',
          ''Your '' @ name @ ''.toml:'', rule, toml_content, rule])"

definition cmd_contribute :: "ctl_env \<Rightarrow> string \<Rightarrow> ctl_world \<Rightarrow> ctl_result" where
  "cmd_contribute env name w =
     (case map_of (cw_files w) (catalog_path name) of
        None \<Rightarrow> Exit (say (ErrOut (MsgNoDefinition name)) w)
      | Some toml_content \<Rightarrow>
          (case prompt (''Has '' @ name @ ''.toml been running correctly on your system? [y/N] '') w of
             (False, w) \<Rightarrow>
               Continue (say (Out (''Confirm it works first, then re-run: flint-ctl contribute '' @ name)) w)
           | (True, w) \<Rightarrow>
               (let distro = detect_distro_from (fe_os_release env)
                in case prompt ''Are the binary paths in this TOML the same on all distros? [y/N] '' w of
                     (distro_agnostic, w) \<Rightarrow>
                       Continue (fold (\<lambda>l. say (Out l))
                         (contribute_text name (if distro_agnostic then ''global'' else distro) toml_content) w))))"

section \<open>main\<close>

definition usage_lines :: "string list" where
  "usage_lines =
     [''Usage: flint-ctl <command> [args]'',
      ''Commands:'',
      ''  status               List all service states'',
      ''  start <service>      Start a stopped service'',
      ''  stop <service>       Send SIGTERM to a running service'',
      ''  restart <service>    Restart a service (start if stopped)'',
      ''  reload <service>     SIGHUP + restart if config changed'',
      ''  get --list           List services available in the catalog'',
      ''  get <service>        Fetch and install a service from the catalog'',
      ''  scaffold <service>   Print a starter TOML for a service not in the catalog'',
      ''  check [--services-dir <path>]'',
      ''                       Migration audit + preflight check'',
      ''  contribute <service> Show instructions to contribute a service to the catalog'']"

definition usage :: "ctl_world \<Rightarrow> ctl_result" where
  "usage w = Exit (fold (\<lambda>l. say (ErrOut (MsgUsage l))) usage_lines w)"

datatype ctl_call =
    CallGetList
  | CallCheck string
  | CallGet string
  | CallScaffold string
  | CallContribute string
  | CallRequest json
  | CallUsage

text \<open>The tests of \<open>main\<close>, in its order. A request is the value that \<open>json!\<close> builds.\<close>

definition service_request :: "string \<Rightarrow> string \<Rightarrow> json" where
  "service_request cmd svc = JObject [(''cmd'', JString cmd), (''service'', JString svc)]"

definition dispatch :: "string list \<Rightarrow> ctl_call" where
  "dispatch args =
     (if args = [''get'', ''--list''] then CallGetList
      else if args = [''check''] then CallCheck SERVICES_DIR
      else (case args of
              [cmd, flag, path] \<Rightarrow>
                if cmd = ''check'' \<and> flag = ''--services-dir'' then CallCheck path else CallUsage
            | [cmd, name] \<Rightarrow>
                if cmd = ''get'' then CallGet name
                else if cmd = ''scaffold'' then CallScaffold name
                else if cmd = ''contribute'' then CallContribute name
                else if cmd = ''stop'' then CallRequest (service_request ''stop'' name)
                else if cmd = ''start'' then CallRequest (service_request ''start'' name)
                else if cmd = ''restart'' then CallRequest (service_request ''restart'' name)
                else if cmd = ''reload'' then CallRequest (service_request ''reload'' name)
                else CallUsage
            | [cmd] \<Rightarrow> if cmd = ''status'' then CallRequest (JObject [(''cmd'', JString ''status'')]) else CallUsage
            | _ \<Rightarrow> CallUsage))"

text \<open>The exchange with the server: the request is sent as one line; every line that comes back is
  printed, formatted again if it is JSON. A write that fails has sent a part of the line.\<close>

record exchange =
  xc_connect :: "io_error option"
  xc_write :: "(io_error \<times> nat) option"
  xc_lines :: "(io_error + string) list"

definition reformat :: "json_lib \<Rightarrow> string \<Rightarrow> string" where
  "reformat jl l =
     (case json_parse jl l of
        Inl _ \<Rightarrow> l
      | Inr v \<Rightarrow> (case json_pretty jl v of Some p \<Rightarrow> p | None \<Rightarrow> l))"

fun print_reply :: "json_lib \<Rightarrow> (io_error + string) list \<Rightarrow> ctl_world \<Rightarrow> ctl_result" where
  "print_reply jl [] w = Continue w"
| "print_reply jl (Inr l # ls) w = print_reply jl ls (say (Out (reformat jl l)) w)"
| "print_reply jl (Inl e # ls) w = Exit (say (ErrOut (MsgRead e)) w)"

definition request_payload :: "json_lib \<Rightarrow> json \<Rightarrow> string" where
  "request_payload jl request = json_print jl request @ [CHR 0x0A]"

definition transmit :: "string \<Rightarrow> ctl_world \<Rightarrow> ctl_world" where
  "transmit bytes w = w\<lparr>cw_sent := cw_sent w @ [bytes]\<rparr>"

definition send_request :: "json_lib \<Rightarrow> exchange \<Rightarrow> json \<Rightarrow> ctl_world \<Rightarrow> ctl_result" where
  "send_request jl xc request w =
     (let payload = request_payload jl request
      in case xc_connect xc of
           Some e \<Rightarrow> Exit (say (ErrOut (MsgConnect e)) w)
         | None \<Rightarrow>
             (case xc_write xc of
                Some (e, n) \<Rightarrow> Exit (say (ErrOut (MsgWrite e)) (transmit (take n payload) w))
              | None \<Rightarrow> print_reply jl (xc_lines xc) (transmit payload w)))"

definition ctl_main ::
  "nat \<Rightarrow> ctl_env \<Rightarrow> json_lib \<Rightarrow> exchange \<Rightarrow> string list \<Rightarrow> ctl_world \<Rightarrow> ctl_result option" where
  "ctl_main fuel env jl xc args w =
     (case dispatch args of
        CallGetList \<Rightarrow> Some (cmd_get_list env w)
      | CallCheck dir \<Rightarrow> Some (cmd_check env dir w)
      | CallGet name \<Rightarrow> cmd_get fuel env name w
      | CallScaffold name \<Rightarrow> cmd_scaffold env name w
      | CallContribute name \<Rightarrow> Some (cmd_contribute env name w)
      | CallRequest request \<Rightarrow> Some (send_request jl xc request w)
      | CallUsage \<Rightarrow> Some (usage w))"

end
