(* ===== verification/Ctl_Install.thy ===== *)
theory Ctl_Install
  imports Flint_Ctl
begin

text \<open>
  The recursion of \<open>fetch_and_install\<close>. The locale \<open>installer\<close> is what the loop over the dependencies
  relies on from the recursive call: with less input than \<open>N\<close> lines it returns, it only adds files and
  messages, it leaves the file it was asked for, and it leaves no new file with a dependency that is
  neither installed nor reported. The loop is proved once in the locale; \<open>fetch_and_install\<close> with any
  fuel interprets it.
\<close>

section \<open>What a run may change\<close>

definition grows :: "ctl_world \<Rightarrow> ctl_world \<Rightarrow> bool" where
  "grows w w' \<longleftrightarrow>
     fst ` set (cw_files w) \<subseteq> fst ` set (cw_files w') \<and> set (cw_out w) \<subseteq> set (cw_out w') \<and>
     length (cw_stdin w') \<le> length (cw_stdin w)"

definition accounted :: "ctl_world \<Rightarrow> string \<Rightarrow> string \<Rightarrow> bool" where
  "accounted w p d \<longleftrightarrow>
     file_exists w (dest_path d) \<or> (\<exists>n. dest_path n = p \<and> ErrOut (MsgMissing n d) \<in> set (cw_out w))"

definition new_ok :: "ctl_env \<Rightarrow> ctl_world \<Rightarrow> ctl_world \<Rightarrow> bool" where
  "new_ok env w w' \<longleftrightarrow>
     (\<forall>p c def. map_of (cw_files w') p = Some c \<longrightarrow> map_of (cw_files w) p \<noteq> Some c \<longrightarrow>
        fe_toml env c = Inr def \<longrightarrow> (\<forall>d \<in> set (need_names def). accounted w' p d))"

lemma grows_refl [simp]: "grows w w"
  by (simp add: grows_def)

lemma grows_trans [trans]: "grows w w1 \<Longrightarrow> grows w1 w2 \<Longrightarrow> grows w w2"
  unfolding grows_def by (meson order_trans)

lemma grows_exists: "grows w w' \<Longrightarrow> file_exists w p \<Longrightarrow> file_exists w' p"
  by (auto simp: grows_def file_exists_def)

lemma grows_accounted: "grows w w' \<Longrightarrow> accounted w p d \<Longrightarrow> accounted w' p d"
  by (auto simp: accounted_def dest: grows_exists) (auto simp: grows_def)

lemma new_ok_same: "cw_files w' = cw_files w \<Longrightarrow> new_ok env w w'"
  by (simp add: new_ok_def)

lemma new_ok_trans:
  assumes "new_ok env w w1" "new_ok env w1 w2" "grows w1 w2"
  shows "new_ok env w w2"
  using assms grows_accounted[OF assms(3)] unfolding new_ok_def by metis

lemma say_simps [simp]:
  "cw_files (say l w) = cw_files w" "cw_stdin (say l w) = cw_stdin w" "cw_out (say l w) = cw_out w @ [l]"
  by (simp_all add: say_def)

lemma say_fold [simp]:
  "cw_files (fold (\<lambda>d. say (f d)) ds w) = cw_files w" "cw_stdin (fold (\<lambda>d. say (f d)) ds w) = cw_stdin w"
  "cw_out (fold (\<lambda>d. say (f d)) ds w) = cw_out w @ map f ds"
  by (induction ds arbitrary: w) simp_all

lemma prompt_files: "prompt msg w = (b, w') \<Longrightarrow> cw_files w' = cw_files w"
  by (auto simp: prompt_def Let_def split: list.splits)

lemma prompt_grows: "prompt msg w = (b, w') \<Longrightarrow> grows w w'"
  by (auto simp: prompt_def Let_def grows_def split: list.splits)

lemma prompt_pays: "prompt msg w = (True, w') \<Longrightarrow> length (cw_stdin w') < length (cw_stdin w)"
  by (auto simp: prompt_def Let_def split: list.splits)

section \<open>The loop over the dependencies\<close>

locale installer =
  fixes env :: ctl_env
    and install :: "string \<Rightarrow> ctl_world \<Rightarrow> ctl_result option"
    and N :: nat
  assumes install_returns: "length (cw_stdin w) < N \<Longrightarrow> \<exists>r. install d w = Some r"
    and install_grows: "install d w = Some r \<Longrightarrow> grows w (result_world r)"
    and install_present: "install d w = Some (Continue w') \<Longrightarrow> file_exists w' (dest_path d)"
    and install_new: "install d w = Some (Continue w') \<Longrightarrow> new_ok env w w'"
begin

lemma deps_return:
  "length (cw_stdin w) \<le> N \<Longrightarrow> \<exists>r. install_deps install name deps skipped w = Some r"
proof (induction deps arbitrary: skipped w)
  case (Cons dep deps)
  obtain b w1 where p: "prompt (name @ '' requires '' @ dep @ '' '' @ em_dash @ '' fetch it too? [y/N] '') w = (b, w1)"
    by fastforce
  have le: "length (cw_stdin w1) \<le> N" using prompt_grows[OF p] Cons.prems by (simp add: grows_def)
  show ?case
  proof (cases b)
    case True
    then have "length (cw_stdin w1) < N" using prompt_pays p Cons.prems by fastforce
    then obtain r where r: "install dep w1 = Some r" using install_returns by blast
    have "length (cw_stdin (result_world r)) \<le> N" using install_grows[OF r] le by (simp add: grows_def)
    then show ?thesis using Cons.IH p True r by (cases r) auto
  qed (use Cons.IH p le in auto)
qed simp

lemma deps_grow: "install_deps install name deps skipped w = Some r \<Longrightarrow> grows w (result_world r)"
proof (induction deps arbitrary: skipped w)
  case Nil
  then show ?case by (auto simp: grows_def)
next
  case (Cons dep deps)
  then show ?case
    by (auto split: prod.splits bool.splits option.splits ctl_result.splits
        dest!: prompt_grows install_grows intro: grows_trans)
qed

lemma deps_accounted:
  assumes "install_deps install name deps skipped w = Some (Continue w')" "d \<in> set (deps @ skipped)"
  shows "accounted w' (dest_path name) d"
  using assms
proof (induction deps arbitrary: skipped w)
  case Nil
  then show ?case by (auto simp: accounted_def)
next
  case (Cons dep deps)
  obtain b w1 where p: "prompt (name @ '' requires '' @ dep @ '' '' @ em_dash @ '' fetch it too? [y/N] '') w = (b, w1)"
    by fastforce
  show ?case
  proof (cases b)
    case True
    with Cons.prems(1) p obtain w2 where w2: "install dep w1 = Some (Continue w2)"
      "install_deps install name deps skipped w2 = Some (Continue w')"
      by (auto split: option.splits ctl_result.splits)
    have "accounted w' (dest_path name) dep"
      using install_present[OF w2(1)] deps_grow[OF w2(2)] grows_exists by (auto simp: accounted_def)
    then show ?thesis using Cons.IH[OF w2(2)] Cons.prems(2) by auto
  next
    case False
    with Cons.prems p Cons.IH[of "skipped @ [dep]" w1] show ?thesis by auto
  qed
qed

lemma deps_new:
  "install_deps install name deps skipped w = Some (Continue w') \<Longrightarrow> new_ok env w w'"
proof (induction deps arbitrary: skipped w)
  case (Cons dep deps)
  obtain b w1 where p: "prompt (name @ '' requires '' @ dep @ '' '' @ em_dash @ '' fetch it too? [y/N] '') w = (b, w1)"
    by fastforce
  note f = new_ok_same[OF prompt_files[OF p]]
  show ?case
  proof (cases b)
    case True
    with Cons.prems p obtain w2 where w2: "install dep w1 = Some (Continue w2)"
      "install_deps install name deps skipped w2 = Some (Continue w')"
      by (auto split: option.splits ctl_result.splits)
    have "new_ok env w1 w'"
      using new_ok_trans[OF install_new[OF w2(1)] Cons.IH[OF w2(2)] deps_grow[OF w2(2), simplified]] .
    moreover have "grows w1 w'"
      using install_grows[OF w2(1)] deps_grow[OF w2(2)] grows_trans by simp
    ultimately show ?thesis using new_ok_trans f by blast
  next
    case False
    with Cons.prems p have r: "install_deps install name deps (skipped @ [dep]) w1 = Some (Continue w')" by simp
    from new_ok_trans[OF f Cons.IH[OF r] deps_grow[OF r, simplified]] show ?thesis .
  qed
qed (auto intro: new_ok_same)

end

section \<open>One file\<close>

lemma grows_say: "grows w w' \<Longrightarrow> grows w (say l w')"
  by (auto simp: grows_def)

lemma grows_put_file: "grows w w' \<Longrightarrow> grows w (put_file p c w')"
  by (simp add: grows_def put_file_def) blast

lemma grows_requests: "grows w (w\<lparr>cw_requests := rs\<rparr>)"
  by (simp add: grows_def)

lemma install_one_Inl: "install_one env name distro w = Inl w' \<Longrightarrow> grows w w'"
  by (auto simp: install_one_def failed_write_def Let_def
      intro!: grows_say grows_put_file grows_requests split: prod.splits sum.splits option.splits)

lemma install_one_Inr:
  assumes "install_one env name distro w = Inr (missing, w')"
  obtains c def where "cw_files w' = AList.update (dest_path name) c (cw_files w)" "grows w w'"
    "fe_toml env c = Inr def" "\<forall>d \<in> set (need_names def). d \<in> set missing \<or> file_exists w (dest_path d)"
proof -
  obtain res urls where f: "fetch_service_toml (fe_http env (length (cw_requests w))) distro name = (res, urls)"
    by fastforce
  let ?w = "w\<lparr>cw_requests := cw_requests w @ urls\<rparr>"
  from assms f obtain c where c: "res = Inr c"
    "missing_deps (fe_toml env) (file_exists ?w) c SERVICES_DIR = Inr missing"
    "w' = say (Out (''installed: '' @ dest_path name)) (?w\<lparr>cw_files := AList.update (dest_path name) c (cw_files w)\<rparr>)"
    by (auto simp: install_one_def put_file_def Let_def split: sum.splits option.splits)
  from c(2) obtain def where d: "fe_toml env c = Inr def"
    "missing = filter (\<lambda>dep. \<not> file_exists ?w (dest_path dep)) (need_names def)"
    by (auto simp: missing_deps_def need_names_def Let_def dest_path_def split: sum.splits)
  show thesis
    using c(3) d by (intro that[of c def]) (auto simp: grows_def file_exists_def dom_update)
qed

lemma install_one_present:
  "install_one env name distro w = Inr (missing, w') \<Longrightarrow> file_exists w' (dest_path name)"
  by (erule install_one_Inr) (auto simp: file_exists_def dom_update)

section \<open>The recursion\<close>

lemma fetch_and_install_cases:
  assumes "fetch_and_install (Suc fuel) env distro name w = Some r"
  obtains (declined) w1 where "r = Continue w1" "cw_files w1 = cw_files w" "grows w w1"
      "file_exists w (dest_path name)"
    | (failed) w1 where "r = Exit w1" "grows w w1"
    | (installs) w1 missing w2 where "cw_files w1 = cw_files w" "grows w w1"
      "install_one env name distro w1 = Inr (missing, w2)"
      "install_deps (fetch_and_install fuel env distro) name missing [] w2 = Some r"
proof -
  obtain b w1 where p: "(if file_exists w (dest_path name)
      then prompt (name @ ''.toml already exists '' @ em_dash @ '' overwrite? [y/N] '') w
      else (True, w)) = (b, w1)" by fastforce
  have g: "grows w w1" "cw_files w1 = cw_files w"
    using p by (auto split: if_splits dest: prompt_grows prompt_files)
  show thesis
  proof (cases b)
    case True
    with assms p have "(case install_one env name distro w1 of
        Inl w2 \<Rightarrow> Some (Exit w2)
      | Inr (missing, w2) \<Rightarrow> install_deps (fetch_and_install fuel env distro) name missing [] w2) = Some r"
      by simp
    then show ?thesis
      using failed[of "result_world r"] installs[OF g(2,1)] grows_trans[OF g(1) install_one_Inl]
      by (auto split: sum.splits prod.splits)
  next
    case False
    with assms p have "r = Continue w1" by simp
    moreover have "file_exists w (dest_path name)" using p False by (auto split: if_splits)
    ultimately show ?thesis using declined g by blast
  qed
qed

lemma install_one_new_ok:
  assumes one: "install_one env name distro w = Inr (missing, w1)"
    and "grows w1 w'" "new_ok env w1 w'"
    and acc: "\<And>d. d \<in> set missing \<Longrightarrow> accounted w' (dest_path name) d"
  shows "new_ok env w w'"
proof -
  obtain c def where c: "cw_files w1 = AList.update (dest_path name) c (cw_files w)" "grows w w1"
    "fe_toml env c = Inr def" "\<forall>d \<in> set (need_names def). d \<in> set missing \<or> file_exists w (dest_path d)"
    using install_one_Inr[OF one] by blast
  have own: "accounted w' (dest_path name) d" if "d \<in> set (need_names def)" for d
  proof (cases "d \<in> set missing")
    case False
    then have "file_exists w' (dest_path d)"
      using c(4) that grows_exists[OF c(2)] grows_exists[OF assms(2)] by blast
    then show ?thesis by (simp add: accounted_def)
  qed (rule acc)
  show ?thesis unfolding new_ok_def
  proof (intro allI impI)
    fix p x d2
    assume a: "map_of (cw_files w') p = Some x" "map_of (cw_files w) p \<noteq> Some x" "fe_toml env x = Inr d2"
    show "\<forall>d \<in> set (need_names d2). accounted w' p d"
    proof (cases "map_of (cw_files w1) p = Some x")
      case True
      then have "p = dest_path name \<and> x = c"
        using a(2) by (auto simp: c(1) update_conv' split: if_splits)
      with own a(3) c(3) show ?thesis by simp
    next
      case False
      with assms(3) a show ?thesis unfolding new_ok_def by blast
    qed
  qed
qed

text \<open>One level of the recursion, when the level below keeps the contract.\<close>

lemma fetch_step_returns:
  assumes "installer env (fetch_and_install fuel env distro) fuel" "length (cw_stdin w) < Suc fuel"
  shows "\<exists>r. fetch_and_install (Suc fuel) env distro d w = Some r"
proof -
  obtain b w1 where p: "(if file_exists w (dest_path d)
      then prompt (d @ ''.toml already exists '' @ em_dash @ '' overwrite? [y/N] '') w
      else (True, w)) = (b, w1)" by fastforce
  then have "grows w w1" by (auto split: if_splits dest: prompt_grows)
  moreover have "grows w1 w2" if "install_one env d distro w1 = Inr (m, w2)" for m w2
    by (rule install_one_Inr[OF that])
  ultimately have "length (cw_stdin w2) \<le> fuel" if "install_one env d distro w1 = Inr (m, w2)" for m w2
    using that assms(2) by (fastforce simp: grows_def)
  with installer.deps_return[OF assms(1)] p show ?thesis
    by (auto split: bool.split sum.split prod.split)
qed

lemma fetch_step_grows:
  assumes "installer env (fetch_and_install fuel env distro) fuel"
    "fetch_and_install (Suc fuel) env distro d w = Some r"
  shows "grows w (result_world r)"
  using assms(2)
proof (cases rule: fetch_and_install_cases)
  case (installs w1 missing w2)
  have "grows w1 w2" by (rule install_one_Inr[OF installs(3)])
  with installs(2) installer.deps_grow[OF assms(1) installs(4)] grows_trans show ?thesis by blast
qed simp_all

lemma fetch_step_present:
  assumes "installer env (fetch_and_install fuel env distro) fuel"
    "fetch_and_install (Suc fuel) env distro d w = Some (Continue w')"
  shows "file_exists w' (dest_path d)"
  using assms(2)
proof (cases rule: fetch_and_install_cases)
  case (installs w1 missing w2)
  then show ?thesis
    using install_one_present[OF installs(3)] grows_exists[OF installer.deps_grow[OF assms(1) installs(4)]] by simp
qed (auto simp: file_exists_def)

lemma fetch_step_new:
  assumes "installer env (fetch_and_install fuel env distro) fuel"
    "fetch_and_install (Suc fuel) env distro d w = Some (Continue w')"
  shows "new_ok env w w'"
  using assms(2)
proof (cases rule: fetch_and_install_cases)
  case (installs w1 missing w2)
  have "new_ok env w1 w'"
    using install_one_new_ok[OF installs(3)] installer.deps_grow[OF assms(1) installs(4)]
      installer.deps_accounted[OF assms(1) installs(4)] installer.deps_new[OF assms(1) installs(4)] by auto
  then show ?thesis using installs(1) by (simp add: new_ok_def)
qed (auto intro: new_ok_same)

lemma fetch_and_install_installer: "installer env (fetch_and_install fuel env distro) fuel"
proof (induction fuel)
  case 0
  show ?case by unfold_locales auto
next
  case (Suc fuel)
  show ?case
    by unfold_locales
      (rule fetch_step_returns[OF Suc] fetch_step_grows[OF Suc] fetch_step_present[OF Suc] fetch_step_new[OF Suc]; assumption)+
qed

interpretation fi: installer env "fetch_and_install fuel env distro" fuel
  for env fuel distro
  by (rule fetch_and_install_installer)

section \<open>More fuel does not change the result\<close>

lemma install_deps_mono:
  assumes "\<And>d w r. install d w = Some r \<Longrightarrow> install' d w = Some r"
    "install_deps install name deps skipped w = Some r"
  shows "install_deps install' name deps skipped w = Some r"
  using assms(2)
proof (induction deps arbitrary: skipped w)
  case (Cons dep deps)
  then show ?case
    by (auto split: prod.splits bool.splits option.splits ctl_result.splits dest: assms(1))
qed simp

lemma fetch_and_install_Suc:
  "fetch_and_install fuel env distro name w = Some r \<Longrightarrow> fetch_and_install (Suc fuel) env distro name w = Some r"
proof (induction fuel arbitrary: name w r)
  case (Suc fuel)
  show ?case
    using Suc.prems install_deps_mono[of "fetch_and_install fuel env distro" "fetch_and_install (Suc fuel) env distro", OF Suc.IH]
    by (auto simp del: fetch_and_install.simps simp: fetch_and_install.simps(2)[of "Suc fuel"]
        fetch_and_install.simps(2)[of fuel] split: prod.splits bool.splits sum.splits)
qed simp

lemma fetch_and_install_mono:
  assumes "fuel \<le> fuel'" "fetch_and_install fuel env distro name w = Some r"
  shows "fetch_and_install fuel' env distro name w = Some r"
  using assms by (induction fuel' rule: dec_induct) (auto simp del: fetch_and_install.simps dest: fetch_and_install_Suc)

end
