(* ===== verification/Client_Properties.thy ===== *)
theory Client_Properties
  imports Ctl_Install Json_Samples Samples
begin

text \<open>
  The properties of \<open>flint-ctl\<close>: what a request does on the other side of the socket, what \<open>get\<close> leaves
  behind, and how the catalog is cached.
\<close>

section \<open>Samples\<close>

text \<open>A web with two services that need each other; the user takes the first and not the second.\<close>

definition loop_env :: ctl_env where
  "loop_env = \<lparr>fe_http = (\<lambda>_ url. if ends_with url ''a.toml'' then HttpBody (Inr ''a'')
       else if ends_with url ''b.toml'' then HttpBody (Inr ''b'') else HttpStatus 404),
     fe_toml = (\<lambda>s. Inr (sample_service s [] (if s = ''a'' then [''b''] else [''a'', ''c'']) None)),
     fe_cat_toml = (\<lambda>_. Inr []), fe_os_release = Inl 2,
     fe_faults = \<lparr>ft_error = (\<lambda>_. None), ft_partial = None\<rparr>, fe_mkdir = (\<lambda>_. None),
     fe_write = (\<lambda>_ _. None),
     fe_path = None, fe_metadata = (\<lambda>_. None),
     fe_help = (\<lambda>_. \<lparr>hp_spawned = False, hp_wait = (\<lambda>_. TwError), hp_elapsed = (\<lambda>_. 0), hp_stdout = '''', hp_stderr = ''''\<rparr>),
     fe_order = sample_order, fe_show_io = (\<lambda>_. ''io''),
     fe_old_init = \<lparr>openrc_default = (False, Inr []), openrc_boot = (False, Inr []),
       runit_current = (False, Inr []), s6_contents = (False, Inr [])\<rparr>,
     fe_dir = (\<lambda>_. (False, Inl 2))\<rparr>"

section \<open>A stop request, from the command line to the signal\<close>

lemma print_reply_sent [simp]: "cw_sent (result_world (print_reply jl ls w)) = cw_sent w"
  by (induction jl ls w rule: print_reply.induct) (simp_all add: say_def)

lemma send_request_sent:
  "xc_connect xc = None \<Longrightarrow> xc_write xc = None \<Longrightarrow>
   cw_sent (result_world (send_request jl xc request w)) = cw_sent w @ [request_payload jl request]"
  by (simp add: send_request_def Let_def transmit_def)

lemma lines_payload:
  "CHR 0x0A \<notin> set (json_print jl v) \<Longrightarrow> \<not> ends_with (json_print jl v) [CHR 0x0D] \<Longrightarrow>
   lines (request_payload jl v) = [json_print jl v]"
  using lines_unlines[of "[json_print jl v]"] by (simp add: request_payload_def unlines_def)

lemma read_service_request:
  assumes "json_parse jl (json_print jl (service_request cmd n)) = Inr (service_request cmd n)"
  shows "cmd = ''stop'' \<Longrightarrow> read_request jl (json_print jl (service_request cmd n)) = Inr (ReqStop n)"
    "cmd = ''start'' \<Longrightarrow> read_request jl (json_print jl (service_request cmd n)) = Inr (ReqStart n)"
    "cmd = ''restart'' \<Longrightarrow> read_request jl (json_print jl (service_request cmd n)) = Inr (ReqRestart n)"
    "cmd = ''reload'' \<Longrightarrow> read_request jl (json_print jl (service_request cmd n)) = Inr (ReqReload n)"
  using assms
  by (simp_all add: read_request_def request_of_fields_def with_service_def field_values_def service_request_def)

text \<open>C20: client and server agree. When \<open>serde_json\<close> reads back the object that it printed, and prints it
  on one line, then \<open>flint-ctl stop n\<close>, if it can reach the socket, sends a line that makes the server,
  for a root peer, send SIGTERM to exactly the pid that the executor recorded for \<open>n\<close>, also once \<open>n\<close> was
  reported ready: the object that the client builds is the one that the server takes for a request to stop
  \<open>n\<close>, and the pid goes through the two casts between \<open>i32\<close> and \<open>u32\<close> unchanged. Once \<open>n\<close> has
  exited or failed, nothing is signalled.\<close>

theorem ctl_stop_end_to_end:
  assumes "json_parse jl (json_print jl (service_request ''stop'' n)) = Inr (service_request ''stop'' n)"
    "CHR 0x0A \<notin> set (json_print jl (service_request ''stop'' n))"
    "\<not> ends_with (json_print jl (service_request ''stop'' n)) [CHR 0x0D]" "- (2 ^ 31) \<le> p" "p < 2 ^ 31"
    "xc_connect xc = None" "xc_write xc = None"
    "get_peer_uid cn = Some 0" "cn_clone_ok cn" "st \<in> {Running p, Ready, Exited c, Failed}"
    "cn_shared cn = Some (if st = Running p then sync_state n st m else sync_state n st (sync_state n (Running p) m))"
  shows "\<exists>r payload. ctl_main fuel env jl xc [''stop'', n] w = Some r \<and>
    cw_sent (result_world r) = cw_sent w @ [payload] \<and>
    handle_connection jl True (cn\<lparr>cn_lines := map Inr (lines payload)\<rparr>) =
      (if st \<in> {Running p, Ready} then [KillTerm p, WriteResponse (RespOk True)]
       else [WriteResponse (RespError (NotFoundOrNotRunning n))])"
proof -
  let ?v = "service_request ''stop'' n"
  let ?cn = "cn\<lparr>cn_lines := map Inr (lines (request_payload jl ?v))\<rparr>"
  have "ctl_main fuel env jl xc [''stop'', n] w = Some (send_request jl xc ?v w)"
    by (simp add: ctl_main_def dispatch_def)
  moreover have "read_request jl (json_print jl ?v) = Inr (ReqStop n)"
    using read_service_request(1)[of jl "''stop''" n] assms(1) by simp
  then have "answer jl ?cn (json_print jl ?v) =
      (if st \<in> {Running p, Ready} then ([KillTerm p], Some (RespOk True))
       else ([], Some (RespError (NotFoundOrNotRunning n))))"
    using assms(10,11) pid_cast_roundtrip[OF assms(4,5)] by (auto simp: stop_simps)
  then have "handle_connection jl True ?cn =
      (if st \<in> {Running p, Ready} then [KillTerm p, WriteResponse (RespOk True)]
       else [WriteResponse (RespError (NotFoundOrNotRunning n))])"
    using assms(8,9) lines_payload[of jl, OF assms(2,3)]
    by (simp add: handle_connection_def serve_lines_def get_peer_uid_def)
  ultimately show ?thesis using send_request_sent[OF assms(6,7)] by blast
qed

definition root_conn :: conn where
  "root_conn = \<lparr>cn_getsockopt = (0, 0), cn_clone_ok = True, cn_lines = [],
     cn_shared = Some (sync_state ''sshd'' (Running 4242) []), cn_send_ok = True,
     cn_reply = Waiting, cn_reply_id = 0\<rparr>"

definition empty_world :: ctl_world where
  "empty_world = \<lparr>cw_files = [], cw_stdin = [], cw_out = [], cw_requests = [], cw_sent = [],
     cw_cache = \<lparr>fs_files = [], fs_dirs = [], fs_now = 0, fs_umask = 0x12\<rparr>\<rparr>"

theorem ctl_stop_end_to_end_witness:
  "\<exists>r payload. ctl_main 0 loop_env sample_json \<lparr>xc_connect = None, xc_write = None, xc_lines = []\<rparr>
       [''stop'', ''sshd''] empty_world = Some r \<and>
     cw_sent (result_world r) = [payload] \<and>
     handle_connection sample_json True (root_conn\<lparr>cn_lines := map Inr (lines payload)\<rparr>) =
       [KillTerm 4242, WriteResponse (RespOk True)]"
proof -
  let ?v = "service_request ''stop'' ''sshd''"
  have c: "json_parse sample_json (json_print sample_json ?v) = Inr ?v"
    "CHR 0x0A \<notin> set (json_print sample_json ?v)" "\<not> ends_with (json_print sample_json ?v) [CHR 0x0D]"
    by code_simp+
  let ?xc = "\<lparr>xc_connect = None, xc_write = None, xc_lines = []\<rparr> :: exchange"
  have r: "xc_connect ?xc = None" "xc_write ?xc = None"
    "get_peer_uid root_conn = Some 0" "cn_clone_ok root_conn" "cn_shared root_conn =
      Some (if Running 4242 = Running 4242 then sync_state ''sshd'' (Running 4242) []
            else sync_state ''sshd'' (Running 4242) (sync_state ''sshd'' (Running 4242) []))"
    by (simp_all add: root_conn_def get_peer_uid_def)
  from ctl_stop_end_to_end[where jl = sample_json and n = "''sshd''" and p = 4242
      and st = "Running 4242" and c = 0 and w = empty_world, OF c _ _ r(1-4) _ r(5), of 0 loop_env]
  show ?thesis by (simp add: empty_world_def)
qed

section \<open>Every request\<close>

text \<open>C35: the two sides of the protocol agree on every request. Whatever request the command line makes the
  client send, when \<open>serde_json\<close> reads back what it printed, the server decodes it to the request of that
  command for that service; and these five commands, with their arguments, are the only ones that
  send anything.\<close>

theorem client_requests_decoded:
  assumes "dispatch args = CallRequest v" "json_parse jl (json_print jl v) = Inr v"
  shows "\<exists>n. (args, read_request jl (json_print jl v)) \<in>
    {([''status''], Inr ReqStatus), ([''stop'', n], Inr (ReqStop n)), ([''start'', n], Inr (ReqStart n)),
     ([''restart'', n], Inr (ReqRestart n)), ([''reload'', n], Inr (ReqReload n))}"
proof -
  consider "args = [''status'']" "v = JObject [(''cmd'', JString ''status'')]"
    | n where "args = [''stop'', n]" "v = service_request ''stop'' n"
    | n where "args = [''start'', n]" "v = service_request ''start'' n"
    | n where "args = [''restart'', n]" "v = service_request ''restart'' n"
    | n where "args = [''reload'', n]" "v = service_request ''reload'' n"
    using assms(1) by (auto simp: dispatch_def split: if_splits list.splits)
  then show ?thesis
  proof cases
    case 1
    with assms(2) show ?thesis by (simp add: read_request_def request_of_fields_def field_values_def)
  qed (use assms(2) read_service_request in auto)
qed

theorem client_requests_decoded_witness:
  "read_request sample_json (json_print sample_json (service_request ''restart'' ''sshd'')) = Inr (ReqRestart ''sshd'')"
proof -
  have d: "dispatch [''restart'', ''sshd''] = CallRequest (service_request ''restart'' ''sshd'')"
    "json_parse sample_json (json_print sample_json (service_request ''restart'' ''sshd'')) =
      Inr (service_request ''restart'' ''sshd'')" by code_simp+
  from client_requests_decoded[OF d] show ?thesis by auto
qed

section \<open>get\<close>

text \<open>C19: \<open>get\<close> ends, and accounts for every dependency. Whatever the web serves (cycles of dependencies
  included), with more fuel than there are lines on standard input the recursion returns, and more
  fuel does not change what it returns. If the process was not ended by an error, the file of the
  service is there, and every service that a file written in the meantime needs is there too or was
  reported as missing.\<close>

theorem get_accounts_for_dependencies:
  assumes "length (cw_stdin w) < fuel"
  shows "\<exists>r. (\<forall>fuel' \<ge> fuel. fetch_and_install fuel' env distro name w = Some r) \<and>
    (\<forall>w'. r = Continue w' \<longrightarrow> file_exists w' (dest_path name) \<and> new_ok env w w')"
proof -
  obtain r where r: "fetch_and_install fuel env distro name w = Some r"
    using fi.install_returns[OF assms] by blast
  then have "fetch_and_install fuel' env distro name w = Some r" if "fuel \<le> fuel'" for fuel'
    using fetch_and_install_mono[OF that] by blast
  moreover have "file_exists w' (dest_path name) \<and> new_ok env w w'" if "r = Continue w'" for w'
    using r fi.install_present fi.install_new unfolding that by blast
  ultimately show ?thesis by blast
qed

theorem get_accounts_for_dependencies_witness:
  "\<exists>w'. fetch_and_install 5 loop_env ''artix'' ''a'' (empty_world\<lparr>cw_stdin := [''y'', ''n'']\<rparr>) = Some (Continue w') \<and>
     file_exists w' (dest_path ''a'') \<and> new_ok loop_env (empty_world\<lparr>cw_stdin := [''y'', ''n'']\<rparr>) w'"
proof -
  let ?w = "empty_world\<lparr>cw_stdin := [''y'', ''n'']\<rparr>"
  have "case fetch_and_install 5 loop_env ''artix'' ''a'' ?w of Some (Continue w') \<Rightarrow> True | _ \<Rightarrow> False" by code_simp
  then obtain w' where c: "fetch_and_install 5 loop_env ''artix'' ''a'' ?w = Some (Continue w')"
    by (auto split: option.splits ctl_result.splits)
  have "length (cw_stdin ?w) < 5" by simp
  from get_accounts_for_dependencies[OF this, of loop_env "''artix''" "''a''"] c show ?thesis by auto
qed

text \<open>A dependency is used as a file name unchecked: an absolute one leaves the directory of services.\<close>

lemma absolute_dependency_escapes: "is_absolute name \<Longrightarrow> dest_path name = name @ ''.toml''"
  by (cases name) (simp_all add: dest_path_def path_join_def is_absolute_def starts_with_def)

definition escape_env :: ctl_env where
  "escape_env = loop_env\<lparr>fe_http := (\<lambda>_ _. HttpBody (Inr ''x'')),
     fe_toml := (\<lambda>s. Inr (sample_service s [] [''/etc/cron.d/x''] None))\<rparr>"

lemma get_writes_outside:
  "case fetch_and_install 2 escape_env ''artix'' ''a'' (empty_world\<lparr>cw_stdin := [''y'']\<rparr>) of
     Some (Continue w') \<Rightarrow> file_exists w' ''/etc/cron.d/x.toml''
   | _ \<Rightarrow> False"
  by code_simp

section \<open>The catalog\<close>

text \<open>C30: the cache is replaced as a whole and never readable by others. Whichever of the five calls fails,
  and whatever a failed write has left in the temporary file, the cache file is either the one from
  before, when an error is reported, or the complete new content with mode 0600 in a directory with
  mode 0700.\<close>

theorem catalog_cache_write:
  assumes "path_with_extension path ''tmp'' \<noteq> path" "path_parent path = Some d"
    "write_catalog_cache ft path content fs = (r, fs')"
  shows "if r = Inr () then
      map_of (fs_files fs') path = Some \<lparr>cf_content = content, cf_mode = 0x180, cf_mtime = fs_now fs\<rparr> \<and>
      map_of (fs_dirs fs') d = Some 0x1C0
    else map_of (fs_files fs') path = map_of (fs_files fs) path"
  using write_catalog_cache_ok[OF assms(1)] write_catalog_cache_fails[OF assms(1)] assms(2,3)
  by (cases r) auto

definition rename_fails :: faults where
  "rename_fails = \<lparr>ft_error = (\<lambda>c. if c = RenameTmp then Some 18 else None), ft_partial = None\<rparr>"

theorem catalog_cache_write_witness:
  "\<exists>fs'. write_catalog_cache rename_fails CACHE_PATH ''new'' (cw_cache empty_world) = (Inl 18, fs') \<and>
     map_of (fs_files fs') CACHE_PATH = None"
proof -
  have p: "path_with_extension CACHE_PATH ''tmp'' \<noteq> CACHE_PATH" "path_parent CACHE_PATH = Some ''/var/cache/flint''"
    by code_simp+
  have "fst (write_catalog_cache rename_fails CACHE_PATH ''new'' (cw_cache empty_world)) = Inl 18" by code_simp
  then obtain fs' where w: "write_catalog_cache rename_fails CACHE_PATH ''new'' (cw_cache empty_world) = (Inl 18, fs')"
    by (metis prod.collapse)
  from catalog_cache_write[OF p w] w show ?thesis by (simp add: empty_world_def)
qed

text \<open>What was fetched is used for a day, even if it does not parse: a broken answer is cached.\<close>

lemma catalog_answer_cached:
  assumes "\<not> cache_fresh fs" "http CATALOG_URL = HttpBody (Inr content)"
    "write_catalog_cache ft CACHE_PATH content fs = (Inr (), fs')" "ft_error ft' ReadCache = None"
    "fs_now fs' \<le> t" "t - fs_now fs < CACHE_TTL_SECS * 10 ^ 9" "fs_now fs \<le> t"
  shows "fetch_catalog toml http ft fs = (parse_catalog toml content, fs', [CATALOG_URL]) \<and>
    fetch_catalog toml http' ft' (fs'\<lparr>fs_now := t\<rparr>) = (parse_catalog toml content, fs'\<lparr>fs_now := t\<rparr>, [])"
proof -
  have "path_with_extension CACHE_PATH ''tmp'' \<noteq> CACHE_PATH" by code_simp
  from write_catalog_cache_ok(1)[OF this assms(3)] show ?thesis
    using assms by (simp add: fetch_catalog_def cache_fresh_def read_cache_def)
qed

text \<open>The distribution never brings anything else into the URL than one of the four known names.\<close>

lemma distro_in_url: "\<exists>d \<in> set ALLOWED_DISTROS. \<exists>rest.
  snd (fetch_service_toml http (detect_distro_from os_release) name) = service_url d name # rest"
  using detect_distro_allowed[of os_release] by (auto simp: fetch_service_toml_def)

text \<open>An option that merely contains \<open>-f\<close> is taken for the foreground flag.\<close>

lemma foreground_flag_by_substring: "detect_foreground_flag ''  --config-file PATH'' = Some ''-f''"
  by code_simp

text \<open>The wait for the help text ends within 21 rounds.\<close>

lemma help_bounded:
  assumes "\<And>i. hp_elapsed hp i + 100 \<le> hp_elapsed hp (Suc i)"
  shows "\<exists>help. run_help_with_timeout hp = Some help"
proof -
  obtain gone j where "help_wait hp 0 = Some (gone, j)" using help_wait_returns[of hp 0, OF assms] by blast
  then show ?thesis by (cases gone) (simp_all add: run_help_with_timeout_def)
qed

end
