(* ===== verification/Flint_Main.thy ===== *)
theory Flint_Main
  imports Pid1 Ready Cache Executor Ctl_Server
begin

text \<open>
  \<open>main.rs\<close>: the boot, composed of the other components in the order of the source. The record
  \<open>main_env\<close> holds what the system answers to each of them. The result is what \<open>main\<close> itself does, the
  call of \<open>executor::run\<close> with what it returned, and how \<open>main\<close> ended. The control server and the
  watchers are threads of their own; they meet the executor through its inputs.
\<close>

section \<open>Data\<close>

record 'b main_env =
  mn_setup :: setup_env
  mn_signal :: "nat \<Rightarrow> errno option"
  mn_args :: "string list"
  mn_config :: "io_error + string"
  mn_cfg_toml :: "string \<Rightarrow> string + flint_config"
  mn_codec :: "'b codec"
  mn_toml :: toml_parser
  mn_disk :: "string \<Rightarrow> 'b disk"
  mn_writes :: write_results
  mn_order :: hash_order
  mn_mkdir :: "string \<Rightarrow> io_error option"
  mn_users :: "string \<Rightarrow> errno + (int \<times> int) option"
  mn_fork :: "nat \<Rightarrow> errno + pid"
  mn_read :: "string \<Rightarrow> io_error + string"
  mn_ticks :: "tick list"
  mn_reboot :: bool
  mn_exit :: exit_env
  mn_waits :: "wait_result list"

datatype main_action =
    SetupCall pid1_action
  | InstallHandler nat
  | StartCtl
  | RemoveReady string
  | CreateReadyDir string
  | WatchFile ready_strategy string string

datatype main_error =
    SetupFailed setup_error
  | SignalFailed nat errno
  | LoadFailed cache_error
  | GraphFailed graph_error
  | ReadyDirFailed string io_error
  | ExecutorFailed executor_error

datatype main_end =
    MainError main_error
  | MainReturned
  | MainPanic
  | MainRunning
  | MainSupervises "exit_action list \<times> reap_action list"

record main_result =
  mr_actions :: "main_action list"
  mr_run :: "(service_def list \<times> service_graph \<times> run_result) option"
  mr_end :: main_end

section \<open>The signal handlers\<close>

text \<open>The two flags, \<open>SHUTDOWN\<close> and \<open>REBOOT\<close>.\<close>

record flags =
  fl_shutdown :: bool
  fl_reboot :: bool

definition handle_shutdown :: "flags \<Rightarrow> flags" where
  "handle_shutdown fl = fl\<lparr>fl_shutdown := True\<rparr>"

definition handle_reboot :: "flags \<Rightarrow> flags" where
  "handle_reboot fl = fl\<lparr>fl_reboot := True, fl_shutdown := True\<rparr>"

text \<open>SIGTERM, SIGINT and SIGUSR1 are 15, 2 and 10.\<close>

fun install_handlers :: "(nat \<Rightarrow> errno option) \<Rightarrow> nat list \<Rightarrow> main_action list \<times> main_error option" where
  "install_handlers res [] = ([], None)"
| "install_handlers res (sig # sigs) =
     (case res sig of
        Some e \<Rightarrow> ([], Some (SignalFailed sig e))
      | None \<Rightarrow> (case install_handlers res sigs of (acts, err) \<Rightarrow> (InstallHandler sig # acts, err)))"

section \<open>The watchers\<close>

fun start_watchers :: "(string \<Rightarrow> io_error option) \<Rightarrow> service_def list \<Rightarrow> main_action list \<times> main_error option" where
  "start_watchers mk [] = ([], None)"
| "start_watchers mk (svc # svcs) =
     (case sd_ready svc of
        None \<Rightarrow> start_watchers mk svcs
      | Some r \<Rightarrow>
          (case rd_path r of
             None \<Rightarrow> start_watchers mk svcs
           | Some path \<Rightarrow>
               (let watch = WatchFile (rd_strategy r) path (sd_name svc)
                in case path_parent path of
                     None \<Rightarrow>
                       (case start_watchers mk svcs of (acts, err) \<Rightarrow> (RemoveReady path # watch # acts, err))
                   | Some parent \<Rightarrow>
                       (case mk parent of
                          Some e \<Rightarrow> ([RemoveReady path, CreateReadyDir parent], Some (ReadyDirFailed parent e))
                        | None \<Rightarrow>
                            (case start_watchers mk svcs of (acts, err) \<Rightarrow>
                               (RemoveReady path # CreateReadyDir parent # watch # acts, err))))))"

section \<open>main\<close>

definition services_dir :: "'b main_env \<Rightarrow> string" where
  "services_dir env =
     (case mn_args env of
        _ # dir # _ \<Rightarrow> dir
      | _ \<Rightarrow> if se_pid (mn_setup env) = 1 then ''/etc/flint/services'' else ''services/examples'')"

definition boot_config :: "'b main_env \<Rightarrow> flint_config" where
  "boot_config env = load_config_from (mn_cfg_toml env) (mn_config env)"

definition main_exec_env :: "'b main_env \<Rightarrow> exec_env" where
  "main_exec_env env =
     \<lparr>users = mn_users env, fork_result = mn_fork env, toml_parse = mn_toml env,
      service_dir = Some (services_dir env)\<rparr>"

text \<open>After \<open>executor::run\<close>.\<close>

definition after_run :: "'b main_env \<Rightarrow> run_result \<Rightarrow> main_end" where
  "after_run env r =
     (case r of
        Finished s \<Rightarrow>
          if se_pid (mn_setup env) = 1
          then MainSupervises (supervise_forever (mn_exit env) (mn_reboot env) (mn_waits env))
          else MainReturned
      | RunError e s \<Rightarrow> MainError (ExecutorFailed e)
      | RunPanic s \<Rightarrow> MainPanic
      | RunHang s \<Rightarrow> MainRunning
      | StillRunning s \<Rightarrow> MainRunning)"

text \<open>From the loaded services on; \<open>acts\<close> is what happened before.\<close>

definition boot_services :: "'b main_env \<Rightarrow> main_action list \<Rightarrow> service_def list \<Rightarrow> main_result" where
  "boot_services env acts services =
     (if services = [] then \<lparr>mr_actions = acts, mr_run = None, mr_end = MainReturned\<rparr>
      else (case build (mn_order env) services of
              Err e \<Rightarrow> \<lparr>mr_actions = acts, mr_run = None, mr_end = MainError (GraphFailed e)\<rparr>
            | Panic \<Rightarrow> \<lparr>mr_actions = acts, mr_run = None, mr_end = MainPanic\<rparr>
            | Ok g \<Rightarrow>
                (case start_watchers (mn_mkdir env) services of
                   (ws, Some e) \<Rightarrow>
                     \<lparr>mr_actions = acts @ StartCtl # ws, mr_run = None, mr_end = MainError e\<rparr>
                 | (ws, None) \<Rightarrow>
                     (let r = run (main_exec_env env) (mn_read env) g services new_shared_state (mn_ticks env)
                      in \<lparr>mr_actions = acts @ StartCtl # ws, mr_run = Some (services, g, r),
                          mr_end = after_run env r\<rparr>))))"

definition main :: "'b main_env \<Rightarrow> main_result" where
  "main env =
     (case pid1_setup (mn_setup env) of (calls, res) \<Rightarrow>
        (let acts = map SetupCall calls
         in case res of
              Inl e \<Rightarrow> \<lparr>mr_actions = acts, mr_run = None, mr_end = MainError (SetupFailed e)\<rparr>
            | Inr _ \<Rightarrow>
                (case install_handlers (mn_signal env) [15, 2, 10] of
                   (hs, Some e) \<Rightarrow> \<lparr>mr_actions = acts @ hs, mr_run = None, mr_end = MainError e\<rparr>
                 | (hs, None) \<Rightarrow>
                     (case fst (load_services_cached (mn_codec env) (mn_toml env) (mn_writes env)
                                  (mn_disk env (services_dir env))) of
                        Inl e \<Rightarrow> \<lparr>mr_actions = acts @ hs, mr_run = None, mr_end = MainError (LoadFailed e)\<rparr>
                      | Inr raw_services \<Rightarrow>
                          boot_services env (acts @ hs) (apply_to (boot_config env) raw_services)))))"

section \<open>The session user does not change the graph\<close>

lemma apply_user_simps [simp]:
  "sd_deps (apply_user cfg d) = sd_deps d" "sd_name (apply_user cfg d) = sd_name d"
  "sd_ready (apply_user cfg d) = sd_ready d"
  by (simp_all add: apply_user_def)

section \<open>What main hands to the executor\<close>

lemma main_runs:
  assumes "mr_run (main env) = Some (services, g, r)"
  obtains raw where
    "fst (load_services_cached (mn_codec env) (mn_toml env) (mn_writes env) (mn_disk env (services_dir env))) =
       Inr raw"
    "services = apply_to (boot_config env) raw" "build (mn_order env) services = Ok g"
    "r = run (main_exec_env env) (mn_read env) g services new_shared_state (mn_ticks env)"
    "mr_end (main env) = after_run env r"
  using assms
  by (auto simp: main_def boot_services_def Let_def split: prod.splits sum.splits option.splits
      if_splits outcome.splits)

section \<open>The watchers find a clean place\<close>

lemma start_watchers_before:
  assumes "fst (start_watchers mk svcs) = pre @ WatchFile st p n # post"
  shows "RemoveReady p \<in> set pre \<and> (\<forall>d. path_parent p = Some d \<longrightarrow> CreateReadyDir d \<in> set pre \<and> mk d = None)"
  using assms
  by (induction svcs arbitrary: pre)
    (auto simp: Let_def Cons_eq_append_conv split: option.splits prod.splits)

lemma start_watchers_all:
  assumes "snd (start_watchers mk svcs) = None"
  shows "[(st, p, n). WatchFile st p n \<leftarrow> fst (start_watchers mk svcs)] =
    [(rd_strategy r, p, sd_name d). d \<leftarrow> svcs, r \<leftarrow> (case sd_ready d of None \<Rightarrow> [] | Some r \<Rightarrow> [r]),
       p \<leftarrow> (case rd_path r of None \<Rightarrow> [] | Some p \<Rightarrow> [p])]"
  using assms by (induction svcs) (auto simp: Let_def split: option.splits prod.splits)

lemma start_watchers_removes:
  assumes "snd (start_watchers mk svcs) = None" "d \<in> set svcs" "sd_ready_path d = Some p"
  shows "RemoveReady p \<in> set (fst (start_watchers mk svcs))"
  using assms
  by (induction svcs) (auto simp: sd_ready_path_def Let_def split: option.splits prod.splits)

lemma main_removes:
  assumes "mr_run (main env) = Some (services, g, r)" "d \<in> set services" "sd_ready_path d = Some p"
  shows "RemoveReady p \<in> set (mr_actions (main env))"
proof -
  have "set (fst (start_watchers (mn_mkdir env) services)) \<subseteq> set (mr_actions (main env)) \<and>
      snd (start_watchers (mn_mkdir env) services) = None"
    using assms(1)
    by (auto simp: main_def boot_services_def Let_def split: prod.splits sum.splits option.splits
        if_splits outcome.splits)
  with start_watchers_removes assms(2,3) show ?thesis by blast
qed

end
