(* ===== verification/Check_Boot.thy ===== *)
theory Check_Boot
  imports Client_Properties Flint_Main Cache_Coherence
begin

text \<open>
  \<open>flint-ctl check\<close> and the boot read the same directory in different ways: \<open>run_preflight\<close> parses and
  validates every file, \<open>load_services_cached\<close> goes through the manifest. The lemmas show that both end
  up with the same definitions, up to their order, so that the verdict of the one is a promise about
  the other.
\<close>

section \<open>The same definitions\<close>

lemma scan_entries_names:
  "scan_entries es acc = Inr files \<Longrightarrow> map fst files = map fst acc @ map de_name (toml_entries es)"
proof (induction es arbitrary: acc)
  case (Cons entry es)
  from Cons.prems show ?case
    by (auto simp: toml_entries_def split: sum.splits if_splits dest!: Cons.IH)
qed (simp add: toml_entries_def)

lemma scan_names:
  "scan_toml_files dk = Inr files \<Longrightarrow> dk_entries dk = Inr es \<Longrightarrow> map fst files = map de_name (toml_entries es)"
  using scan_entries_names[of es "[]" files] by (simp add: scan_toml_files_def)

lemma find_first_key:
  assumes "distinct (map k (filter P xs))" "x \<in> set xs" "P x" "\<And>y. k y = k x \<Longrightarrow> P y"
  shows "find (\<lambda>y. k y = k x) xs = Some x"
  using assms(1,2)
proof (induction xs)
  case (Cons y ys)
  show ?case
  proof (cases "k y = k x")
    case True
    then have "P y" by (rule assms(4))
    with Cons.prems True assms(3) have "y = x" by (auto simp: image_iff)
    then show ?thesis by simp
  next
    case False
    then show ?thesis using Cons by (cases "P y") auto
  qed
qed simp

lemma toml_entries_filter:
  "toml_entries es = filter (\<lambda>d. path_extension (de_name d) = Some ''toml'') (flatten_entries es)"
proof (induction es)
  case (Cons e es)
  then show ?case by (cases e) (simp_all add: toml_entries_def flatten_entries_def)
qed (simp add: toml_entries_def flatten_entries_def)

lemma read_file_entry:
  assumes "dk_entries dk = Inr es" "distinct (map de_name (toml_entries es))" "d \<in> set (toml_entries es)"
  shows "read_file dk (de_name d) = de_content d"
proof -
  have "find (\<lambda>y. de_name y = de_name d) (flatten_entries es) = Some d"
    using assms(2,3) unfolding toml_entries_filter
    by (intro find_first_key[where P = "\<lambda>d. path_extension (de_name d) = Some ''toml''"]) auto
  then show ?thesis using assms(1) by (simp add: read_file_def flatten_entries_def)
qed

lemma load_parses:
  assumes "dk_entries dk = Inr es" "distinct (map de_name (toml_entries es))"
    "load_entries toml es [] = Inr services"
  shows "map Inr services = map (\<lambda>d. parse_toml toml dk (de_name d)) (toml_entries es)"
proof -
  from load_entries_all[OF assms(3)]
  have l: "map Inr services = map (\<lambda>d. case de_content d of Inl e \<Rightarrow> Inl e
     | Inr c \<Rightarrow> map_sum (\<lambda>_. 0) id (toml (trim_end_matches is_nul c))) (toml_entries es)" by simp
  then have len: "length services = length (toml_entries es)" by (metis length_map)
  show ?thesis
  proof (rule nth_equalityI)
    fix i assume "i < length (map Inr services)"
    then have i: "i < length (toml_entries es)" using len by simp
    let ?d = "toml_entries es ! i"
    have "read_file dk (de_name ?d) = de_content ?d" using read_file_entry[OF assms(1,2)] i by simp
    moreover have "(case de_content ?d of Inl e \<Rightarrow> Inl e
        | Inr c \<Rightarrow> map_sum (\<lambda>_. 0) id (toml (trim_end_matches is_nul c))) = Inr (services ! i)"
      using arg_cong[OF l, of "\<lambda>xs. xs ! i"] i len by simp
    ultimately show "map Inr services ! i = map (\<lambda>d. parse_toml toml dk (de_name d)) (toml_entries es) ! i"
      using i len by (auto simp: parse_toml_def split: sum.splits)
  qed (simp add: len)
qed

section \<open>Errors of the load\<close>

text \<open>When every file parses, a time before 1970 is the only thing in a directory that can stop the load;
  what else can is the manifest.\<close>

lemma build_entries_error:
  "build_entries toml dk fs acc = Inl e \<Longrightarrow> (\<And>f t. (f, t) \<in> set fs \<Longrightarrow> \<exists>def. parse_toml toml dk f = Inr def) \<Longrightarrow>
   \<exists>f t. e = BeforeEpoch f \<and> (f, t) \<in> set fs \<and> t < 0"
proof (induction fs arbitrary: acc)
  case (Cons ft fs)
  obtain f t where ft: "ft = (f, t)" by fastforce
  obtain def where p: "parse_toml toml dk f = Inr def" using Cons.prems(2)[of f t] ft by auto
  show ?case
  proof (cases "t < 0")
    case True
    with Cons.prems(1) ft show ?thesis by (auto simp: mtime_secs_def)
  next
    case False
    with Cons.prems(1) ft p have "build_entries toml dk fs (acc @ [entry f (nat (t div 10 ^ 9)) def]) = Inl e"
      by (simp add: mtime_secs_def)
    from Cons.IH[OF this] Cons.prems(2) show ?thesis by fastforce
  qed
qed simp

lemma refresh_error:
  "refresh toml dk fs es ch = Inl e \<Longrightarrow> (\<And>f t. (f, t) \<in> set fs \<Longrightarrow> \<exists>def. parse_toml toml dk f = Inr def) \<Longrightarrow>
   \<exists>f t. e = BeforeEpoch f \<and> (f, t) \<in> set fs \<and> t < 0"
proof (induction fs arbitrary: es ch)
  case (Cons ft fs)
  obtain f t where ft: "ft = (f, t)" by fastforce
  obtain def where p: "parse_toml toml dk f = Inr def" using Cons.prems(2)[of f t] ft by auto
  show ?case
  proof (cases "t < 0")
    case True
    with Cons.prems(1) ft show ?thesis by (auto simp: mtime_secs_def)
  next
    case False
    with Cons.prems(1) ft p obtain es' ch' where "refresh toml dk fs es' ch' = Inl e"
      by (auto simp: mtime_secs_def split: if_splits)
    from Cons.IH[OF this] Cons.prems(2) show ?thesis by fastforce
  qed
qed simp

lemma write_and_return_error:
  "fst (write_and_return c wr m dk) = Inl e \<Longrightarrow> \<exists>io. e = CacheIo io \<and> (wr_write wr = Some io \<or> wr_rename wr = Some io)"
  by (auto simp: write_and_return_def write_manifest_def split: option.splits)

lemma load_error:
  assumes "scan_toml_files dk = Inr files" "\<And>f t. (f, t) \<in> set files \<Longrightarrow> \<exists>def. parse_toml toml dk f = Inr def"
    "fst (load_services_cached c toml wr dk) = Inl e"
  shows "(\<exists>io. e = CacheIo io \<and> (dk_manifest dk = Unreadable io \<or> wr_write wr = Some io \<or> wr_rename wr = Some io)) \<or>
    (\<exists>f t. e = BeforeEpoch f \<and> (f, t) \<in> set files \<and> t < 0)"
proof (cases "read_manifest c dk")
  case (Inl a)
  with assms show ?thesis
    by (auto simp: load_services_cached_def read_manifest_def split: file_state.splits option.splits if_splits)
next
  case (Inr mo)
  show ?thesis
  proof (cases mo)
    case None
    show ?thesis
    proof (cases "build_entries toml dk files []")
      case (Inl a)
      with Inr None assms(1,3) have "a = e" by (simp add: load_services_cached_def build_manifest_def)
      moreover have "\<exists>f t. a = BeforeEpoch f \<and> (f, t) \<in> set files \<and> t < 0"
        by (rule build_entries_error[OF Inl]) (rule assms(2))
      ultimately show ?thesis by blast
    qed (use Inr None assms in \<open>auto simp: load_services_cached_def build_manifest_def dest!: write_and_return_error\<close>)
  next
    case (Some m)
    let ?kept = "filter (\<lambda>e. me_filename e \<in> set (map fst files)) (mf_entries m)"
    show ?thesis
    proof (cases "refresh toml dk files ?kept (length ?kept \<noteq> length (mf_entries m))")
      case (Inl a)
      with Inr Some assms(1,3) have "a = e" by (simp add: load_services_cached_def update_cached_def Let_def)
      moreover have "\<exists>f t. a = BeforeEpoch f \<and> (f, t) \<in> set files \<and> t < 0"
        by (rule refresh_error[OF Inl]) (rule assms(2))
      ultimately show ?thesis by blast
    next
      case (Inr b)
      with \<open>read_manifest c dk = Inr mo\<close> Some assms(1,3) show ?thesis
        by (cases b) (auto simp: load_services_cached_def update_cached_def Let_def split: if_splits
            dest!: write_and_return_error)
    qed
  qed
qed

section \<open>What the loads return\<close>

lemma loaded_defs:
  assumes "codec_ok c" "scan_toml_files dk = Inr files" "distinct (map fst files)"
    "\<And>m. read_manifest c dk = Inr (Some m) \<Longrightarrow> sound_entries toml dk files (mf_entries m)"
    "fst (load_services_cached c toml wr dk) = Inr defs"
  shows "mset (map Inr defs) = mset (map (\<lambda>(f, t). parse_toml toml dk f) files)"
proof -
  obtain dk' where "load_services_cached c toml wr dk = (Inr defs, dk')" using assms(5) by (metis prod.collapse)
  from load_current[OF assms(1-4) this] obtain m :: manifest where
    "current toml dk files (mf_entries m)" "defs = map me_def (mf_entries m)" by metis
  with current_defs[OF _ assms(3)] show ?thesis by (auto simp: comp_def)
qed

lemma loader_validates_parsed:
  assumes "dk_entries dk = Inr es" "scan_toml_files dk = Inr files" "distinct (map fst files)" "(f, t) \<in> set files"
    "parse_toml toml dk f = Inr def" "load_services_from_dir toml (dk_entries dk) = Inr services"
  shows "validate def = Inr ()"
proof -
  have l: "load_entries toml es [] = Inr services" using assms(1,6) by (simp add: load_services_from_dir_def)
  have names: "map fst files = map de_name (toml_entries es)" by (rule scan_names[OF assms(2,1)])
  have "f \<in> set (map fst files)" using assms(4) by force
  then obtain d where d: "d \<in> set (toml_entries es)" "f = de_name d" unfolding names by auto
  have "map Inr services = map (\<lambda>d. parse_toml toml dk (de_name d)) (toml_entries es)"
    using load_parses[OF assms(1) _ l] assms(3) unfolding names by simp
  then have "parse_toml toml dk f \<in> set (map Inr services)" using d by (metis image_eqI list.set_map)
  then show ?thesis using load_entries_validated[OF l] assms(5) by auto
qed

section \<open>The graph of the boot\<close>

lemma build_Ok_iff:
  assumes "is_hash_order ho"
  shows "(\<exists>g. build ho services = Ok g) \<longleftrightarrow> acyclic (dep_rel services) \<and> distinct (map sd_name services)"
  using has_cycle_iff[OF assms] has_cycle_build[OF assms assms] by blast

lemma dep_rel_apply_to [simp]: "dep_rel (apply_to cfg services) = dep_rel services"
  by (auto simp: dep_rel_def deps_of_def apply_to_def image_iff all_dep_names_def)

lemma apply_to_names [simp]: "map sd_name (apply_to cfg services) = map sd_name services"
  by (simp add: apply_to_def)

lemma build_apply_to:
  assumes "is_hash_order ho" "is_hash_order ho'" "mset ss = mset ss'" "\<exists>g. build ho ss = Ok g"
  shows "\<exists>g. build ho' (apply_to cfg ss') = Ok g"
proof -
  have s: "set ss = set ss'" using assms(3) by (rule mset_eq_setD)
  have "dep_rel ss' = dep_rel ss" by (simp add: dep_rel_def deps_of_def names_of_def s)
  moreover have "distinct (map sd_name ss') = distinct (map sd_name ss)"
    using assms(3) by (metis mset_eq_imp_distinct_iff mset_map)
  ultimately show ?thesis using assms(4) by (simp add: build_Ok_iff[OF assms(1)] build_Ok_iff[OF assms(2)])
qed

lemma install_handlers_error:
  "install_handlers res sigs = (acts, Some err) \<Longrightarrow> \<exists>sig e. err = SignalFailed sig e"
  by (induction sigs arbitrary: acts) (auto split: option.splits prod.splits)

lemma start_watchers_error:
  "start_watchers mk svcs = (acts, Some err) \<Longrightarrow> \<exists>d e. err = ReadyDirFailed d e"
  by (induction svcs arbitrary: acts) (auto simp: Let_def split: option.splits prod.splits)

lemma main_graph_error:
  assumes "mr_end (main env) = MainError (GraphFailed e)"
  obtains raw where
    "fst (load_services_cached (mn_codec env) (mn_toml env) (mn_writes env) (mn_disk env (services_dir env))) = Inr raw"
    "build (mn_order env) (apply_to (boot_config env) raw) = Err e"
  using assms
  by (auto simp: main_def boot_services_def after_run_def Let_def split: prod.splits sum.splits option.splits
      if_splits outcome.splits run_result.splits dest: install_handlers_error start_watchers_error)

lemma main_load_error:
  assumes "mr_end (main env) = MainError (LoadFailed e)"
  shows "fst (load_services_cached (mn_codec env) (mn_toml env) (mn_writes env) (mn_disk env (services_dir env))) = Inl e"
  using assms
  by (auto simp: main_def boot_services_def after_run_def Let_def split: prod.splits sum.splits option.splits
      if_splits outcome.splits run_result.splits dest: install_handlers_error start_watchers_error)

section \<open>From the exit code of the check to the boot\<close>

lemma check_continues:
  assumes "ctl_main fuel cenv jl xc [''check'', ''--services-dir'', dir] w = Some (Continue w')"
    "fe_dir cenv dir = (True, rd)"
  shows "\<exists>ce. pf_errors (run_preflight (fe_order cenv) ce (fe_toml cenv) rd) = []"
  using assms
  by (auto simp: ctl_main_def dispatch_def cmd_check_def run_check_def Let_def
      split: prod.splits if_splits)

lemma check_load_agree:
  assumes "codec_ok c" "dk_entries dk = Inr es" "scan_toml_files dk = Inr files" "distinct (map fst files)"
    "\<And>m. read_manifest c dk = Inr (Some m) \<Longrightarrow> sound_entries toml dk files (mf_entries m)"
    "load_entries toml es [] = Inr services" "fst (load_services_cached c toml wr dk) = Inr raw"
  shows "mset raw = mset services"
proof -
  have names: "map fst files = map de_name (toml_entries es)" by (rule scan_names[OF assms(3,2)])
  have "map Inr services = map (parse_toml toml dk) (map fst files)"
    using load_parses[OF assms(2) _ assms(6)] assms(4) unfolding names by (simp add: comp_def)
  then have "mset (map Inr raw) = (mset (map Inr services) :: (cache_error + service_def) multiset)"
    using loaded_defs[OF assms(1,3-5,7)] by (simp add: comp_def split_def)
  then have "mset (map projr (map Inr raw :: (cache_error + service_def) list)) =
      mset (map projr (map Inr services :: (cache_error + service_def) list))" by (metis mset_map)
  then show ?thesis by (simp add: comp_def)
qed

lemma checked_parses:
  assumes "dk_entries dk = Inr es" "scan_toml_files dk = Inr files" "distinct (map fst files)"
    "load_entries toml es [] = Inr services" "(f, t) \<in> set files"
  shows "\<exists>def. parse_toml toml dk f = Inr def"
proof -
  have names: "map fst files = map de_name (toml_entries es)" by (rule scan_names[OF assms(2,1)])
  have "f \<in> set (map fst files)" using assms(5) by force
  then obtain d where d: "d \<in> set (toml_entries es)" "f = de_name d" unfolding names by auto
  have "map Inr services = map (\<lambda>d. parse_toml toml dk (de_name d)) (toml_entries es)"
    using load_parses[OF assms(1) _ assms(4)] assms(3) unfolding names by simp
  then have "parse_toml toml dk f \<in> set (map Inr services)" using d by (metis image_eqI list.set_map)
  then show ?thesis by auto
qed

end
