(* ===== verification/Log_Blocks.thy ===== *)
theory Log_Blocks
  imports Boot_Spec
begin

text \<open>
  What a handler of the executor adds to the log. Each handler appends a block of events in which every
  mark follows, in the same block, the event that is its reason (a readiness signal, the decision to
  give the service up, or its end), and in which only names that were signalled are reported ready.
  Blocks can be joined, so that the phases of a round add blocks, too.
\<close>

section \<open>Blocks\<close>

definition ended_in :: "event list \<Rightarrow> string \<Rightarrow> bool" where
  "ended_in evs n = ((\<exists>c. EvExitedLine n c \<in> set evs) \<or> (\<exists>sig. EvKilledLine n sig \<in> set evs))"

definition mark_reason :: "event list \<Rightarrow> string \<Rightarrow> bool" where
  "mark_reason evs n = (EvReadyPidfile n \<in> set evs \<or> EvBlocked n \<in> set evs \<or> ended_in evs n)"

definition justified :: "event list \<Rightarrow> bool" where
  "justified evs \<longleftrightarrow> (\<forall>pre n post. evs = pre @ EvMark n # post \<longrightarrow> mark_reason pre n)"

definition reports :: "event list \<Rightarrow> string set" where
  "reports evs = {n. EvReadyPidfile n \<in> set evs}"

lemma mark_reason_append [simp]: "mark_reason (xs @ ys) n \<longleftrightarrow> mark_reason xs n \<or> mark_reason ys n"
  by (auto simp: mark_reason_def ended_in_def)

lemma justified_append:
  assumes "justified xs" "justified ys"
  shows "justified (xs @ ys)"
  unfolding justified_def
proof (intro allI impI)
  fix pre n post
  assume "xs @ ys = pre @ EvMark n # post"
  then consider (left) us where "xs = pre @ EvMark n # us" | (right) us where "pre = xs @ us" "ys = us @ EvMark n # post"
    by (auto simp: append_eq_append_conv2 append_eq_Cons_conv)
  then show "mark_reason pre n" using assms by cases (auto simp: justified_def)
qed

lemma justified_no_mark: "EvMark ` UNIV \<inter> set evs = {} \<Longrightarrow> justified evs"
  by (auto simp: justified_def)

lemma justified_mark: "mark_reason evs n \<Longrightarrow> justified evs \<Longrightarrow> justified (evs @ [EvMark n])"
  by (auto simp: justified_def append_eq_append_conv2 append_eq_Cons_conv Cons_eq_append_conv)

lemma reports_simps [simp]: "reports (xs @ ys) = reports xs \<union> reports ys" "reports [] = {}"
  by (auto simp: reports_def)

definition adds :: "string set \<Rightarrow> exec \<Rightarrow> exec \<Rightarrow> bool" where
  "adds N s s' \<longleftrightarrow> (\<exists>evs. ex_log s' = ex_log s @ evs \<and> justified evs \<and> reports evs \<subseteq> N)"

lemma adds_same: "ex_log s' = ex_log s \<Longrightarrow> adds N s s'"
  by (simp add: adds_def justified_no_mark)

lemma adds_trans: "adds N s s' \<Longrightarrow> adds N s' s'' \<Longrightarrow> adds N s s''"
  unfolding adds_def by (metis append.assoc justified_append reports_simps(1) Un_subset_iff)

lemma adds_mono: "adds M s s' \<Longrightarrow> M \<subseteq> N \<Longrightarrow> adds N s s'"
  unfolding adds_def by blast

text \<open>A block without a mark, and a block that ends in one.\<close>

lemma addsI:
  "ex_log s' = ex_log s @ evs \<Longrightarrow> EvMark ` UNIV \<inter> set evs = {} \<Longrightarrow> reports evs \<subseteq> N \<Longrightarrow> adds N s s'"
  unfolding adds_def by (auto intro: justified_no_mark)

lemma adds_markI:
  assumes "ex_log s' = ex_log s @ evs @ [EvMark n]" "EvMark ` UNIV \<inter> set evs = {}" "mark_reason evs n"
    "reports evs \<subseteq> N"
  shows "adds N s s'"
proof -
  have "reports (evs @ [EvMark n]) \<subseteq> N" using assms(4) by (simp add: reports_def)
  with assms justified_mark[OF assms(3) justified_no_mark[OF assms(2)]] show ?thesis
    unfolding adds_def by blast
qed

section \<open>The blocks of the handlers\<close>

lemma log_updates [simp]:
  "ex_log (emit ev s) = ex_log s @ [ev]" "ex_log (set_state n st s) = ex_log s"
  "ex_log (enter_running n pid s) = ex_log s" "ex_log (untrack pid s) = ex_log s"
  "ex_log (mark_and_queue n s) = ex_log s @ [EvMark n]" "ex_log (block_dependents n s) = ex_log s"
  "ex_log (bump_completed s) = ex_log s" "ex_log (pop_start s) = ex_log s"
  by (simp_all add: emit_def untrack_def block_dependents_def bump_completed_def pop_start_def set_state_def enter_running_def Let_def mark_and_queue_def split: prod.split)

lemma log_spawn: "spawn env n def s = (r, s') \<Longrightarrow> ex_log s' = ex_log s @ spawn_events env n def s"
  by (auto simp: spawn_def spawn_events_def Let_def emit_def split: outcome.splits)

lemma spawn_events_plain [simp]:
  "EvMark m \<notin> set (spawn_events env n def s)" "EvReadyPidfile m \<notin> set (spawn_events env n def s)"
  by (auto simp: spawn_events_def split: outcome.splits)

lemma adds_report: "adds {n} s (report_ready n s)"
  by (auto simp: report_ready_def adds_same reports_def mark_reason_def
      intro!: adds_markI[where evs = "[EvReadyPidfile n]" and n = n])

lemma adds_launch_start: "adds {} s (flow_state (launch_start env n def s))"
proof -
  obtain r s' where sp: "spawn env n def (remove_stale def (emit (EvStarting n) s)) = (r, s')" by fastforce
  let ?evs = "EvStarting n # (case sd_ready_path def of None \<Rightarrow> [] | Some p \<Rightarrow> [EvRemoveFile p]) @
    spawn_events env n def (remove_stale def (emit (EvStarting n) s))"
  have "ex_log s' = ex_log s @ ?evs"
    using log_spawn[OF sp] by (auto simp: remove_stale_def split: option.split)
  moreover have "EvMark ` UNIV \<inter> set ?evs = {}" "reports ?evs \<subseteq> {}"
    by (auto simp: reports_def split: option.split)
  moreover have "ex_log (flow_state (launch_start env n def s)) = ex_log s'"
    using sp by (auto simp: launch_start_def split: outcome.split)
  ultimately show ?thesis by (intro addsI) simp_all
qed

lemma adds_launch: "adds {} s (flow_state (launch_one env n s))"
  using adds_launch_start
  by (auto simp: launch_one_def launch_blocked_def adds_same reports_def mark_reason_def
      intro!: adds_markI[where evs = "[EvBlocked n]" and n = n] split: option.split)

lemma adds_manual: "adds {} s (flow_state (manual_restart env n s))"
proof (cases "map_of (ex_svc_by_name s) n")
  case (Some def)
  let ?s = "s\<lparr>ex_pending_restart := ex_pending_restart s - {n}\<rparr>"
  obtain r s' where sp: "spawn env n def ?s = (r, s')" by fastforce
  have r: "ex_log (reply_restart n res s') = ex_log s' @ (case map_of (ex_restart_replies s') n of
      None \<Rightarrow> [] | Some reply \<Rightarrow> [EvReply reply res])" for res s'
    by (simp add: reply_restart_def split: option.split)
  show ?thesis
    using Some sp log_spawn[OF sp]
    by (auto simp: manual_restart_def Let_def r reports_def intro!: addsI split: option.split outcome.split)
qed (simp add: manual_restart_def adds_same)

lemma adds_auto: "adds {} s (flow_state (auto_restart env n s))"
proof (cases "map_of (ex_svc_by_name s) n")
  case (Some def)
  let ?s = "emit (EvRestarting n (restart_count n s + 1))
    (s\<lparr>ex_restart_counts := AList.update n (restart_count n s + 1) (ex_restart_counts s)\<rparr>)"
  obtain r s' where sp: "spawn env n def ?s = (r, s')" by fastforce
  show ?thesis
    using Some sp log_spawn[OF sp]
    by (auto simp: auto_restart_def Let_def reports_def intro!: addsI split: outcome.split)
qed (auto simp: auto_restart_def Let_def reports_def intro!: addsI)

text \<open>The end of a service: its line, perhaps the line of the last restart, and the mark.\<close>

lemma adds_settle:
  assumes "ex_log s' = ex_log s @ evs" "EvMark ` UNIV \<inter> set evs = {}" "reports evs = {}" "ended_in evs n"
  shows "adds {} s (settle n failed s')"
proof (cases "n \<in> ex_ready_reported s'")
  case True
  then show ?thesis using assms by (auto simp: settle_def Let_def bump_completed_def intro!: addsI)
next
  case False
  then show ?thesis
    using assms by (auto simp: settle_def Let_def bump_completed_def block_dependents_def mark_reason_def
        intro!: adds_markI[where evs = evs and n = n])
qed

text \<open>What both ends have in common, after the line \<open>ev\<close> of the child's end.\<close>

lemma adds_end:
  assumes "ev \<in> {EvExitedLine n code, EvKilledLine n sig}"
  shows "adds {} (emit ev s) s' \<Longrightarrow> adds {} s s'"
    "adds {} s (flow_state (auto_restart env n (emit ev s\<lparr>ex_restart_counts := X\<rparr>)))"
    "adds {} s (settle n failed (set_state n st (emit ev s\<lparr>ex_restart_counts := X\<rparr>)))"
    "adds {} s (settle n failed (set_state n st (emit (EvMaxRestarts n) (emit ev s\<lparr>ex_restart_counts := X\<rparr>))))"
proof -
  have e: "adds {} s (emit ev s)"
    using assms by (auto simp: reports_def intro!: addsI[where evs = "[ev]"])
  show "adds {} s s'" if "adds {} (emit ev s) s'" for s' using e that by (rule adds_trans)
  moreover have "adds {} (emit ev s) s'" if "adds {} (emit ev s\<lparr>ex_restart_counts := X\<rparr>) s'" for s'
    using that by (simp add: adds_def)
  ultimately show "adds {} s (flow_state (auto_restart env n (emit ev s\<lparr>ex_restart_counts := X\<rparr>)))"
    using adds_auto by blast
  show "adds {} s (settle n failed (set_state n st (emit ev s\<lparr>ex_restart_counts := X\<rparr>)))"
    by (rule adds_settle[where evs = "[ev]"]) (use assms in \<open>auto simp: reports_def ended_in_def\<close>)
  show "adds {} s (settle n failed (set_state n st (emit (EvMaxRestarts n) (emit ev s\<lparr>ex_restart_counts := X\<rparr>))))"
    by (rule adds_settle[where evs = "[ev, EvMaxRestarts n]"]) (use assms in \<open>auto simp: reports_def ended_in_def\<close>)
qed

lemma adds_exited: "adds {} s (flow_state (handle_exited env b n code s))"
  using adds_end[of "EvExitedLine n code" n code _ s] adds_manual[of "emit (EvExitedLine n code) s"]
  by (auto simp: handle_exited_def Let_def)

lemma adds_signaled: "adds {} s (flow_state (handle_signaled env b n sig s))"
  using adds_end[of "EvKilledLine n sig" n _ sig s] adds_manual[of "emit (EvKilledLine n sig) s"]
  by (auto simp: handle_signaled_def Let_def)

lemma adds_poll: "adds {} s (flow_state (poll_one env t pid s))"
proof -
  have u: "adds {} s s'" if "adds {} (untrack pid s) s'" for s'
    using that by (simp add: adds_def)
  show ?thesis
    by (auto simp: poll_one_def adds_same reports_def u[OF adds_exited] u[OF adds_signaled]
        intro!: addsI split: wait_status.split option.split)
qed

section \<open>The blocks of the phases\<close>

lemma adds_drain_ready: "adds (set names) s (drain_ready names s)"
proof (induction names arbitrary: s)
  case (Cons n names)
  have "adds (set (n # names)) s (report_ready n s)" by (rule adds_mono[OF adds_report]) simp
  moreover have "adds (set (n # names)) (report_ready n s) (drain_ready names (report_ready n s))"
    by (rule adds_mono[OF Cons.IH]) auto
  ultimately show ?case by (simp add: drain_ready_def) (rule adds_trans)
qed (simp add: drain_ready_def adds_same)

lemma adds_launch_all: "adds {} s (flow_state (launch_all env s))"
proof (induction env s rule: launch_all.induct)
  case (1 env s)
  show ?case
  proof (cases "ex_to_start s = []")
    case False
    have pop: "adds {} s (pop_start s)" by (simp add: adds_same)
    note l = adds_trans[OF this adds_launch[of "pop_start s" env "last (ex_to_start s)"]]
    show ?thesis
      using False l adds_trans[OF l 1]
      by (subst launch_all.simps) (cases "launch_one env (last (ex_to_start s)) (pop_start s)"; simp)
  qed (simp add: launch_all.simps adds_same)
qed

lemma adds_poll_all: "adds {} s (flow_state (poll_all env t pids s))"
proof (induction pids arbitrary: s)
  case (Cons pid pids)
  show ?case
    using adds_poll[of s env t pid] adds_trans[OF _ Cons.IH]
    by (cases "poll_one env t pid s") auto
qed (simp add: adds_same)

end
