(* ===== verification/Boot_World.thy ===== *)
theory Boot_World
  imports Log_Blocks Flint_Main
begin

text \<open>
  The executor among the threads that \<open>main\<close> starts. A trace interleaves the events of the executor with
  the operations on the directories of the readiness files. The step relation \<open>world\<close> lets file
  operations happen at any point: before a round, between its launch phase and the moment \<open>recv_timeout\<close>
  returns, or after it. Its only assumptions are on the environment: a readiness file is made by its
  own service, once that was started; a name arrives on the readiness channel only if a watcher thread,
  run on what it could observe of the trace, has sent it; and there are no commands and no shutdown.

  The lemmas tie both ends together: a world is a run of the executor (\<open>world_run\<close>), its signals are
  those a boot may have (\<open>world_inv\<close>), and each report of a service stands after the creation of
  its file.
\<close>

section \<open>The two phases of a round\<close>

definition launch_phase :: "exec_env \<Rightarrow> tick \<Rightarrow> exec \<Rightarrow> flow" where
  "launch_phase env t s = launch_all env (drain_ready (tk_ready t) s)"

definition poll_phase :: "exec_env \<Rightarrow> tick \<Rightarrow> exec \<Rightarrow> flow" where
  "poll_phase env t s =
     (if ex_completed s \<ge> ex_total s then Stop s
      else if ex_pid_to_name s = [] then Stop s
      else
        (let s = (case tk_late t of None \<Rightarrow> s | Some name \<Rightarrow> report_ready name s)
         in poll_all env t (map fst (tk_order t (ex_pid_to_name s))) s))"

lemma iteration_phases:
  "\<not> tk_shutdown t \<Longrightarrow> tk_commands t = [] \<Longrightarrow>
     iteration env t s = and_then (launch_phase env t s) (poll_phase env t)"
  by (simp add: iteration_def launch_phase_def poll_phase_def[abs_def])

section \<open>Traces\<close>

text \<open>\<open>FileOp d op\<close> is an operation on the directory \<open>d\<close>.\<close>

datatype world_event = Exec event | FileOp string dir_op

fun exec_event :: "world_event \<Rightarrow> event list" where
  "exec_event (Exec ev) = [ev]"
| "exec_event (FileOp d op) = []"

definition exec_events :: "world_event list \<Rightarrow> event list" where
  "exec_events tr = concat (map exec_event tr)"

text \<open>What happens in a directory; the executor removes readiness files, too.\<close>

fun ops_in :: "string \<Rightarrow> world_event \<Rightarrow> dir_op list" where
  "ops_in d (FileOp d' op) = (if d' = d then [op] else [])"
| "ops_in d (Exec (EvRemoveFile p)) =
     (case path_file_name p of
        None \<Rightarrow> []
      | Some f \<Rightarrow> if path_parent p = Some d then [OpRemove f] else [])"
| "ops_in d (Exec ev) = []"

definition dir_history :: "string \<Rightarrow> world_event list \<Rightarrow> dir_op list" where
  "dir_history d tr = concat (map (ops_in d) tr)"

fun makes :: "string \<Rightarrow> world_event \<Rightarrow> bool" where
  "makes p (FileOp d op) =
     (path_parent p = Some d \<and>
      (case path_file_name p of None \<Rightarrow> False | Some f \<Rightarrow> op \<in> {OpCreate f, OpMovedTo f, OpCloseWrite f}))"
| "makes p (Exec ev) = False"

lemma exec_events_simps [simp]:
  "exec_events [] = []" "exec_events (xs @ ys) = exec_events xs @ exec_events ys"
  "exec_events (Exec ev # tr) = ev # exec_events tr" "exec_events (FileOp d op # tr) = exec_events tr"
  "exec_events (map Exec evs) = evs"
  by (simp_all add: exec_events_def comp_def)

lemma set_exec_events [simp]: "set (exec_events tr) = {ev. Exec ev \<in> set tr}"
proof (induction tr)
  case (Cons e tr)
  then show ?case by (cases e) auto
qed simp

lemma dir_history_append [simp]: "dir_history d (xs @ ys) = dir_history d xs @ dir_history d ys"
  by (simp add: dir_history_def)

lemma made_in_history:
  assumes "op \<in> set (dir_history d tr)" "op \<in> {OpCreate f, OpMovedTo f, OpCloseWrite f}"
    "path_parent p = Some d" "path_file_name p = Some f"
  shows "\<exists>e \<in> set tr. makes p e"
proof -
  from assms(1) obtain e where e: "e \<in> set tr" "op \<in> set (ops_in d e)" by (auto simp: dir_history_def)
  then have "e = FileOp d op" using assms(2)
    by (cases "(d, e)" rule: ops_in.cases) (auto split: if_splits option.splits)
  then show ?thesis using e(1) assms(2-4) by force
qed

section \<open>The watchers\<close>

type_synonym watcher = "ready_strategy \<times> string \<times> string"

definition watchers_of :: "main_action list \<Rightarrow> watcher list" where
  "watchers_of acts = [(st, p, n). WatchFile st p n \<leftarrow> acts]"

fun run_watcher :: "watcher \<Rightarrow> watch_input \<Rightarrow> ready_action list \<times> watch_end" where
  "run_watcher (Pidfile, p, n) inp = watch_pidfile inp p n"
| "run_watcher (Socket, p, n) inp = watch_socket inp p n"

text \<open>The watcher of \<open>n\<close> has sent its name, after \<open>main\<close> had removed the file (what was \<open>before\<close>): \<open>h0\<close>
  happened before the first check, \<open>h1\<close>, \<open>h2\<close> and \<open>h3\<close> as in \<open>observes\<close>, and what came \<open>after\<close>, it has not
  seen yet. The file is absent at the start of \<open>h0\<close>: \<open>main\<close> ignores the result of \<open>remove_file\<close>, and the
  removal is taken to have had its effect. (Where it fails, a file of an earlier run counts as ready.)\<close>

definition announced :: "watcher list \<Rightarrow> world_event list \<Rightarrow> string \<Rightarrow> bool" where
  "announced ws tr n \<longleftrightarrow>
     (\<exists>st p d f inp before h0 h1 h2 h3 after.
        (st, p, n) \<in> set ws \<and> path_parent p = Some d \<and> path_file_name p = Some f \<and>
        dir_history d tr = before @ h0 @ h1 @ h2 @ h3 @ after \<and>
        observes f (present f False h0) h1 h2 h3 inp \<and>
        n \<in> set (sent (fst (run_watcher (st, p, n) inp))))"

lemma watcher_honest:
  assumes "observes f b h1 h2 h3 inp" "path_file_name path = Some f"
    "sent (fst (watch_once inp path n probe)) \<noteq> []"
  shows "b \<or> set (h1 @ h2 @ h3) \<inter> {OpCreate f, OpMovedTo f, OpCloseWrite f} \<noteq> {}"
proof (cases b)
  case False
  then have "\<not> wi_exists1 inp" using assms(1) by (simp add: observes_def)
  then obtain d where d: "path_parent path = Some d" "wi_init inp = None" "wi_add inp = None"
    using assms(2,3) by (auto simp: watch_once_def sent_def split: option.splits)
  have "present f False (h1 @ h2) \<or> set (h2 @ h3) \<inter> {OpCreate f, OpMovedTo f, OpCloseWrite f} \<noteq> {}"
    using assms(3) False watch_once_observed[OF assms(1) d(1) assms(2) d(2,3), of n probe]
    by (auto simp: sent_def split: if_splits)
  then show ?thesis using present_creates[of f "h1 @ h2"] by auto
qed simp

lemma run_watcher_sent:
  "sent (fst (run_watcher (st, p, n) inp)) = sent (fst (watch_once inp p n (st = Socket)))"
  by (cases st) (simp_all add: watch_pidfile_def watch_socket_def)

lemma announced_made:
  assumes "announced ws tr n"
  shows "\<exists>st p. (st, p, n) \<in> set ws \<and> (\<exists>e \<in> set tr. makes p e)"
proof -
  from assms obtain st p d f inp before h0 h1 h2 h3 after where
    w: "(st, p, n) \<in> set ws" and p: "path_parent p = Some d" "path_file_name p = Some f" and
    h: "dir_history d tr = before @ h0 @ h1 @ h2 @ h3 @ after" and
    o: "observes f (present f False h0) h1 h2 h3 inp" and
    s: "n \<in> set (sent (fst (run_watcher (st, p, n) inp)))"
    unfolding announced_def by blast
  from s have "sent (fst (watch_once inp p n (st = Socket))) \<noteq> []" by (auto simp: run_watcher_sent)
  from watcher_honest[OF o p(2) this] present_creates[of f h0]
  obtain op where "op \<in> set (dir_history d tr)" "op \<in> {OpCreate f, OpMovedTo f, OpCloseWrite f}"
    unfolding h by auto
  from made_in_history[OF this p] w show ?thesis by blast
qed

lemma announced_later: "announced ws tr n \<Longrightarrow> announced ws (tr @ us) n"
  unfolding announced_def dir_history_append by (metis append.assoc)

section \<open>The steps of the world\<close>

datatype phase = Top | Receiving tick | Ended

definition permitted :: "service_def list \<Rightarrow> world_event list \<Rightarrow> world_event \<Rightarrow> bool" where
  "permitted services tr e \<longleftrightarrow>
     (\<forall>d \<in> set services. case sd_ready_path d of
        None \<Rightarrow> True
      | Some p \<Rightarrow> makes p e \<longrightarrow> Exec (EvStarting (sd_name d)) \<in> set tr)"

definition news :: "exec \<Rightarrow> exec \<Rightarrow> world_event list" where
  "news s s' = map Exec (drop (length (ex_log s)) (ex_log s'))"

inductive world ::
  "exec_env \<Rightarrow> service_def list \<Rightarrow> watcher list \<Rightarrow> exec \<Rightarrow> world_event list \<Rightarrow> exec \<Rightarrow> phase \<Rightarrow> bool"
  for env services ws s0 where
  world_begin: "world env services ws s0 [] s0 Top"
| world_file: "world env services ws s0 tr s ph \<Longrightarrow> permitted services tr (FileOp d op) \<Longrightarrow>
    world env services ws s0 (tr @ [FileOp d op]) s ph"
| world_launch: "world env services ws s0 tr s Top \<Longrightarrow> \<not> tk_shutdown t \<Longrightarrow> tk_commands t = [] \<Longrightarrow>
    \<forall>n \<in> set (tk_ready t). announced ws tr n \<Longrightarrow> r = launch_phase env t s \<Longrightarrow>
    world env services ws s0 (tr @ news s (flow_state r)) (flow_state r)
      (case r of Go _ \<Rightarrow> Receiving t | _ \<Rightarrow> Ended)"
| world_poll: "world env services ws s0 tr s (Receiving t) \<Longrightarrow>
    (\<forall>n. tk_late t = Some n \<longrightarrow> announced ws tr n) \<Longrightarrow> r = poll_phase env t s \<Longrightarrow>
    world env services ws s0 (tr @ news s (flow_state r)) (flow_state r)
      (case r of Go _ \<Rightarrow> Top | _ \<Rightarrow> Ended)"

text \<open>The rules for phases that go on.\<close>

lemma world_launch_Go:
  "world env services ws s0 tr s Top \<Longrightarrow> \<not> tk_shutdown t \<Longrightarrow> tk_commands t = [] \<Longrightarrow>
     \<forall>n \<in> set (tk_ready t). announced ws tr n \<Longrightarrow> launch_phase env t s = Go s' \<Longrightarrow>
     world env services ws s0 (tr @ news s s') s' (Receiving t)"
  using world_launch[of env services ws s0 tr s t "Go s'"] by simp

lemma world_poll_Go:
  "world env services ws s0 tr s (Receiving t) \<Longrightarrow> \<forall>n. tk_late t = Some n \<longrightarrow> announced ws tr n \<Longrightarrow>
     poll_phase env t s = Go s' \<Longrightarrow> world env services ws s0 (tr @ news s s') s' Top"
  using world_poll[of env services ws s0 tr s t "Go s'"] by simp

section \<open>A world is a run\<close>

fun run_so_far :: "exec_env \<Rightarrow> string option \<Rightarrow> exec \<Rightarrow> exec \<Rightarrow> phase \<Rightarrow> bool" where
  "run_so_far env marker s0 s Top = (\<exists>ts. run_loop env marker ts s0 = StillRunning s)"
| "run_so_far env marker s0 s (Receiving t) =
     (\<not> tk_shutdown t \<and> tk_commands t = [] \<and>
      (\<exists>ts s1. run_loop env marker ts s0 = StillRunning s1 \<and> launch_phase env t s1 = Go s))"
| "run_so_far env marker s0 s Ended = True"


lemma world_run:
  "world env services ws s0 tr s ph \<Longrightarrow> run_so_far env marker s0 s ph"
proof (induction rule: world.induct)
  case world_begin
  have "run_loop env marker [] s0 = StillRunning s0" by simp
  then show ?case by (simp only: run_so_far.simps) blast
next
  case (world_file tr s ph d op)
  then show ?case by simp
next
  case (world_launch tr s t r)
  then show ?case by (cases "launch_phase env t s") auto
next
  case (world_poll tr s t r)
  then obtain ts s1 where r: "\<not> tk_shutdown t" "tk_commands t = []" "run_loop env marker ts s0 = StillRunning s1"
    "launch_phase env t s1 = Go s" by auto
  have "run_loop env marker (ts @ [t]) s0 = StillRunning s'" if "poll_phase env t s = Go s'" for s'
    using r that by (simp add: run_loop_append iteration_phases)
  then show ?case using world_poll by (cases "poll_phase env t s") auto
qed

section \<open>What holds in every world\<close>

lemma adds_news:
  assumes "adds N s s'"
  shows "ex_log s' = ex_log s @ exec_events (news s s')" "justified (exec_events (news s s'))"
    "reports (exec_events (news s s')) \<subseteq> N"
  using assms by (auto simp: adds_def news_def)

text \<open>Every report of a service was announced; every creation of a file was permitted.\<close>

definition reports_announced :: "watcher list \<Rightarrow> world_event list \<Rightarrow> bool" where
  "reports_announced ws tr \<longleftrightarrow>
     (\<forall>pre n post. tr = pre @ Exec (EvReadyPidfile n) # post \<longrightarrow> announced ws pre n)"

definition files_permitted :: "service_def list \<Rightarrow> world_event list \<Rightarrow> bool" where
  "files_permitted services tr \<longleftrightarrow> (\<forall>pre e post. tr = pre @ e # post \<longrightarrow> permitted services pre e)"

lemma reports_announced_append:
  assumes "reports_announced ws tr" "\<And>n. Exec (EvReadyPidfile n) \<in> set us \<Longrightarrow> announced ws tr n"
  shows "reports_announced ws (tr @ us)"
  unfolding reports_announced_def
proof (intro allI impI)
  fix pre n post
  assume "tr @ us = pre @ Exec (EvReadyPidfile n) # post"
  then consider vs where "tr = pre @ Exec (EvReadyPidfile n) # vs"
    | vs where "pre = tr @ vs" "us = vs @ Exec (EvReadyPidfile n) # post"
    by (auto simp: append_eq_append_conv2 append_eq_Cons_conv)
  then show "announced ws pre n"
    using assms by cases (auto simp: reports_announced_def announced_later)
qed

lemma files_permitted_append:
  assumes "files_permitted services tr" "\<And>vs e ws. us = vs @ e # ws \<Longrightarrow> permitted services (tr @ vs) e"
  shows "files_permitted services (tr @ us)"
  unfolding files_permitted_def
proof (intro allI impI)
  fix pre e post
  assume "tr @ us = pre @ e # post"
  then consider vs where "tr = pre @ e # vs" | vs where "pre = tr @ vs" "us = vs @ e # post"
    by (auto simp: append_eq_append_conv2 append_eq_Cons_conv)
  then show "permitted services pre e"
    using assms by cases (auto simp: files_permitted_def)
qed

lemma permitted_Exec [simp]: "permitted services tr (Exec ev)"
  by (simp add: permitted_def split: option.split)

lemma files_permitted_news: "files_permitted services tr \<Longrightarrow> files_permitted services (tr @ news s s')"
  by (rule files_permitted_append) (auto simp: news_def map_eq_append_conv)

text \<open>The phases keep the invariant of a boot and of the release order, and add blocks.\<close>

lemma launch_phase_inv:
  assumes "boot_inv services g s" "release_inv services g s" "\<forall>n \<in> set (tk_ready t). sig_started n s"
  shows "flow_inv (boot_inv services g) (boot_safe services g) (boot_safe services g) (launch_phase env t s)"
    "release_inv services g (flow_state (launch_phase env t s))"
    "adds (set (tk_ready t)) s (flow_state (launch_phase env t s))"
proof -
  have sig: "list_all (\<lambda>n. sig_started n s) (tk_ready t)" using assms(3) by (simp add: list_all_iff)
  show "flow_inv (boot_inv services g) (boot_safe services g) (boot_safe services g) (launch_phase env t s)"
    unfolding launch_phase_def by (intro boot.keeps_launch_all boot.keeps_drain_ready assms(1) sig)
  have "release_inv services g (drain_ready (tk_ready t) s)"
    by (rule rel.keeps_drain_ready[OF assms(2)]) (simp add: list_all_iff)
  then show "release_inv services g (flow_state (launch_phase env t s))"
    unfolding launch_phase_def using rel.keeps_launch_all by simp
  show "adds (set (tk_ready t)) s (flow_state (launch_phase env t s))"
    unfolding launch_phase_def
    by (rule adds_trans[OF adds_drain_ready]) (rule adds_mono[OF adds_launch_all], simp)
qed

lemma poll_phase_inv:
  assumes "boot_inv services g s" "release_inv services g s" "\<forall>n. tk_late t = Some n \<longrightarrow> sig_started n s"
  shows "flow_inv (boot_inv services g) (boot_safe services g) (boot_safe services g) (poll_phase env t s)"
    "release_inv services g (flow_state (poll_phase env t s))"
    "adds (set_option (tk_late t)) s (flow_state (poll_phase env t s))"
proof -
  let ?s = "case tk_late t of None \<Rightarrow> s | Some name \<Rightarrow> report_ready name s"
  let ?r = "poll_all env t (map fst (tk_order t (ex_pid_to_name ?s))) ?s"
  have b: "boot_inv services g ?s" using assms(1,3) by (auto intro: boot.keeps_ready split: option.split)
  have l: "release_inv services g ?s" using assms(2) by (auto intro: rel.upd_ready split: option.split)
  have a: "adds (set_option (tk_late t)) s ?s" by (auto simp: adds_report adds_same split: option.split)
  show "flow_inv (boot_inv services g) (boot_safe services g) (boot_safe services g) (poll_phase env t s)"
    using assms(1) boot.keeps_poll_all[OF b] by (auto simp: poll_phase_def Let_def)
  show "release_inv services g (flow_state (poll_phase env t s))"
    using assms(2) rel.keeps_poll_all[OF l] by (auto simp: poll_phase_def Let_def)
  have "adds (set_option (tk_late t)) s (flow_state ?r)"
    by (rule adds_trans[OF a]) (rule adds_mono[OF adds_poll_all], simp)
  then show "adds (set_option (tk_late t)) s (flow_state (poll_phase env t s))"
    by (auto simp: poll_phase_def Let_def adds_same)
qed

definition world_inv ::
  "service_def list \<Rightarrow> service_graph \<Rightarrow> watcher list \<Rightarrow> world_event list \<Rightarrow> exec \<Rightarrow> phase \<Rightarrow> bool" where
  "world_inv services g ws tr s ph \<longleftrightarrow>
     (ph \<noteq> Ended \<longrightarrow> boot_inv services g s) \<and> boot_safe services g s \<and> release_inv services g s \<and>
     ex_log s = exec_events tr \<and> justified (exec_events tr) \<and>
     reports_announced ws tr \<and> files_permitted services tr"

text \<open>The watchers are the ones that belong to the readiness paths of the services.\<close>

definition watchers_match :: "service_def list \<Rightarrow> watcher list \<Rightarrow> bool" where
  "watchers_match services ws \<longleftrightarrow>
     (\<forall>(st, p, n) \<in> set ws. \<exists>d \<in> set services. sd_name d = n \<and> sd_ready_path d = Some p)"

lemma announced_creation:
  assumes "watchers_match services ws" "files_permitted services tr" "announced ws tr n"
  shows "\<exists>a e b d p. tr = a @ e # b \<and> d \<in> set services \<and> sd_name d = n \<and> sd_ready_path d = Some p \<and>
    makes p e \<and> Exec (EvStarting n) \<in> set a"
proof -
  from announced_made[OF assms(3)] obtain st p e where e: "(st, p, n) \<in> set ws" "e \<in> set tr" "makes p e"
    by blast
  from assms(1) e(1) obtain d where d: "d \<in> set services" "sd_name d = n" "sd_ready_path d = Some p"
    by (force simp: watchers_match_def)
  from e(2) obtain a b where s: "tr = a @ e # b" by (auto dest: split_list)
  then have "permitted services a e" using assms(2) by (simp add: files_permitted_def)
  then have "Exec (EvStarting n) \<in> set a" using d e(3) by (auto simp: permitted_def)
  with s d e(3) show ?thesis by blast
qed

lemma announced_started:
  assumes "watchers_match services ws" "files_permitted services tr" "announced ws tr n"
    "ex_log s = exec_events tr"
  shows "sig_started n s"
proof -
  from announced_creation[OF assms(1-3)] have "EvStarting n \<in> set (ex_log s)" by (auto simp: assms(4))
  then show ?thesis by (force simp: sig_started_def started_def)
qed

lemma world_inv_news:
  assumes "world_inv services g ws tr s ph" "adds N s (flow_state r)" "\<forall>n \<in> N. announced ws tr n"
    "flow_inv (boot_inv services g) (boot_safe services g) (boot_safe services g) r"
    "release_inv services g (flow_state r)"
  shows "world_inv services g ws (tr @ news s (flow_state r)) (flow_state r) (case r of Go _ \<Rightarrow> ph' | _ \<Rightarrow> Ended)"
proof -
  note n = adds_news[OF assms(2)]
  have "reports_announced ws (tr @ news s (flow_state r))"
  proof (rule reports_announced_append)
    fix m assume "Exec (EvReadyPidfile m) \<in> set (news s (flow_state r))"
    then have "m \<in> N" using n(3) by (auto simp: reports_def)
    with assms(3) show "announced ws tr m" by blast
  qed (use assms(1) in \<open>simp add: world_inv_def\<close>)
  moreover have "boot_safe services g (flow_state r)" "(\<exists>s'. r = Go s') \<longrightarrow> boot_inv services g (flow_state r)"
    using assms(4) by (cases r; auto dest: boot_invD(1))+
  ultimately show ?thesis
    using assms(1,5) n justified_append files_permitted_news
    by (cases r) (auto simp: world_inv_def)
qed

lemma world_inv_init:
  assumes "is_hash_order ho" "build ho services = Ok g"
  shows "world_inv services g ws [] (init_exec env rd g services shared) Top"
proof -
  let ?s = "init_exec env rd g services shared"
  have b: "boot_inv services g ?s" using assms by (intro boot_init) (auto simp: built_from_def)
  have "release_inv services g ?s"
    using release_run[OF assms, of env rd shared None "[]"] by (simp add: run_with_marker_def)
  moreover have "ex_log ?s = []" by (simp add: init_exec_def Let_def)
  ultimately show ?thesis
    using b boot_invD(1)[OF b] by (simp add: world_inv_def reports_announced_def files_permitted_def justified_def)
qed

lemma world_keeps:
  assumes "world env services ws s0 tr s ph" "world_inv services g ws [] s0 Top" "watchers_match services ws"
  shows "world_inv services g ws tr s ph"
  using assms
proof (induction rule: world.induct)
  case world_begin
  then show ?case by blast
next
  case (world_file tr s ph d op)
  then have "files_permitted services (tr @ [FileOp d op])"
    by (intro files_permitted_append) (auto simp: world_inv_def Cons_eq_append_conv)
  moreover have "reports_announced ws (tr @ [FileOp d op])"
    using world_file by (intro reports_announced_append) (auto simp: world_inv_def)
  ultimately show ?case using world_file by (simp add: world_inv_def)
next
  case (world_launch tr s t r)
  then have inv: "world_inv services g ws tr s Top" by blast
  then have "\<forall>n \<in> set (tk_ready t). sig_started n s"
    using announced_started world_launch by (auto simp: world_inv_def)
  with inv have p: "boot_inv services g s" "release_inv services g s" "\<forall>n \<in> set (tk_ready t). sig_started n s"
    by (simp_all add: world_inv_def)
  show ?case
    unfolding \<open>r = launch_phase env t s\<close>
    using world_inv_news[OF inv] launch_phase_inv[OF p] world_launch(4) by blast
next
  case (world_poll tr s t r)
  then have inv: "world_inv services g ws tr s (Receiving t)" by blast
  then have "\<forall>n. tk_late t = Some n \<longrightarrow> sig_started n s"
    using announced_started world_poll by (auto simp: world_inv_def)
  with inv have p: "boot_inv services g s" "release_inv services g s" "\<forall>n. tk_late t = Some n \<longrightarrow> sig_started n s"
    by (simp_all add: world_inv_def)
  have "\<forall>n \<in> set_option (tk_late t). announced ws tr n" using world_poll(2) by simp
  then show ?case
    unfolding \<open>r = poll_phase env t s\<close>
    using world_inv_news[OF inv] poll_phase_inv[OF p] by blast
qed

section \<open>Starts wait for the files\<close>

lemma world_start_order:
  assumes "world_inv services g ws (pre @ Exec (EvStarting n) # post) s ph" "watchers_match services ws"
    "m \<in> deps_of services n"
  shows "(\<exists>a e b d p. pre = a @ e # b \<and> d \<in> set services \<and> sd_name d = m \<and> sd_ready_path d = Some p \<and>
      makes p e \<and> Exec (EvStarting m) \<in> set a) \<or>
    Exec (EvBlocked m) \<in> set pre \<or> (\<exists>c. Exec (EvExitedLine m c) \<in> set pre) \<or>
    (\<exists>sig. Exec (EvKilledLine m sig) \<in> set pre)"
proof -
  let ?tr = "pre @ Exec (EvStarting n) # post"
  from assms(1) have log: "ex_log s = exec_events pre @ EvStarting n # exec_events post"
    by (simp add: world_inv_def)
  have q: "queue_inv services g s" and rel: "start_ordered services (ex_log s)"
    and j: "justified (exec_events ?tr)" and ra: "reports_announced ws ?tr" and fp: "files_permitted services ?tr"
    using assms(1) unfolding world_inv_def boot_safe_def release_inv_def by blast+
  have "distinct (marks (exec_events pre))" using q unfolding queue_inv_def log by simp
  then have "m \<in> set (marks (exec_events pre))" using rel assms(3) unfolding start_ordered_def log by blast
  then have "EvMark m \<in> set (exec_events pre)" by (auto simp: marks_def split: event.splits)
  then obtain xs ys where xs: "exec_events pre = xs @ EvMark m # ys" by (meson split_list)
  then have "mark_reason xs m" using j unfolding justified_def by (simp add: xs)
  then have "mark_reason (exec_events pre) m" unfolding xs by simp
  moreover have "\<exists>a e b d p. pre = a @ e # b \<and> d \<in> set services \<and> sd_name d = m \<and> sd_ready_path d = Some p \<and>
      makes p e \<and> Exec (EvStarting m) \<in> set a" if report: "Exec (EvReadyPidfile m) \<in> set pre"
  proof -
    obtain us vs where pre: "pre = us @ Exec (EvReadyPidfile m) # vs" using report by (meson split_list)
    have "announced ws us m" using ra unfolding reports_announced_def pre by simp
    moreover have "files_permitted services us"
      using fp unfolding files_permitted_def pre by simp
    ultimately obtain a e b d p where "us = a @ e # b" "d \<in> set services" "sd_name d = m"
      "sd_ready_path d = Some p" "makes p e" "Exec (EvStarting m) \<in> set a"
      using announced_creation[OF assms(2)] by blast
    moreover have "pre = a @ e # (b @ Exec (EvReadyPidfile m) # vs)" using calculation(1) pre by simp
    ultimately show ?thesis by blast
  qed
  ultimately show ?thesis by (auto simp: mark_reason_def ended_in_def)
qed

section \<open>The watchers of \<open>main\<close>\<close>

lemma start_watchers_match:
  assumes "snd (start_watchers mk services) = None"
  shows "watchers_match services (watchers_of (fst (start_watchers mk services)))"
  unfolding watchers_match_def watchers_of_def start_watchers_all[OF assms]
  by (auto simp: sd_ready_path_def split: option.splits)

lemma install_handlers_quiet: "watchers_of (fst (install_handlers res sigs)) = []"
  by (induction sigs) (auto simp: watchers_of_def split: option.split prod.split)

lemma watchers_of_simps [simp]:
  "watchers_of (xs @ ys) = watchers_of xs @ watchers_of ys" "watchers_of (StartCtl # xs) = watchers_of xs"
  "watchers_of (map SetupCall cs) = []"
  by (induction cs) (simp_all add: watchers_of_def)

lemma main_watchers:
  assumes "mr_run (main env) = Some (services, g, r)"
  shows "watchers_match services (watchers_of (mr_actions (main env)))"
proof -
  have "watchers_of (mr_actions (main env)) = watchers_of (fst (start_watchers (mn_mkdir env) services)) \<and>
      snd (start_watchers (mn_mkdir env) services) = None"
    using assms install_handlers_quiet[of "mn_signal env" "[15, 2, 10]"]
    by (auto simp: main_def boot_services_def Let_def split: prod.splits sum.splits option.splits
        if_splits outcome.splits)
  then show ?thesis using start_watchers_match by metis
qed

end
