(* ===== verification/Test_Support.thy ===== *)
theory Test_Support
  imports Samples
begin

text \<open>
  What the replayed unit tests share. A test of the repository becomes a definition of type \<open>bool\<close>, or
  a predicate of the iteration order of hash maps, which is false where the test would panic; the
  lemmas evaluate it in the logic. \<open>unwrap\<close> is the method of \<open>Result\<close>, continued by the rest of the
  test; \<open>table_toml\<close> is a TOML parser that knows the texts of one test.
\<close>

definition unwrap :: "('e, 'a) outcome \<Rightarrow> ('a \<Rightarrow> bool) \<Rightarrow> bool" where
  "unwrap r rest = (case r of Ok a \<Rightarrow> rest a | Err _ \<Rightarrow> False | Panic \<Rightarrow> False)"

definition unwrap_sum :: "'e + 'a \<Rightarrow> ('a \<Rightarrow> bool) \<Rightarrow> bool" where
  "unwrap_sum r rest = (case r of Inr a \<Rightarrow> rest a | Inl _ \<Rightarrow> False)"

definition is_inl :: "'e + 'a \<Rightarrow> bool" where
  "is_inl r = (case r of Inl _ \<Rightarrow> True | Inr _ \<Rightarrow> False)"

definition table_toml :: "(string \<times> service_def) list \<Rightarrow> toml_parser" where
  "table_toml table text =
     (case map_of table text of Some def \<Rightarrow> Inr def | None \<Rightarrow> Inl ''parse error'')"

definition reverse_order :: hash_order where
  "reverse_order t xs = rev xs"

lemma reverse_order_ok [simp]: "is_hash_order reverse_order"
  by (simp add: is_hash_order_def reverse_order_def)

text \<open>The two iteration orders for which the tests are evaluated.\<close>

definition both_orders :: "(hash_order \<Rightarrow> bool) \<Rightarrow> bool" where
  "both_orders test = (test sample_order \<and> test reverse_order)"

end
