(* ===== verification/Graph_Tests.thy ===== *)
theory Graph_Tests
  imports Shutdown_Order Test_Support
begin

text \<open>
  The unit tests of \<open>graph.rs\<close>, replayed on the model. The tests of the source run with one random
  hash seed; here each is evaluated for two iteration orders, one the reverse of the other.
\<close>

definition make_service :: "string \<Rightarrow> string list \<Rightarrow> string list \<Rightarrow> service_def" where
  "make_service name after needs =
     \<lparr>sd_service = \<lparr>svc_name = name, svc_exec = ''/bin/'' @ name, svc_restart = None, svc_user = None,
        svc_args = None\<rparr>,
      sd_deps = (if after = [] \<and> needs = [] then None
                 else Some \<lparr>deps_after = after, deps_needs = needs\<rparr>),
      sd_ready = None, sd_resources = None\<rparr>"

section \<open>Readiness\<close>

definition single_service_is_immediately_ready :: "hash_order \<Rightarrow> bool" where
  "single_service_is_immediately_ready ho =
     (let services = [make_service ''foo'' [] []]
      in unwrap (build ho services) (\<lambda>graph. initially_ready graph = [''foo'']))"

definition service_with_dep_not_initially_ready :: "hash_order \<Rightarrow> bool" where
  "service_with_dep_not_initially_ready ho =
     (let services = [make_service ''a'' [] [], make_service ''b'' [''a''] []]
      in unwrap (build ho services) (\<lambda>graph. initially_ready graph = [''a'']))"

definition marking_ready_unblocks_dependent :: "hash_order \<Rightarrow> bool" where
  "marking_ready_unblocks_dependent ho =
     (let services = [make_service ''a'' [] [], make_service ''b'' [''a''] []]
      in unwrap (build ho services) (\<lambda>graph. fst (mark_ready graph ''a'') = [''b'']))"

definition diamond_services :: "service_def list" where
  "diamond_services =
     [make_service ''root'' [] [], make_service ''left'' [''root''] [],
      make_service ''right'' [''root''] [], make_service ''leaf'' [''left'', ''right''] []]"

definition diamond_dependency_waits_for_both_parents :: "hash_order \<Rightarrow> bool" where
  "diamond_dependency_waits_for_both_parents ho =
     unwrap (build ho diamond_services) (\<lambda>graph.
       initially_ready graph = [''root''] \<and>
       (let (after_root, graph) = mark_ready graph ''root'';
            (after_left, graph) = mark_ready graph ''left'';
            (after_right, graph) = mark_ready graph ''right''
        in sort after_root = [''left'', ''right''] \<and> after_left = [] \<and> after_right = [''leaf'']))"

section \<open>Cycles\<close>

definition show_graph_error :: "graph_error \<Rightarrow> string" where
  "show_graph_error e =
     (case e of
        Cycle names \<Rightarrow> ''dependency cycle detected involving service(s): '' @ names
      | UnknownDep service dep \<Rightarrow>
          ''unknown dependency '' @ [CHR 0x27] @ dep @ [CHR 0x27] @ '' referenced by '' @
          [CHR 0x27] @ service @ [CHR 0x27])"

definition cycle_is_detected :: "hash_order \<Rightarrow> bool" where
  "cycle_is_detected ho =
     (let services = [make_service ''a'' [''b''] [], make_service ''b'' [''a''] []]
      in case build ho services of Err e \<Rightarrow> contains_sub (show_graph_error e) ''cycle'' | _ \<Rightarrow> False)"

definition self_loop_is_detected :: "hash_order \<Rightarrow> bool" where
  "self_loop_is_detected ho =
     (case build ho [make_service ''a'' [''a''] []] of Err _ \<Rightarrow> True | _ \<Rightarrow> False)"

section \<open>Needs\<close>

definition needs_dependents_populated_correctly :: "hash_order \<Rightarrow> bool" where
  "needs_dependents_populated_correctly ho =
     (let services = [make_service ''a'' [] [], make_service ''b'' [''a''] [''a''], make_service ''c'' [''a''] []]
      in unwrap (build ho services) (\<lambda>graph. sort (needs_dependents graph ''a'') = [''b'']))"

definition needs_dependents_empty_for_after_only :: "hash_order \<Rightarrow> bool" where
  "needs_dependents_empty_for_after_only ho =
     (let services = [make_service ''a'' [] [], make_service ''b'' [''a''] []]
      in unwrap (build ho services) (\<lambda>graph. needs_dependents graph ''a'' = []))"

definition needs_dependents_empty_for_unknown_service :: "hash_order \<Rightarrow> bool" where
  "needs_dependents_empty_for_unknown_service ho =
     unwrap (build ho [make_service ''a'' [] []]) (\<lambda>graph. needs_dependents graph ''nonexistent'' = [])"

section \<open>Shutdown\<close>

definition chain_services :: "service_def list" where
  "chain_services = [make_service ''a'' [] [], make_service ''b'' [''a''] [], make_service ''c'' [''b''] []]"

definition shutdown_order_is_reverse_topological :: "hash_order \<Rightarrow> bool" where
  "shutdown_order_is_reverse_topological ho =
     unwrap (build ho chain_services) (\<lambda>graph.
       shutdown_order graph (ho ''running'' [''a'', ''b'', ''c'']) = [''c'', ''b'', ''a''])"

definition shutdown_order_skips_non_running_services :: "hash_order \<Rightarrow> bool" where
  "shutdown_order_skips_non_running_services ho =
     unwrap (build ho chain_services) (\<lambda>graph.
       shutdown_order graph (ho ''running'' [''a'', ''c'']) = [''a'', ''c''])"

definition shutdown_order_diamond :: "hash_order \<Rightarrow> bool" where
  "shutdown_order_diamond ho =
     unwrap (build ho diamond_services) (\<lambda>graph.
       (let order = shutdown_order graph (ho ''running'' [''root'', ''left'', ''right'', ''leaf''])
        in length order = 4 \<and> order ! 0 = ''leaf'' \<and> order ! 3 = ''root''))"

section \<open>The tests pass\<close>

lemma graph_readiness_tests:
  "both_orders single_service_is_immediately_ready" "both_orders service_with_dep_not_initially_ready"
  "both_orders marking_ready_unblocks_dependent" "both_orders diamond_dependency_waits_for_both_parents"
  by code_simp+

lemma graph_cycle_tests: "both_orders cycle_is_detected" "both_orders self_loop_is_detected"
  by code_simp+

lemma graph_needs_tests:
  "both_orders needs_dependents_populated_correctly" "both_orders needs_dependents_empty_for_after_only"
  "both_orders needs_dependents_empty_for_unknown_service"
  by code_simp+

lemma graph_shutdown_tests:
  "both_orders shutdown_order_is_reverse_topological" "both_orders shutdown_order_skips_non_running_services"
  "both_orders shutdown_order_diamond"
  by code_simp+

text \<open>
  The last of these but one: with the middle of a chain gone, its two ends are stopped in the order of
  their names, since their dependency is only an indirect one.
\<close>

end
