(* ===== verification/Tools_Tests.thy ===== *)
theory Tools_Tests
  imports Test_Support Check Fstab Catalog Scaffold Ready
begin

text \<open>
  The unit tests of \<open>service.rs\<close>, \<open>fstab.rs\<close>, \<open>catalog.rs\<close>, \<open>check.rs\<close>, \<open>scaffold.rs\<close> and \<open>ready.rs\<close>, replayed on
  the model. A temporary directory is the listing that the test has built; a parser is the table of the
  texts of the test. The tests that only exercise the TOML and bincode libraries, or only whether the
  kernel accepts a connection, say nothing about the code and are left out.
\<close>

definition toml_def :: "string \<Rightarrow> string \<Rightarrow> service_def" where
  "toml_def name exec =
     \<lparr>sd_service = \<lparr>svc_name = name, svc_exec = exec, svc_restart = None, svc_user = None, svc_args = None\<rparr>,
      sd_deps = None, sd_ready = None, sd_resources = None\<rparr>"

definition toml_text :: "string \<Rightarrow> string \<Rightarrow> string list \<Rightarrow> string" where
  "toml_text name exec rest =
     unlines ([''[service]'', ''name = '' @ quoted name, ''exec = '' @ quoted exec] @ rest)"

definition toml_file :: "string \<Rightarrow> string \<Rightarrow> io_error + dirent" where
  "toml_file name content = Inr \<lparr>de_name = name @ ''.toml'', de_content = Inr content, de_mtime = Inr 0\<rparr>"

section \<open>service.rs\<close>

definition ready_lines :: "string \<Rightarrow> string list" where
  "ready_lines path = [''[ready]'', ''strategy = '' @ quoted ''pidfile'', ''path = '' @ quoted path]"

definition ready_def :: "string \<Rightarrow> string \<Rightarrow> string \<Rightarrow> service_def" where
  "ready_def name exec path =
     (toml_def name exec)\<lparr>sd_ready := Some \<lparr>rd_strategy = Pidfile, rd_path = Some path\<rparr>\<rparr>"

definition validate_accepts_ready_path_under_run :: bool where
  "validate_accepts_ready_path_under_run =
     (\<not> is_inl (validate (ready_def ''sshd'' ''/usr/sbin/sshd'' ''/run/sshd.pid'')))"

definition validate_accepts_ready_path_under_var_run :: bool where
  "validate_accepts_ready_path_under_var_run =
     (\<not> is_inl (validate (ready_def ''nm'' ''/usr/sbin/NetworkManager'' ''/var/run/NetworkManager.pid'')))"

definition validate_rejects_ready_path_outside_run :: bool where
  "validate_rejects_ready_path_outside_run =
     (case validate (ready_def ''bad'' ''/bin/bad'' ''/etc/passwd'') of
        Inl e \<Rightarrow> contains_sub (show_validate e) ''/etc/passwd''
      | Inr _ \<Rightarrow> False)"

definition validate_rejects_ready_path_with_traversal :: bool where
  "validate_rejects_ready_path_with_traversal =
     is_inl (validate (ready_def ''bad'' ''/bin/bad'' ''/run/../etc/shadow''))"

definition validate_accepts_no_ready_section :: bool where
  "validate_accepts_no_ready_section = (\<not> is_inl (validate (toml_def ''simple'' ''/bin/true'')))"

definition load_services_from_dir_reads_toml_files :: bool where
  "load_services_from_dir_reads_toml_files =
     (let text = toml_text ''foo'' ''/bin/foo'' [];
          toml = table_toml [(text, toml_def ''foo'' ''/bin/foo'')]
      in unwrap_sum (load_services_from_dir toml (Inr [toml_file ''foo'' text]))
           (\<lambda>services. length services = 1 \<and> sd_name (services ! 0) = ''foo''))"

text \<open>The context that the loader adds to an error.\<close>

definition show_load_error :: "string \<Rightarrow> load_error \<Rightarrow> string" where
  "show_load_error dir e =
     (case e of
        LoadIo _ \<Rightarrow> ''i/o error''
      | LoadParse file msg \<Rightarrow> ''Failed to parse '' @ quoted (path_join dir file) @ '': '' @ msg
      | LoadInvalid file v \<Rightarrow> ''Failed to validate '' @ quoted (path_join dir file) @ '': '' @ show_validate v)"

definition load_services_from_dir_rejects_invalid_ready_path :: bool where
  "load_services_from_dir_rejects_invalid_ready_path =
     (let text = toml_text ''bad'' ''/bin/bad'' (ready_lines ''/etc/hosts'');
          toml = table_toml [(text, ready_def ''bad'' ''/bin/bad'' ''/etc/hosts'')]
      in case load_services_from_dir toml (Inr [toml_file ''bad'' text]) of
           Inl e \<Rightarrow> contains_sub (show_load_error ''/tmp/dir'' e) ''/etc/hosts''
         | Inr _ \<Rightarrow> False)"

definition load_services_from_dir_errors_on_bad_toml :: bool where
  "load_services_from_dir_errors_on_bad_toml =
     (case load_services_from_dir (table_toml []) (Inr [toml_file ''bad'' ''this is not valid toml ][''])  of
        Inl e \<Rightarrow> contains_sub (show_load_error ''/tmp/dir'' e) ''bad.toml''
      | Inr _ \<Rightarrow> False)"

lemma service_tests:
  validate_accepts_ready_path_under_run validate_accepts_ready_path_under_var_run
  validate_rejects_ready_path_outside_run validate_rejects_ready_path_with_traversal
  validate_accepts_no_ready_section load_services_from_dir_reads_toml_files
  load_services_from_dir_rejects_invalid_ready_path load_services_from_dir_errors_on_bad_toml
  by code_simp+

section \<open>fstab.rs\<close>

definition parse_fstab_skips_comments_and_blanks :: bool where
  "parse_fstab_skips_comments_and_blanks =
     (let content = unlines ['''', ''# This is a comment'',
            ''UUID=abc123  /       ext4   defaults  0  1'',
            ''UUID=def456  /boot   vfat   defaults  0  2'', '''',
            ''tmpfs        /tmp    tmpfs  defaults  0  0''];
          entries = parse_fstab content
      in length entries = 3 \<and> fs_spec (entries ! 0) = ''UUID=abc123'' \<and> fs_file (entries ! 0) = ''/'' \<and>
         fs_file (entries ! 1) = ''/boot'' \<and> fs_vfstype (entries ! 2) = ''tmpfs'')"

definition should_mount_skips_root :: bool where
  "should_mount_skips_root =
     (\<not> should_mount \<lparr>fs_spec = ''UUID=abc'', fs_file = ''/'', fs_vfstype = ''ext4'', fs_options = ''defaults''\<rparr>)"

definition should_mount_skips_virtual_types :: bool where
  "should_mount_skips_virtual_types =
     list_all (\<lambda>vt. \<not> should_mount
         \<lparr>fs_spec = ''none'', fs_file = ''/'' @ vt, fs_vfstype = vt, fs_options = ''defaults''\<rparr>)
       [''proc'', ''sysfs'', ''devtmpfs'', ''tmpfs'', ''cgroup2'']"

definition should_mount_skips_noauto :: bool where
  "should_mount_skips_noauto =
     (\<not> should_mount \<lparr>fs_spec = ''UUID=xyz'', fs_file = ''/mnt/backup'', fs_vfstype = ''ext4'',
        fs_options = ''noauto,defaults''\<rparr>)"

definition should_mount_accepts_real_partitions :: bool where
  "should_mount_accepts_real_partitions =
     should_mount \<lparr>fs_spec = ''UUID=abc'', fs_file = ''/home'', fs_vfstype = ''ext4'', fs_options = ''defaults''\<rparr>"

definition resolve_spec_uuid :: bool where
  "resolve_spec_uuid = (resolve_spec ''UUID=1234-5678'' = ''/dev/disk/by-uuid/1234-5678'')"

definition resolve_spec_label :: bool where
  "resolve_spec_label = (resolve_spec ''LABEL=boot'' = ''/dev/disk/by-label/boot'')"

definition resolve_spec_device_path :: bool where
  "resolve_spec_device_path = (resolve_spec ''/dev/sda1'' = ''/dev/sda1'')"

definition parse_flags_ro :: bool where
  "parse_flags_ro =
     (case parse_flags ''ro,noexec'' of (flags, data) \<Rightarrow>
        flags AND MS_RDONLY = MS_RDONLY \<and> flags AND MS_NOEXEC = MS_NOEXEC \<and> data = [])"

definition parse_flags_defaults_is_empty :: bool where
  "parse_flags_defaults_is_empty = (parse_flags ''defaults'' = (0, []))"

definition parse_flags_unknown_goes_to_data :: bool where
  "parse_flags_unknown_goes_to_data =
     (snd (parse_flags ''defaults,uid=1000,gid=1000'') = ''uid=1000,gid=1000'')"

lemma fstab_tests:
  parse_fstab_skips_comments_and_blanks should_mount_skips_root should_mount_skips_virtual_types
  should_mount_skips_noauto should_mount_accepts_real_partitions resolve_spec_uuid resolve_spec_label
  resolve_spec_device_path parse_flags_ro parse_flags_defaults_is_empty parse_flags_unknown_goes_to_data
  by code_simp+

section \<open>scaffold.rs\<close>

definition detects_no_daemon_flag :: bool where
  "detects_no_daemon_flag =
     (detect_foreground_flag (unlines [''Usage: mysqld [OPTIONS]'', ''  --no-daemon   Run in foreground'']) =
        Some ''--no-daemon'')"

definition detects_nofork_flag :: bool where
  "detects_nofork_flag =
     (detect_foreground_flag (unlines [''  --nofork   Do not fork into background'']) = Some ''--nofork'')"

definition returns_none_when_no_flag_found :: bool where
  "returns_none_when_no_flag_found =
     (detect_foreground_flag (unlines [''Usage: myapp [OPTIONS]'', ''  --verbose   Be verbose'']) = None)"

definition detects_socket_readiness :: bool where
  "detects_socket_readiness =
     (case detect_readiness_block ''foo'' (unlines [''  --socket /run/foo.sock   Unix socket path'']) of
        None \<Rightarrow> False
      | Some block \<Rightarrow> contains_sub block ''socket'' \<and> contains_sub block ''/run/foo.sock'')"

definition detects_pidfile_readiness :: bool where
  "detects_pidfile_readiness =
     (case detect_readiness_block ''foo'' (unlines [''  --pidfile /run/foo.pid   Write PID to file'']) of
        None \<Rightarrow> False
      | Some block \<Rightarrow> contains_sub block ''pidfile'' \<and> contains_sub block ''/run/foo/foo.pid'')"

definition socket_takes_priority_over_pidfile :: bool where
  "socket_takes_priority_over_pidfile =
     (case detect_readiness_block ''foo'' (unlines [''  --socket /run/foo.sock'', ''  --pidfile /run/foo.pid'']) of
        None \<Rightarrow> False
      | Some block \<Rightarrow> contains_sub block (''strategy = '' @ quoted ''socket''))"

definition returns_none_when_no_readiness_hint :: bool where
  "returns_none_when_no_readiness_hint =
     (detect_readiness_block ''myapp'' (unlines [''Usage: myapp'', ''  --verbose'']) = None)"

definition foreground_flags_checked_in_priority_order :: bool where
  "foreground_flags_checked_in_priority_order =
     (detect_foreground_flag (unlines [''  --no-daemon'', ''  --foreground'']) = Some ''--foreground'')"

lemma scaffold_tests:
  detects_no_daemon_flag detects_nofork_flag returns_none_when_no_flag_found detects_socket_readiness
  detects_pidfile_readiness socket_takes_priority_over_pidfile returns_none_when_no_readiness_hint
  foreground_flags_checked_in_priority_order
  by code_simp+

section \<open>catalog.rs\<close>

definition detect_distro_reads_id_field :: bool where
  "detect_distro_reads_id_field =
     (detect_distro_from (Inr (unlines [''NAME=Artix'', ''ID=artix'', ''ID_LIKE=arch''])) = ''artix'')"

definition detect_distro_strips_quotes :: bool where
  "detect_distro_strips_quotes =
     (detect_distro_from (Inr (unlines [''ID='' @ quoted ''arch''])) = ''arch'')"

definition detect_distro_missing_file_defaults_artix :: bool where
  "detect_distro_missing_file_defaults_artix = (detect_distro_from (Inl 2) = ''artix'')"

definition detect_distro_no_id_field_defaults_artix :: bool where
  "detect_distro_no_id_field_defaults_artix =
     (detect_distro_from (Inr (unlines [''NAME=SomeDistro'', ''VERSION=1''])) = ''artix'')"

definition detect_distro_rejects_path_traversal_in_id :: bool where
  "detect_distro_rejects_path_traversal_in_id =
     (detect_distro_from (Inr (unlines [''ID=../../../etc/passwd''])) = ''artix'')"

definition detect_distro_rejects_unknown_distro :: bool where
  "detect_distro_rejects_unknown_distro =
     (detect_distro_from (Inr (unlines [''ID=ubuntu''])) = ''artix'')"

definition detect_distro_accepts_all_known_distros :: bool where
  "detect_distro_accepts_all_known_distros =
     list_all (\<lambda>distro. detect_distro_from (Inr (unlines [''ID='' @ distro])) = distro)
       [''arch'', ''artix'', ''void'', ''gentoo'']"

definition needs_lines :: "string \<Rightarrow> string \<Rightarrow> string list \<Rightarrow> string" where
  "needs_lines name exec needs =
     [CHR 0x0A] @ toml_text name exec ['''', ''[deps]'', ''needs = ['' @ join '', '' (map quoted needs) @ '']'']"

definition needs_def :: "string \<Rightarrow> string \<Rightarrow> string list \<Rightarrow> service_def" where
  "needs_def name exec needs = (toml_def name exec)\<lparr>sd_deps := Some \<lparr>deps_after = [], deps_needs = needs\<rparr>\<rparr>"

definition missing_deps_returns_deps_not_on_disk :: bool where
  "missing_deps_returns_deps_not_on_disk =
     (let toml_str = needs_lines ''networkmanager'' ''/usr/bin/NetworkManager'' [''dbus'', ''udev''];
          toml = table_toml [(toml_str, needs_def ''networkmanager'' ''/usr/bin/NetworkManager'' [''dbus'', ''udev''])]
      in unwrap_sum (missing_deps toml (\<lambda>p. p = ''/tmp/dir/dbus.toml'') toml_str ''/tmp/dir'')
           (\<lambda>missing. missing = [''udev'']))"

definition missing_deps_no_deps_section_returns_empty :: bool where
  "missing_deps_no_deps_section_returns_empty =
     (let toml_str = toml_text ''foo'' ''/bin/foo'' [];
          toml = table_toml [(toml_str, toml_def ''foo'' ''/bin/foo'')]
      in unwrap_sum (missing_deps toml (\<lambda>p. False) toml_str ''/tmp/dir'') (\<lambda>missing. missing = []))"

definition missing_deps_all_present_returns_empty :: bool where
  "missing_deps_all_present_returns_empty =
     (let toml_str = needs_lines ''sshd'' ''/usr/bin/sshd'' [''dbus''];
          toml = table_toml [(toml_str, needs_def ''sshd'' ''/usr/bin/sshd'' [''dbus''])]
      in unwrap_sum (missing_deps toml (\<lambda>p. p = ''/tmp/dir/dbus.toml'') toml_str ''/tmp/dir'')
           (\<lambda>missing. missing = []))"

definition write_catalog_cache_creates_dir_with_0700_and_file_with_0600 :: bool where
  "write_catalog_cache_creates_dir_with_0700_and_file_with_0600 =
     (let fs = \<lparr>fs_files = [], fs_dirs = [(''/tmp/dir'', 0x1C0)], fs_now = 0, fs_umask = 0x12\<rparr>;
          cache_path = ''/tmp/dir/subdir/catalog.toml''
      in case write_catalog_cache \<lparr>ft_error = (\<lambda>_. None), ft_partial = None\<rparr> cache_path ''content'' fs of
           (Inl _, _) \<Rightarrow> False
         | (Inr _, fs') \<Rightarrow>
             (case map_of (fs_dirs fs') ''/tmp/dir/subdir'' of
                None \<Rightarrow> False | Some mode \<Rightarrow> and mode 0x1FF = 0x1C0) \<and>
             (case map_of (fs_files fs') cache_path of
                None \<Rightarrow> False | Some f \<Rightarrow> and (cf_mode f) 0x1FF = 0x180))"

lemma catalog_tests:
  detect_distro_reads_id_field detect_distro_strips_quotes detect_distro_missing_file_defaults_artix
  detect_distro_no_id_field_defaults_artix detect_distro_rejects_path_traversal_in_id
  detect_distro_rejects_unknown_distro detect_distro_accepts_all_known_distros
  missing_deps_returns_deps_not_on_disk missing_deps_no_deps_section_returns_empty
  missing_deps_all_present_returns_empty write_catalog_cache_creates_dir_with_0700_and_file_with_0600
  by code_simp+

section \<open>check.rs\<close>

text \<open>The host of the tests: \<open>/bin/true\<close> is the only program.\<close>

definition test_check_env :: check_env where
  "test_check_env =
     \<lparr>ce_metadata = (\<lambda>p. if p = ''/bin/true'' then Some \<lparr>fm_is_file = True, fm_mode = 0x1ED\<rparr> else None),
      ce_show_io = (\<lambda>_. ''i/o error'')\<rparr>"

definition preflight_ok_for_valid_service :: "hash_order \<Rightarrow> bool" where
  "preflight_ok_for_valid_service ho =
     (let text = toml_text ''sshd'' ''/bin/true'' [];
          result = run_preflight ho test_check_env (table_toml [(text, toml_def ''sshd'' ''/bin/true'')])
                     (Inr [toml_file ''sshd'' text])
      in pf_errors result = [])"

definition preflight_warns_on_missing_binary :: "hash_order \<Rightarrow> bool" where
  "preflight_warns_on_missing_binary ho =
     (let text = toml_text ''myapp'' ''/nonexistent/myapp'' [];
          result = run_preflight ho test_check_env (table_toml [(text, toml_def ''myapp'' ''/nonexistent/myapp'')])
                     (Inr [toml_file ''myapp'' text])
      in pf_errors result = [] \<and> pf_warnings result \<noteq> [])"

definition preflight_errors_on_broken_needs_dep :: "hash_order \<Rightarrow> bool" where
  "preflight_errors_on_broken_needs_dep ho =
     (let text = toml_text ''myapp'' ''/bin/true'' [''[deps]'', ''needs = ['' @ quoted ''redis'' @ '']''];
          result = run_preflight ho test_check_env (table_toml [(text, needs_def ''myapp'' ''/bin/true'' [''redis''])])
                     (Inr [toml_file ''myapp'' text])
      in pf_errors result \<noteq> [] \<and> contains_sub (snd (pf_errors result ! 0)) ''redis'')"

definition preflight_errors_on_invalid_toml :: "hash_order \<Rightarrow> bool" where
  "preflight_errors_on_invalid_toml ho =
     (pf_errors (run_preflight ho test_check_env (table_toml [])
        (Inr [toml_file ''bad'' ''this is not valid toml ][''])) \<noteq> [])"

definition make_check_service :: "string \<Rightarrow> string list \<Rightarrow> service_def" where
  "make_check_service name after =
     (toml_def name ''/bin/true'')
       \<lparr>sd_deps := (if after = [] then None else Some \<lparr>deps_after = after, deps_needs = []\<rparr>)\<rparr>"

definition has_cycle_detects_two_node_cycle :: "hash_order \<Rightarrow> bool" where
  "has_cycle_detects_two_node_cycle ho =
     has_cycle ho [make_check_service ''a'' [''b''], make_check_service ''b'' [''a'']]"

definition has_cycle_no_cycle_for_chain :: "hash_order \<Rightarrow> bool" where
  "has_cycle_no_cycle_for_chain ho =
     (\<not> has_cycle ho [make_check_service ''a'' [], make_check_service ''b'' [''a''],
        make_check_service ''c'' [''b'']])"

definition is_ephemeral_path_matches_run_and_dev :: bool where
  "is_ephemeral_path_matches_run_and_dev =
     (is_ephemeral_path ''/run/foo.pid'' \<and> is_ephemeral_path ''/var/run/foo.pid'' \<and>
      is_ephemeral_path ''/dev/null'' \<and> \<not> is_ephemeral_path ''/etc/foo.pid'' \<and>
      \<not> is_ephemeral_path ''/tmp/foo.pid'')"

lemma preflight_tests:
  "both_orders preflight_ok_for_valid_service" "both_orders preflight_warns_on_missing_binary"
  "both_orders preflight_errors_on_broken_needs_dep" "both_orders preflight_errors_on_invalid_toml"
  by code_simp+

lemma check_tests:
  "both_orders has_cycle_detects_two_node_cycle" "both_orders has_cycle_no_cycle_for_chain"
  is_ephemeral_path_matches_run_and_dev
  by code_simp+

section \<open>ready.rs\<close>

text \<open>The file appears after the watch is installed: the watcher sees its creation and the closing.\<close>

definition created_later :: "string \<Rightarrow> bool \<Rightarrow> watch_input" where
  "created_later filename connects =
     \<lparr>wi_exists1 = False, wi_init = None, wi_add = None, wi_exists2 = False,
      wi_reads = [Inr (op_events (OpCreate filename) @ op_events (OpCloseWrite filename))],
      wi_connects = connects, wi_send_ok = True\<rparr>"

definition detects_pidfile_creation :: bool where
  "detects_pidfile_creation =
     (case watch_pidfile (created_later ''test.pid'' False) ''/tmp/dir/test.pid'' ''test-service'' of
        (acts, end) \<Rightarrow> sent acts = [''test-service'']  \<and> end = WatchReturned (Inr ()))"

definition already_existing_pidfile_is_detected_immediately :: bool where
  "already_existing_pidfile_is_detected_immediately =
     (case watch_pidfile ((created_later ''existing.pid'' False)\<lparr>wi_exists1 := True, wi_reads := []\<rparr>)
             ''/tmp/dir/existing.pid'' ''existing-service'' of
        (acts, end) \<Rightarrow> sent acts = [''existing-service''] \<and> end = WatchReturned (Inr ()))"

definition watch_socket_fires_after_listener_is_bound :: bool where
  "watch_socket_fires_after_listener_is_bound =
     (case watch_socket (created_later ''svc.sock'' True) ''/tmp/dir/svc.sock'' ''svc'' of
        (acts, end) \<Rightarrow> sent acts = [''svc''] \<and> ProbeSocket ''/tmp/dir/svc.sock'' True \<in> set acts)"

lemma ready_tests:
  detects_pidfile_creation already_existing_pidfile_is_detected_immediately
  watch_socket_fires_after_listener_is_bound
  by code_simp+

end
