(* ===== verification/Cache_Tests.thy ===== *)
theory Cache_Tests
  imports Tools_Tests Cache_Properties
begin

text \<open>
  The unit tests of \<open>cache.rs\<close> and \<open>config.rs\<close>, replayed on the model. The temporary directory is a
  \<open>disk\<close>; its clock stands still, so that files keep their modification times. The codec stores a
  manifest as it is.
\<close>

section \<open>cache.rs: the manifest\<close>

definition make_entry :: "string \<Rightarrow> manifest_entry" where
  "make_entry name =
     \<lparr>me_filename = name @ ''.toml'', me_mtime_secs = 1000000, me_def = toml_def name (''/bin/'' @ name)\<rparr>"

definition empty_disk :: "manifest disk" where
  "empty_disk = \<lparr>dk_entries = Inr [], dk_manifest = NotFound, dk_tmp = NotFound\<rparr>"

definition write_and_read_manifest_round_trips :: bool where
  "write_and_read_manifest_round_trips =
     (let m = \<lparr>mf_version = MANIFEST_VERSION, mf_entries = [make_entry ''foo'', make_entry ''bar'']\<rparr>
      in case write_manifest plain_codec writes_ok m empty_disk of
           (Inl _, _) \<Rightarrow> False
         | (Inr _, dk) \<Rightarrow>
             unwrap_sum (read_manifest plain_codec dk) (\<lambda>mo. case mo of None \<Rightarrow> False | Some restored \<Rightarrow>
               mf_version restored = MANIFEST_VERSION \<and> length (mf_entries restored) = 2 \<and>
               me_filename (mf_entries restored ! 0) = ''foo.toml'' \<and>
               sd_name (me_def (mf_entries restored ! 1)) = ''bar''))"

definition read_manifest_returns_none_for_missing_file :: bool where
  "read_manifest_returns_none_for_missing_file =
     unwrap_sum (read_manifest plain_codec empty_disk) (\<lambda>result. result = None)"

definition read_manifest_returns_none_for_wrong_version :: bool where
  "read_manifest_returns_none_for_wrong_version =
     (let m = \<lparr>mf_version = 99, mf_entries = []\<rparr>
      in unwrap_sum (read_manifest plain_codec (empty_disk\<lparr>dk_manifest := Bytes (serialize plain_codec m)\<rparr>))
           (\<lambda>result. result = None))"

definition write_manifest_is_atomic_tmp_then_rename :: bool where
  "write_manifest_is_atomic_tmp_then_rename =
     (let m = \<lparr>mf_version = MANIFEST_VERSION, mf_entries = []\<rparr>
      in case write_manifest plain_codec writes_ok m empty_disk of
           (Inl _, _) \<Rightarrow> False
         | (Inr _, dk) \<Rightarrow> dk_manifest dk \<noteq> NotFound \<and> dk_tmp dk = NotFound)"

section \<open>cache.rs: loading\<close>

definition write_toml :: "string \<Rightarrow> string \<Rightarrow> 'b disk \<Rightarrow> 'b disk" where
  "write_toml name exec dk =
     (case dk_entries dk of
        Inl _ \<Rightarrow> dk
      | Inr es \<Rightarrow> dk\<lparr>dk_entries := Inr (es @ [toml_file name (toml_text name exec [])])\<rparr>)"

definition remove_toml :: "string \<Rightarrow> 'b disk \<Rightarrow> 'b disk" where
  "remove_toml file dk =
     (case dk_entries dk of
        Inl _ \<Rightarrow> dk
      | Inr es \<Rightarrow> dk\<lparr>dk_entries := Inr (filter (\<lambda>e. case e of Inl _ \<Rightarrow> True | Inr d \<Rightarrow> de_name d \<noteq> file) es)\<rparr>)"

definition load_toml :: toml_parser where
  "load_toml = table_toml
     [(toml_text ''alpha'' ''/bin/alpha'' [], toml_def ''alpha'' ''/bin/alpha''),
      (toml_text ''beta'' ''/bin/beta'' [], toml_def ''beta'' ''/bin/beta'')]"

abbreviation test_load :: "manifest disk \<Rightarrow> (cache_error + service_def list) \<times> manifest disk" where
  "test_load \<equiv> load_services_cached plain_codec load_toml writes_ok"

definition load_services_cached_builds_manifest_when_missing :: bool where
  "load_services_cached_builds_manifest_when_missing =
     (let dk = write_toml ''beta'' ''/bin/beta'' (write_toml ''alpha'' ''/bin/alpha'' empty_disk)
      in dk_manifest dk = NotFound \<and>
         (case test_load dk of (res, dk) \<Rightarrow>
            unwrap_sum res (\<lambda>services. length services = 2 \<and> dk_manifest dk \<noteq> NotFound)))"

text \<open>The second load does not write: even if writing would fail, it returns, and the disk is the same.\<close>

definition load_services_cached_does_not_rewrite_fresh_manifest :: bool where
  "load_services_cached_does_not_rewrite_fresh_manifest =
     (case test_load (write_toml ''alpha'' ''/bin/alpha'' empty_disk) of (res, dk) \<Rightarrow>
        unwrap_sum res (\<lambda>_.
          case load_services_cached plain_codec load_toml \<lparr>wr_write = Some 28, wr_rename = Some 28\<rparr> dk of
            (res, dk') \<Rightarrow> unwrap_sum res (\<lambda>_. dk_manifest dk' = dk_manifest dk \<and> dk_tmp dk' = dk_tmp dk)))"

definition load_services_cached_adds_new_entry_on_second_call :: bool where
  "load_services_cached_adds_new_entry_on_second_call =
     (case test_load (write_toml ''alpha'' ''/bin/alpha'' empty_disk) of (res, dk) \<Rightarrow>
        unwrap_sum res (\<lambda>_.
          unwrap_sum (fst (test_load (write_toml ''beta'' ''/bin/beta'' dk))) (\<lambda>services. length services = 2)))"

definition load_services_cached_removes_deleted_entry :: bool where
  "load_services_cached_removes_deleted_entry =
     (case test_load (write_toml ''beta'' ''/bin/beta'' (write_toml ''alpha'' ''/bin/alpha'' empty_disk)) of
        (res, dk) \<Rightarrow>
          unwrap_sum res (\<lambda>_.
            unwrap_sum (fst (test_load (remove_toml ''beta.toml'' dk)))
              (\<lambda>services. length services = 1 \<and> sd_name (services ! 0) = ''alpha'')))"

lemma manifest_round_trip_test: write_and_read_manifest_round_trips
  by (simp add: write_and_read_manifest_round_trips_def write_manifest_def read_manifest_def plain_codec_def
      writes_ok_def make_entry_def unwrap_sum_def toml_def_def)

lemma cache_tests:
  read_manifest_returns_none_for_missing_file
  read_manifest_returns_none_for_wrong_version write_manifest_is_atomic_tmp_then_rename
  load_services_cached_builds_manifest_when_missing load_services_cached_does_not_rewrite_fresh_manifest
  load_services_cached_adds_new_entry_on_second_call load_services_cached_removes_deleted_entry
  by code_simp+

section \<open>config.rs\<close>

definition svc_with_user :: "string option \<Rightarrow> service_def" where
  "svc_with_user user =
     \<lparr>sd_service = \<lparr>svc_name = ''test'', svc_exec = ''/bin/true'', svc_restart = None, svc_user = user,
        svc_args = None\<rparr>, sd_deps = None, sd_ready = None, sd_resources = None\<rparr>"

definition config_text :: "string \<Rightarrow> string" where
  "config_text user = unlines [''[global]'', ''session_user = '' @ quoted user]"

definition config_toml :: "string \<Rightarrow> string + flint_config" where
  "config_toml text =
     (case find (\<lambda>u. config_text u = text) [''keegan'', ''alice''] of
        Some u \<Rightarrow> Inr \<lparr>fc_global = Some \<lparr>session_user = Some u\<rparr>\<rparr>
      | None \<Rightarrow> Inl ''parse error'')"

definition load_config_returns_default_when_file_missing :: bool where
  "load_config_returns_default_when_file_missing =
     (config_session_user (load_config_from config_toml (Inl 2)) = None)"

definition load_config_parses_session_user :: bool where
  "load_config_parses_session_user =
     (config_session_user (load_config_from config_toml (Inr (config_text ''keegan''))) = Some ''keegan'')"

definition load_config_returns_default_on_bad_toml :: bool where
  "load_config_returns_default_on_bad_toml =
     (config_session_user (load_config_from config_toml (Inr ''this is not [ valid toml ][''))  = None)"

definition user_of :: "service_def \<Rightarrow> string option" where
  "user_of s = svc_user (sd_service s)"

definition apply_to_expands_percent_u_to_session_user :: bool where
  "apply_to_expands_percent_u_to_session_user =
     (let cfg = load_config_from config_toml (Inr (config_text ''keegan''));
          result = apply_to cfg [svc_with_user (Some ''%U'')]
      in user_of (result ! 0) = Some ''keegan'')"

definition apply_to_clears_percent_u_when_no_session_user_configured :: bool where
  "apply_to_clears_percent_u_when_no_session_user_configured =
     (user_of (apply_to default_config [svc_with_user (Some ''%U'')] ! 0) = None)"

definition apply_to_does_not_modify_explicit_user_values :: bool where
  "apply_to_does_not_modify_explicit_user_values =
     (let cfg = load_config_from config_toml (Inr (config_text ''keegan''));
          result = apply_to cfg [svc_with_user (Some ''postgres''), svc_with_user (Some ''root''), svc_with_user None]
      in user_of (result ! 0) = Some ''postgres'' \<and> user_of (result ! 1) = Some ''root'' \<and>
         user_of (result ! 2) = None)"

definition apply_to_expands_all_percent_u_services :: bool where
  "apply_to_expands_all_percent_u_services =
     (let cfg = load_config_from config_toml (Inr (config_text ''alice''));
          result = apply_to cfg [svc_with_user (Some ''%U''), svc_with_user (Some ''root''), svc_with_user (Some ''%U'')]
      in user_of (result ! 0) = Some ''alice'' \<and> user_of (result ! 1) = Some ''root'' \<and>
         user_of (result ! 2) = Some ''alice'')"

lemma config_tests:
  load_config_returns_default_when_file_missing load_config_parses_session_user
  load_config_returns_default_on_bad_toml apply_to_expands_percent_u_to_session_user
  apply_to_clears_percent_u_when_no_session_user_configured apply_to_does_not_modify_explicit_user_values
  apply_to_expands_all_percent_u_services
  by code_simp+

end
