(* ===== verification/Server_Tests.thy ===== *)
theory Server_Tests
  imports Ctl_Server Json_Samples Test_Support
begin

text \<open>
  The unit tests of \<open>ctl_server.rs\<close>, replayed on the model. The tests
  look into the responses by their constructors and into the texts of errors.
\<close>

section \<open>Requests\<close>

definition cmd_json :: "string \<Rightarrow> string" where
  "cmd_json cmd = ''{'' @ quoted ''cmd'' @ '':'' @ quoted cmd @ ''}''"

definition service_json :: "string \<Rightarrow> string \<Rightarrow> string" where
  "service_json cmd service =
     ''{'' @ quoted ''cmd'' @ '':'' @ quoted cmd @ '','' @ quoted ''service'' @ '':'' @ quoted service @ ''}''"

text \<open>The client of the tests writes the request as one line, as an ordinary user.\<close>

definition test_conn :: "shared_state \<Rightarrow> recv_result \<Rightarrow> string \<Rightarrow> conn" where
  "test_conn shared reply req =
     \<lparr>cn_getsockopt = (0, 1000), cn_clone_ok = True, cn_lines = map Inr (lines (req @ [CHR 0x0A])),
      cn_shared = Some shared, cn_send_ok = True, cn_reply = reply, cn_reply_id = 0\<rparr>"

text \<open>\<open>start_server_on\<close> and \<open>start_server_with_auth\<close> differ in the last argument of the handler.\<close>

definition start_server_on :: "conn \<Rightarrow> ctl_action list" where
  "start_server_on cn = handle_connection sample_json False cn"

definition start_server_with_auth :: "conn \<Rightarrow> ctl_action list" where
  "start_server_with_auth cn = handle_connection sample_json True cn"

definition show_error :: "ctl_error \<Rightarrow> string" where
  "show_error e = show_ctl_error (\<lambda>_. ''Fork'') (\<lambda>_. ''i/o error'') e"

definition error_contains :: "ctl_action list \<Rightarrow> string \<Rightarrow> bool" where
  "error_contains acts text =
     (case acts of [WriteResponse (RespError e)] \<Rightarrow> contains_sub (show_error e) text | _ \<Rightarrow> False)"

section \<open>The tests\<close>

definition status_returns_empty_when_no_services :: bool where
  "status_returns_empty_when_no_services =
     (start_server_on (test_conn new_shared_state Waiting (cmd_json ''status'')) = [WriteResponse (RespStatus [])])"

definition status_returns_registered_services :: bool where
  "status_returns_registered_services =
     (let shared = [(''sshd'', \<lparr>si_name = ''sshd'', si_state = ''ready'', si_pid = Some 42\<rparr>)]
      in case start_server_on (test_conn shared Waiting (cmd_json ''status'')) of
           [WriteResponse (RespStatus services)] \<Rightarrow>
             length services = 1 \<and> si_name (services ! 0) = ''sshd'' \<and>
             si_state (services ! 0) = ''ready'' \<and> si_pid (services ! 0) = Some 42
         | _ \<Rightarrow> False)"

definition stop_unknown_service_returns_error :: bool where
  "stop_unknown_service_returns_error =
     error_contains (start_server_on (test_conn new_shared_state Waiting (service_json ''stop'' ''ghost''))) ''ghost''"

definition stop_service_with_no_pid_returns_error :: bool where
  "stop_service_with_no_pid_returns_error =
     (let shared = [(''pending-svc'', \<lparr>si_name = ''pending-svc'', si_state = ''pending'', si_pid = None\<rparr>)]
      in error_contains (start_server_on (test_conn shared Waiting (service_json ''stop'' ''pending-svc''))) [])"

definition invalid_json_returns_error :: bool where
  "invalid_json_returns_error =
     error_contains (start_server_on (test_conn new_shared_state Waiting ''not json at all'')) ''invalid request''"

definition multiple_sequential_connections_are_each_handled :: bool where
  "multiple_sequential_connections_are_each_handled =
     list_all (\<lambda>acts. case acts of [WriteResponse (RespStatus _)] \<Rightarrow> True | _ \<Rightarrow> False)
       (map start_server_on (replicate 3 (test_conn new_shared_state Waiting (cmd_json ''status''))))"

text \<open>\<open>mock_executor\<close> answers every command with \<open>Ok(())\<close>.\<close>

definition mock_executor :: recv_result where
  "mock_executor = Received (Inr ())"

definition start_request_returns_ok :: bool where
  "start_request_returns_ok =
     (last (start_server_on (test_conn new_shared_state mock_executor (service_json ''start'' ''sshd''))) =
        WriteResponse (RespOk True))"

definition restart_request_returns_ok :: bool where
  "restart_request_returns_ok =
     (last (start_server_on (test_conn new_shared_state mock_executor (service_json ''restart'' ''sshd''))) =
        WriteResponse (RespOk True))"

definition reload_request_returns_ok :: bool where
  "reload_request_returns_ok =
     (last (start_server_on (test_conn new_shared_state mock_executor (service_json ''reload'' ''sshd''))) =
        WriteResponse (RespOk True))"

definition socket_has_0600_permissions_after_bind :: bool where
  "socket_has_0600_permissions_after_bind =
     (case bind_socket \<lparr>be_mkdir = None, be_bind = None, be_chmod = None\<rparr> ''/tmp/dir/ctl.sock'' of
        (acts, Inr _) \<Rightarrow> last acts = BindChmod ''/tmp/dir/ctl.sock'' 0x180
      | (_, Inl _) \<Rightarrow> False)"

definition non_root_connection_is_rejected_when_auth_enabled :: bool where
  "non_root_connection_is_rejected_when_auth_enabled =
     error_contains (start_server_with_auth (test_conn new_shared_state Waiting (cmd_json ''status'')))
       ''permission denied''"

text \<open>The executor of this test refuses the command; the text of the refusal reaches the client.\<close>

definition start_request_propagates_executor_error :: bool where
  "start_request_propagates_executor_error =
     (let cn = test_conn new_shared_state (Received (Inl (AlreadyRunning ''sshd''))) (service_json ''start'' ''sshd'')
      in error_contains (drop 1 (start_server_on cn)) ''already running'')"

lemma status_and_stop_tests:
  status_returns_empty_when_no_services status_returns_registered_services stop_unknown_service_returns_error
  stop_service_with_no_pid_returns_error invalid_json_returns_error
  multiple_sequential_connections_are_each_handled
  by code_simp+

lemma command_tests:
  start_request_returns_ok restart_request_returns_ok reload_request_returns_ok
  socket_has_0600_permissions_after_bind non_root_connection_is_rejected_when_auth_enabled
  start_request_propagates_executor_error
  by code_simp+

end
