(* ===== verification/Executor_Tests.thy ===== *)
theory Executor_Tests
  imports Boot_Spec Test_Support
begin

text \<open>
  The unit tests of \<open>executor.rs\<close>, replayed on the model. The kernel of the tests hands out the pids 1000,
  1001, ... in the order of the forks; a child runs for one round and then exits with the code that the
  test gives its program, until it is started again. The scripts that the tests write are not
  interpreted: what they count or write is read off the history of spawned processes.
\<close>

section \<open>Services and runs\<close>

definition make_exec_service :: "string \<Rightarrow> string list \<Rightarrow> string \<Rightarrow> service_def" where
  "make_exec_service name after exec =
     \<lparr>sd_service = \<lparr>svc_name = name, svc_exec = exec, svc_restart = None, svc_user = None, svc_args = None\<rparr>,
      sd_deps = (if after = [] then None else Some \<lparr>deps_after = after, deps_needs = []\<rparr>),
      sd_ready = None, sd_resources = None\<rparr>"

definition make_service_with_needs :: "string \<Rightarrow> string list \<Rightarrow> string list \<Rightarrow> string \<Rightarrow> service_def" where
  "make_service_with_needs name after needs exec =
     \<lparr>sd_service = \<lparr>svc_name = name, svc_exec = exec, svc_restart = None, svc_user = None, svc_args = None\<rparr>,
      sd_deps = (if after = [] \<and> needs = [] then None
                 else Some \<lparr>deps_after = after, deps_needs = needs\<rparr>),
      sd_ready = None, sd_resources = None\<rparr>"

definition make_service_with_restart :: "string \<Rightarrow> string \<Rightarrow> string list \<Rightarrow> restart_policy \<Rightarrow> service_def" where
  "make_service_with_restart name exec needs restart =
     \<lparr>sd_service = \<lparr>svc_name = name, svc_exec = exec, svc_restart = Some restart, svc_user = None,
        svc_args = None\<rparr>,
      sd_deps = (if needs = [] then None else Some \<lparr>deps_after = [], deps_needs = needs\<rparr>),
      sd_ready = None, sd_resources = None\<rparr>"

definition test_env :: exec_env where
  "test_env = \<lparr>users = (\<lambda>_. Inr None), fork_result = (\<lambda>n. Inr (1000 + int n)),
     toml_parse = (\<lambda>_. Inl ''parse error''), service_dir = None\<rparr>"

definition alive_tick :: tick where
  "alive_tick = \<lparr>tk_shutdown = False, tk_commands = [], tk_ready = [], tk_late = None,
     tk_wait = (\<lambda>_. WStillAlive), tk_shutdown_at = (\<lambda>_. False), tk_order = (\<lambda>ps. ps),
     tk_alive = (\<lambda>_ _. False), tk_delay = (\<lambda>_. 0), tk_shutdown_end = False\<rparr>"

definition exits_tick :: "(pid \<Rightarrow> int) \<Rightarrow> tick" where
  "exits_tick code = alive_tick\<lparr>tk_wait := (\<lambda>p. WExited (code p))\<rparr>"

text \<open>\<open>n\<close> times: the children run, then they exit.\<close>

definition rounds :: "nat \<Rightarrow> (pid \<Rightarrow> int) \<Rightarrow> tick list" where
  "rounds n code = concat (replicate n [alive_tick, exits_tick code])"

definition shutdown_tick :: tick where
  "shutdown_tick = alive_tick\<lparr>tk_shutdown := True, tk_shutdown_end := True\<rparr>"

definition start_tick :: "ctl_command \<Rightarrow> tick" where
  "start_tick cmd = alive_tick\<lparr>tk_commands := [(cmd, Inl 2)]\<rparr>"

definition is_ok :: "run_result \<Rightarrow> bool" where
  "is_ok r = (case r of Finished _ \<Rightarrow> True | _ \<Rightarrow> False)"

definition run_log :: "run_result \<Rightarrow> event list" where
  "run_log r = (case r of Finished s \<Rightarrow> ex_log s | RunError _ s \<Rightarrow> ex_log s | RunPanic s \<Rightarrow> ex_log s
     | RunHang s \<Rightarrow> ex_log s | StillRunning s \<Rightarrow> ex_log s)"

definition run_no_ready :: "tick list \<Rightarrow> service_graph \<Rightarrow> service_def list \<Rightarrow> run_result" where
  "run_no_ready ts graph services = run test_env (\<lambda>_. Inl 2) graph services new_shared_state ts"

definition spawned_times :: "string \<Rightarrow> run_result \<Rightarrow> nat" where
  "spawned_times name r = length (filter (\<lambda>ev. case ev of EvSpawn n _ _ \<Rightarrow> n = name | _ \<Rightarrow> False) (run_log r))"

text \<open>The program \<open>/usr/bin/false\<close> of the first child, \<open>/usr/bin/true\<close> of the others.\<close>

definition first_fails :: "pid \<Rightarrow> int" where
  "first_fails p = (if p = 1000 then 1 else 0)"

section \<open>Dependencies\<close>

definition failed_needs_dep_does_not_hang :: "hash_order \<Rightarrow> bool" where
  "failed_needs_dep_does_not_hang ho =
     (let services = [make_service_with_needs ''fail'' [] [] ''/usr/bin/false'',
                      make_service_with_needs ''blocked'' [] [''fail''] ''/usr/bin/true'']
      in unwrap (build ho services) (\<lambda>graph.
           (let r = run_no_ready (rounds 3 first_fails) graph services
            in is_ok r \<and> spawned_times ''blocked'' r = 0)))"

definition after_only_dep_runs_despite_needs_failure :: "hash_order \<Rightarrow> bool" where
  "after_only_dep_runs_despite_needs_failure ho =
     (let services = [make_service_with_needs ''fail'' [] [] ''/usr/bin/false'',
                      make_service_with_needs ''after_svc'' [''fail''] [] ''/usr/bin/true'']
      in unwrap (build ho services) (\<lambda>graph.
           (let r = run_no_ready (rounds 3 first_fails) graph services
            in is_ok r \<and> spawned_times ''after_svc'' r = 1)))"

definition executes_single_service_and_waits :: "hash_order \<Rightarrow> bool" where
  "executes_single_service_and_waits ho =
     (let services = [make_exec_service ''true_svc'' [] ''/usr/bin/true'']
      in unwrap (build ho services) (\<lambda>graph. is_ok (run_no_ready (rounds 2 (\<lambda>_. 0)) graph services)))"

definition executes_chain_in_order :: "hash_order \<Rightarrow> bool" where
  "executes_chain_in_order ho =
     (let services = [make_exec_service ''a'' [] ''/usr/bin/true'', make_exec_service ''b'' [''a''] ''/usr/bin/true'']
      in unwrap (build ho services) (\<lambda>graph. is_ok (run_no_ready (rounds 3 (\<lambda>_. 0)) graph services)))"

section \<open>Starting a program\<close>

definition empty_exec_returns_error :: "hash_order \<Rightarrow> bool" where
  "empty_exec_returns_error ho =
     (let svc = make_service_with_needs ''empty'' [] [] ''   ''
      in unwrap (build ho [svc]) (\<lambda>graph.
           case run_no_ready (rounds 1 (\<lambda>_. 0)) graph [svc] of RunError (EmptyExec _) _ \<Rightarrow> True | _ \<Rightarrow> False))"

definition exec_with_args_runs_successfully :: "hash_order \<Rightarrow> bool" where
  "exec_with_args_runs_successfully ho =
     (let svc = make_service_with_needs ''env_true'' [] [] ''/usr/bin/env true''
      in unwrap (build ho [svc]) (\<lambda>graph. is_ok (run_no_ready (rounds 2 (\<lambda>_. 0)) graph [svc])))"

definition service_with_oom_score_adj_runs :: "hash_order \<Rightarrow> bool" where
  "service_with_oom_score_adj_runs ho =
     (let svc = (make_service_with_needs ''oom_svc'' [] [] ''/usr/bin/true'')
            \<lparr>sd_resources := Some \<lparr>oom_score_adj = Some 100\<rparr>\<rparr>
      in unwrap (build ho [svc]) (\<lambda>graph. is_ok (run_no_ready (rounds 2 (\<lambda>_. 0)) graph [svc])))"

definition with_user :: "string \<Rightarrow> service_def \<Rightarrow> service_def" where
  "with_user user svc = svc\<lparr>sd_service := (sd_service svc)\<lparr>svc_user := Some user\<rparr>\<rparr>"

definition with_args :: "string list \<Rightarrow> service_def \<Rightarrow> service_def" where
  "with_args args svc = svc\<lparr>sd_service := (sd_service svc)\<lparr>svc_args := Some args\<rparr>\<rparr>"

definition spawn_fails_for_unknown_user :: "hash_order \<Rightarrow> bool" where
  "spawn_fails_for_unknown_user ho =
     (let svc = with_user ''nonexistent_flint_user_xyz_9999''
            (make_service_with_needs ''bad_user_svc'' [] [] ''/usr/bin/true'')
      in unwrap (build ho [svc]) (\<lambda>graph.
           case run_no_ready (rounds 1 (\<lambda>_. 0)) graph [svc] of RunError (UnknownUser _ _) _ \<Rightarrow> True | _ \<Rightarrow> False))"

definition exec_args_array_runs_command_with_arguments :: "hash_order \<Rightarrow> bool" where
  "exec_args_array_runs_command_with_arguments ho =
     (let svc = with_args [''-c'', ''exit 0''] (make_service_with_needs ''args_svc'' [] [] ''/bin/sh'')
      in unwrap (build ho [svc]) (\<lambda>graph. is_ok (run_no_ready (rounds 2 (\<lambda>_. 0)) graph [svc])))"

text \<open>The shell prints its first argument: what follows \<open>-c\<close>, the script and the name.\<close>

definition exec_args_array_handles_argument_with_spaces :: "hash_order \<Rightarrow> bool" where
  "exec_args_array_handles_argument_with_spaces ho =
     (let script = ''printf '' @ [CHR 0x27] @ ''%s'' @ [CHR 0x27] @ '' '' @ quoted ''$1'' @ '' > /tmp/dir/out.txt'';
          svc = with_args [''-c'', script, ''sh'', ''hello world'']
            (make_service_with_needs ''space_arg_svc'' [] [] ''/bin/sh'')
      in unwrap (build ho [svc]) (\<lambda>graph.
           (let r = run_no_ready (rounds 2 (\<lambda>_. 0)) graph [svc]
            in is_ok r \<and>
               (case filter (\<lambda>ev. case ev of EvSpawn _ _ _ \<Rightarrow> True | _ \<Rightarrow> False) (run_log r) of
                  [EvSpawn _ _ [Execv path [argv0, c, s, sh, arg1], ExitWith _]] \<Rightarrow>
                    path = ''/bin/sh'' \<and> c = ''-c'' \<and> s = script \<and> arg1 = ''hello world''
                | _ \<Rightarrow> False))))"

section \<open>Restarts\<close>

definition on_failure_restart_respawns_service :: "hash_order \<Rightarrow> bool" where
  "on_failure_restart_respawns_service ho =
     (let svc = make_service_with_restart ''failing'' ''/bin/sh /tmp/dir/script.sh'' [] OnFailure
      in unwrap (build ho [svc]) (\<lambda>graph.
           (let r = run_no_ready (rounds 8 (\<lambda>_. 1)) graph [svc]
            in is_ok r \<and> spawned_times ''failing'' r = MAX_RESTARTS + 1)))"

definition restart_never_does_not_respawn :: "hash_order \<Rightarrow> bool" where
  "restart_never_does_not_respawn ho =
     (let svc = make_service_with_restart ''failing-never'' ''/bin/sh /tmp/dir/script.sh'' [] Never
      in unwrap (build ho [svc]) (\<lambda>graph.
           (let r = run_no_ready (rounds 8 (\<lambda>_. 1)) graph [svc]
            in is_ok r \<and> spawned_times ''failing-never'' r = 1)))"

definition max_restarts_exhausted_terminates_without_hang :: "hash_order \<Rightarrow> bool" where
  "max_restarts_exhausted_terminates_without_hang ho =
     (let svc = make_service_with_restart ''always-fail'' ''/usr/bin/false'' [] Always
      in unwrap (build ho [svc]) (\<lambda>graph. is_ok (run_no_ready (rounds 8 (\<lambda>_. 1)) graph [svc])))"

definition needs_dependent_of_permanently_failed_service_is_blocked :: "hash_order \<Rightarrow> bool" where
  "needs_dependent_of_permanently_failed_service_is_blocked ho =
     (let services = [make_service_with_restart ''base'' ''/bin/sh /tmp/dir/script.sh'' [] OnFailure,
                      make_service_with_needs ''dependent'' [] [''base''] ''/usr/bin/true'']
      in unwrap (build ho services) (\<lambda>graph.
           (let r = run_no_ready (rounds 8 (\<lambda>_. 1)) graph services
            in is_ok r \<and> spawned_times ''dependent'' r = 0)))"

section \<open>Readiness files and the marker\<close>

text \<open>The readiness file in the course of a run: removed by the executor, written by the script with the
  pid of its shell.\<close>

definition file_after :: "string \<Rightarrow> int option \<Rightarrow> event list \<Rightarrow> int option" where
  "file_after path content evs =
     fold (\<lambda>ev c. case ev of EvRemoveFile p \<Rightarrow> if p = path then None else c | EvSpawn _ pid _ \<Rightarrow> Some pid | _ \<Rightarrow> c)
       evs content"

definition stale_pidfile_does_not_cause_false_ready :: "hash_order \<Rightarrow> bool" where
  "stale_pidfile_does_not_cause_false_ready ho =
     (let pidfile = ''/tmp/dir/stale.pid'';
          svc = (make_service_with_needs ''stale_svc'' [] [] ''/bin/sh /tmp/dir/svc.sh'')
            \<lparr>sd_ready := Some \<lparr>rd_strategy = Pidfile, rd_path = Some pidfile\<rparr>\<rparr>
      in unwrap (build ho [svc]) (\<lambda>graph.
           (let r = run_no_ready [alive_tick, alive_tick\<lparr>tk_late := Some ''stale_svc''\<rparr>, exits_tick (\<lambda>_. 0), alive_tick]
                      graph [svc]
            in is_ok r \<and>
               (case file_after pidfile (Some 99999) (run_log r) of None \<Rightarrow> False | Some pid \<Rightarrow> pid \<noteq> 99999) \<and>
               file_after pidfile (Some 99999) (takeWhile (\<lambda>ev. ev \<noteq> EvReadyPidfile ''stale_svc'') (run_log r)) \<noteq>
                 Some 99999)))"

definition ready_marker_written_on_clean_exit :: "hash_order \<Rightarrow> bool" where
  "ready_marker_written_on_clean_exit ho =
     (let svc = make_service_with_needs ''quick_svc'' [] [] ''/usr/bin/true''
      in unwrap (build ho [svc]) (\<lambda>graph.
           (let r = run_with_marker test_env (\<lambda>_. Inl 2) graph [svc] new_shared_state (Some ''/tmp/dir/ready'')
                      (rounds 2 (\<lambda>_. 0))
            in is_ok r \<and> EvWriteFile ''/tmp/dir/ready'' \<in> set (run_log r))))"

definition ready_marker_not_written_on_shutdown :: "hash_order \<Rightarrow> bool" where
  "ready_marker_not_written_on_shutdown ho =
     (let svc = make_service_with_needs ''sleeper_marker'' [] [] ''/usr/bin/sleep 100''
      in unwrap (build ho [svc]) (\<lambda>graph.
           (let r = run_with_marker test_env (\<lambda>_. Inl 2) graph [svc] new_shared_state (Some ''/tmp/dir/ready'')
                      [alive_tick, alive_tick, shutdown_tick]
            in is_ok r \<and> EvWriteFile ''/tmp/dir/ready'' \<notin> set (run_log r))))"

definition shutdown_flag_terminates_long_running_service :: "hash_order \<Rightarrow> bool" where
  "shutdown_flag_terminates_long_running_service ho =
     (let svc = make_service_with_needs ''sleeper'' [] [] ''/usr/bin/sleep 100''
      in unwrap (build ho [svc]) (\<lambda>graph. is_ok (run_no_ready [alive_tick, alive_tick, shutdown_tick] graph [svc])))"

section \<open>Commands\<close>

definition reply_of :: "reply_id \<Rightarrow> run_result \<Rightarrow> (reply_error + unit) list" where
  "reply_of i r = [res. EvReply j res \<leftarrow> run_log r, j = i]"

definition run_commands :: "tick list \<Rightarrow> service_graph \<Rightarrow> service_def list \<Rightarrow> run_result" where
  "run_commands ts graph services = run_with_cmd test_env (\<lambda>_. Inl 2) graph services new_shared_state ts"

text \<open>The service has exited when the command arrives. If the loop reads it in its next round, the reply
  is \<open>Ok\<close>; if it comes later, the loop has already ended.\<close>

definition start_command_on_exited_service_respawns_it :: "hash_order \<Rightarrow> bool" where
  "start_command_on_exited_service_respawns_it ho =
     (let svc = make_service_with_needs ''short'' [] [] ''/bin/true''
      in unwrap (build ho [svc]) (\<lambda>graph.
           (let r = run_commands [alive_tick, exits_tick (\<lambda>_. 0), start_tick (CmdStart ''short'' 0)] graph [svc]
            in is_ok r \<and> reply_of 0 r = [Inr ()])))"

definition start_command_on_running_service_returns_error :: "hash_order \<Rightarrow> bool" where
  "start_command_on_running_service_returns_error ho =
     (let svc = make_service_with_needs ''longsvc'' [] [] ''/usr/bin/sleep 10''
      in unwrap (build ho [svc]) (\<lambda>graph.
           (let r = run_commands [alive_tick, start_tick (CmdStart ''longsvc'' 0), shutdown_tick] graph [svc]
            in is_ok r \<and> list_all is_inl (reply_of 0 r) \<and> length (reply_of 0 r) = 1)))"

definition restart_command_on_stopped_service_starts_it :: "hash_order \<Rightarrow> bool" where
  "restart_command_on_stopped_service_starts_it ho =
     (let svc = make_service_with_needs ''exitsvc'' [] [] ''/bin/true''
      in unwrap (build ho [svc]) (\<lambda>graph.
           (let r = run_commands [alive_tick, exits_tick (\<lambda>_. 0), start_tick (CmdRestart ''exitsvc'' 0)] graph [svc]
            in is_ok r \<and> reply_of 0 r = [Inr ()])))"

section \<open>The tests pass\<close>

lemma dependency_tests:
  "both_orders failed_needs_dep_does_not_hang" "both_orders after_only_dep_runs_despite_needs_failure"
  "both_orders executes_single_service_and_waits" "both_orders executes_chain_in_order"
  by code_simp+

lemma program_tests:
  "both_orders empty_exec_returns_error" "both_orders exec_with_args_runs_successfully"
  "both_orders service_with_oom_score_adj_runs" "both_orders spawn_fails_for_unknown_user"
  "both_orders exec_args_array_runs_command_with_arguments"
  "both_orders exec_args_array_handles_argument_with_spaces"
  by code_simp+

lemma restart_tests:
  "both_orders on_failure_restart_respawns_service" "both_orders restart_never_does_not_respawn"
  "both_orders max_restarts_exhausted_terminates_without_hang"
  "both_orders needs_dependent_of_permanently_failed_service_is_blocked"
  by code_simp+

lemma readiness_tests:
  "both_orders stale_pidfile_does_not_cause_false_ready" "both_orders ready_marker_written_on_clean_exit"
  "both_orders ready_marker_not_written_on_shutdown" "both_orders shutdown_flag_terminates_long_running_service"
  by code_simp+

lemma executor_command_tests:
  "both_orders start_command_on_exited_service_respawns_it"
  "both_orders start_command_on_running_service_returns_error"
  "both_orders restart_command_on_stopped_service_starts_it"
  by code_simp+

text \<open>
  Two tests send a command 100 ms after the service was started. The readiness channel is closed, so the
  rounds do not wait; the only service has exited by then and the loop has ended in the round after the
  one that reaps it, whatever the later rounds would bring. The command is never read, and the assertion
  on its reply, in a thread that no one joins, is not reached.
\<close>

definition late_command :: "tick list \<Rightarrow> hash_order \<Rightarrow> bool" where
  "late_command later ho =
     (let svc = make_service_with_needs ''short'' [] [] ''/bin/true''
      in unwrap (build ho [svc]) (\<lambda>graph.
           (let r = run_commands ((rounds 1 (\<lambda>_. 0) @ [alive_tick]) @ later) graph [svc]
            in is_ok r \<and> reply_of 0 r = [])))"

lemma run_commands_prefix:
  "is_ok (run_commands ts graph services) \<Longrightarrow>
     run_commands (ts @ later) graph services = run_commands ts graph services"
  by (simp add: run_commands_def run_with_cmd_def run_with_marker_def run_loop_append is_ok_def
      split: run_result.splits)

lemma late_command_extends: "late_command [] ho \<Longrightarrow> late_command later ho"
  using run_commands_prefix[of "rounds 1 (\<lambda>_. 0) @ [alive_tick]" _ _ later]
  by (auto simp: late_command_def unwrap_def Let_def simp del: append_assoc split: outcome.splits)

lemma late_command_not_read: "both_orders (late_command later)"
proof -
  have "both_orders (late_command [])" by code_simp
  then show ?thesis by (auto simp: both_orders_def intro: late_command_extends)
qed

end
