(* ===== verification/Spec2Isabelle.thy ===== *)
theory Spec2Isabelle
  imports Graph_Properties Executor_Properties Cache_Properties Tools_Properties System_Properties
    Check_Boot Boot_World Graph_Tests Cache_Tests Server_Tests Executor_Tests
begin

text \<open>
  A verification of \<open>flint-init\<close>, an init system in Rust: a service supervisor that runs as PID 1, its
  control client, and a watcher that keeps a cache of the service definitions.

  \<^bold>\<open>The program and its model.\<close> All paths are below \<open>src/src\<close>.

  \<^item> \<open>service.rs\<close> (theory \<open>Service_Def\<close>): service definitions, \<open>validate\<close>, \<open>load_services_from_dir\<close>.
  \<^item> \<open>graph.rs\<close> (\<open>Kahn\<close>, \<open>Service_Graph\<close>, \<open>Shutdown_Order\<close>): the dependency graph; building it with
    cycle detection, releasing dependents with \<open>mark_ready\<close>, the order of a shutdown.
  \<^item> \<open>executor.rs\<close> (\<open>Executor\<close>): the main loop. Its local variables are the record \<open>exec\<close>, each block of
    the loop is a definition, a round is \<open>iteration\<close>, and \<open>run_with_marker\<close> runs a list of rounds. What a
    round reads (signals, commands, \<open>waitpid\<close>, the clock) is a \<open>tick\<close>; what it does is the log of events.
  \<^item> \<open>ctl_proto.rs\<close> and \<open>ctl_server.rs\<close> (\<open>Ctl_Proto\<close>, \<open>Ctl_Server\<close>): the status table, the requests on the
    wire and the socket server.
  \<^item> \<open>cache.rs\<close>, \<open>bin/flint_watch.rs\<close>, \<open>config.rs\<close> (\<open>Cache\<close>): the manifest of parsed definitions, its
    watcher, the session user.
  \<^item> \<open>check.rs\<close> (\<open>Check\<close>), \<open>catalog.rs\<close> (\<open>Catalog\<close>), \<open>scaffold.rs\<close> (\<open>Scaffold\<close>), \<open>bin/flint_ctl.rs\<close>
    (\<open>Flint_Ctl\<close>): the commands of the client.
  \<^item> \<open>fstab.rs\<close> (\<open>Fstab\<close>), \<open>pid1.rs\<close> (\<open>Pid1\<close>), \<open>ready.rs\<close> (\<open>Ready\<close>), \<open>main.rs\<close> (\<open>Flint_Main\<close>): mounts, the
    init process, the readiness watchers, and the boot that composes everything.
  \<^item> \<open>Flint_Prelude\<close> and \<open>Rust_Text\<close> hold hash maps as association lists with an arbitrary iteration order,
    and the functions of Rust's strings and paths.

  The components interact through values: \<open>main\<close> passes what \<open>load_services_cached\<close> returns through
  \<open>apply_to\<close> and \<open>build\<close> to the executor; a watcher thread sends names that arrive in \<open>tk_ready\<close>; the
  control server reads the table that \<open>sync_state\<close> writes and sends commands that arrive in
  \<open>tk_commands\<close>; \<open>flint-ctl\<close> builds a JSON object and writes it as the line that the server decodes.

  \<^bold>\<open>What is shown.\<close>

  \<^item> \<open>Graph_Properties\<close>: building succeeds exactly on acyclic graphs, for every hash order, without
    underflow; a mark releases exactly what it should; a shutdown stops dependents first.
  \<^item> \<open>Executor_Inv\<close> states the interface of the loop as the locale \<open>loop_invariant\<close> and that of the
    elementary updates as \<open>update_invariant\<close>; \<open>Executor_Safety\<close>, \<open>Executor_Boot\<close>, \<open>Executor_Shutdown\<close> and
    \<open>Boot_Spec\<close> interpret them. \<open>Boot_Spec\<close> has the specification of a boot, a scheduler on four sets, and
    the simulation. \<open>Executor_Properties\<close> collects: a boot implements the scheduler, starts services in
    dependency order, forgets none, and lets failures block what needs them; restarts are bounded; a
    shutdown ends and reaches every child; no run panics; what is executed is what was configured.
  \<^item> \<open>Cache_Coherence\<close>, \<open>Cache_Properties\<close>: loading through the cache is parsing the directory, and the
    watcher keeps it so, even when it handles an event long after the change.
  \<^item> \<open>Tools_Properties\<close>, \<open>System_Properties\<close>, \<open>Client_Properties\<close>: the loader, the check command, fstab,
    the init process, the readiness watchers, the client with the server. The recursion of \<open>get\<close> is
    proved in \<open>Ctl_Install\<close> through the locale \<open>installer\<close>.
  \<^item> \<open>Boot_World\<close> (with \<open>Log_Blocks\<close>): the executor among its threads. A step relation interleaves the two
    phases of a round with file operations and with the signals of the watchers; its traces show that a
    service waits for the readiness files of its dependencies.
  \<^item> \<open>Check_Boot\<close>: the check command and the boot read the same definitions from a directory.
  \<^item> This theory: the boot as a whole, and what a successful check promises about it.
  \<^item> \<open>Samples\<close>, \<open>Executor_Samples\<close> and \<open>Json_Samples\<close>: the inputs on which the witnesses evaluate the model.
  \<^item> \<open>Graph_Tests\<close>, \<open>Executor_Tests\<close>, \<open>Cache_Tests\<close>, \<open>Server_Tests\<close> and \<open>Tools_Tests\<close> (with \<open>Test_Support\<close>)
    replay the unit tests of the repository on the model, as a validation of it: each test is a
    definition under its own name, evaluated in the logic for two hash orders. They also give the texts
    of the errors that the tests look into.

  A few properties state behaviour that the code does not mean to have, as general statements about the
  code as it is; beside them, lemmas replay concrete runs that show where the main loop goes wrong.

  \<^bold>\<open>Bounds.\<close> A service is restarted at most \<open>MAX_RESTARTS\<close> = 5 times. The launch loop ends by a measure on
  the queue and the degrees (\<open>launch_measure\<close>), Kahn's loop by \<open>kahn_measure\<close>. The waiting loops of a
  shutdown and of \<open>scaffold\<close> are \<open>partial_function\<close>s, where not returning is \<open>None\<close>. A shutdown reads a
  monotonic clock: before each reading an arbitrary time passes, and a sleep adds its own length; its
  loops return for every such clock (at most 124 readings for one service). That of \<open>scaffold\<close> sleeps
  100 ms between two readings and returns within 21 rounds. \<open>fetch_and_install\<close> has fuel;
  one more than the lines of standard input is enough, since each call but the first is paid for by an
  accepted prompt, and more does not change the result. The endless loops (executor, event loops of
  the watchers, reaping) run over the list of what has arrived so far. Pids are cast between \<open>i32\<close> and \<open>u32\<close>
  as 32 bit words, mount flags are 64 bit words, file modes 32 bit words; degrees and counters are
  natural numbers, and where Rust would underflow (\<open>build\<close>) the model panics.

  \<^bold>\<open>Not modelled.\<close> The crates \<open>toml\<close>, \<open>serde_json\<close>, \<open>bincode\<close>, \<open>ureq\<close>, \<open>inotify\<close> and the kernel are parameters
  or inputs; of \<open>serde_json\<close>, which objects the attributes of \<open>Request\<close> stand for is modelled. The umask is
  modelled for the catalog cache, but not for the directories of \<open>tmpfiles.d\<close>, and \<open>main\<close>'s removal of an
  old readiness file is taken to succeed. Log lines are left out where they carry no state, and error messages are constructors
  (functions \<open>show_...\<close> give the texts that the tests or the replies use).
  Strings are lists of bytes: Unicode white space beyond ASCII is not split or trimmed, and
  \<open>to_lowercase\<close> maps ASCII letters. Two spellings of a path are two files. Threads are not interleaved
  below the level of a phase of a round of the executor. The installer scripts and the packaged service
  files are not part of the model. Of the unit tests, those that only exercise \<open>serde\<close>, \<open>toml\<close>, \<open>bincode\<close>
  or the sockets of the kernel are left out.
\<close>

section \<open>The boot\<close>

lemma deps_of_apply_to [simp]: "deps_of (apply_to cfg services) n = deps_of services n"
  by (auto simp: deps_of_def apply_to_def image_iff all_dep_names_def)

lemma names_of_apply_to [simp]: "names_of (apply_to cfg services) = names_of services"
  by (auto simp: names_of_def apply_to_def image_iff)

lemma needs_of_apply_to [simp]: "needs_of (apply_to cfg services) v = needs_of services v"
  by (auto simp: needs_of_def apply_to_def need_names_def)

text \<open>C2: from the directory to the processes. Let \<open>main\<close> reach the executor, with a manifest in which every
  entry whose recorded time equals the time of its file holds what the file parses to. Then the services
  it runs are, up to order and the session user, what the \<open>.toml\<close> files of the directory parse to, and the
  graph is theirs. And if the run is a boot (no control commands, no shutdown, and the watchers signal
  only started services), each service is started only after all its dependencies that are in the
  directory were marked ready, and no service is started or given up twice.\<close>

theorem main_boots_directory:
  assumes "is_hash_order (mn_order env)" "codec_ok (mn_codec env)"
    "dk = mn_disk env (services_dir env)" "scan_toml_files dk = Inr files" "distinct (map fst files)"
    "\<forall>m. read_manifest (mn_codec env) dk = Inr (Some m) \<longrightarrow> sound_entries (mn_toml env) dk files (mf_entries m)"
    "mr_run (main env) = Some (services, g, r)"
  shows "\<exists>defs. mset (map Inr defs) = mset (map (\<lambda>(f, t). parse_toml (mn_toml env) dk f) files) \<and>
    services = apply_to (boot_config env) defs \<and> build (mn_order env) services = Ok g \<and>
    (ticks_ok False (\<lambda>_. False) sig_started (main_exec_env env) (mn_ticks env)
       (init_exec (main_exec_env env) (mn_read env) g services new_shared_state) \<longrightarrow>
     (\<forall>pre n post. ex_log (result_state r) = pre @ EvStarting n # post \<longrightarrow> deps_of defs n \<subseteq> set (marks pre)) \<and>
     distinct (started (ex_log (result_state r)) @ blocked_out (ex_log (result_state r))))"
proof -
  obtain defs where m: "fst (load_services_cached (mn_codec env) (mn_toml env) (mn_writes env) dk) = Inr defs"
    "services = apply_to (boot_config env) defs" "build (mn_order env) services = Ok g"
    "r = run (main_exec_env env) (mn_read env) g services new_shared_state (mn_ticks env)"
    using main_runs[OF assms(7)] assms(3) by metis
  have "mset (map Inr defs) = mset (map (\<lambda>(f, t). parse_toml (mn_toml env) dk f) files)"
    by (rule loaded_defs[OF assms(2,4,5) assms(6)[rule_format] m(1)])
  moreover have "deps_of services n \<subseteq> set (marks pre)"
    if "ticks_ok False (\<lambda>_. False) sig_started (main_exec_env env) (mn_ticks env)
        (init_exec (main_exec_env env) (mn_read env) g services new_shared_state)"
      "ex_log (result_state r) = pre @ EvStarting n # post" for pre n post
    using boot_order[OF assms(1) m(3) that(1), of "Some ''/run/flint/ready''" pre n post] that(2)
    unfolding m(4) run_def by simp
  moreover have "distinct (started (ex_log (result_state r)) @ blocked_out (ex_log (result_state r)))"
    if "ticks_ok False (\<lambda>_. False) sig_started (main_exec_env env) (mn_ticks env)
        (init_exec (main_exec_env env) (mn_read env) g services new_shared_state)"
    using boot_run(1)[OF assms(1) m(3) that, of "Some ''/run/flint/ready''"]
    unfolding m(4) run_def by (simp add: boot_safe_def queue_inv_def)
  moreover have "deps_of defs n = deps_of services n" for n by (simp add: m(2))
  ultimately show ?thesis using m(2,3) by blast
qed

definition pair_toml :: toml_parser where
  "pair_toml s = Inr (sample_service s (if s = ''b'' then [''a''] else []) [] None)"

definition pair_disk :: "manifest disk" where
  "pair_disk = sample_disk\<lparr>dk_manifest := NotFound\<rparr>"

definition sample_exit :: exit_env where
  "sample_exit = \<lparr>xe_on_exit = None, xe_mounts = (\<lambda>_. Inl 2), xe_reboot = (\<lambda>_. True)\<rparr>"

definition sample_main :: "manifest main_env" where
  "sample_main = \<lparr>mn_setup = sample_setup, mn_signal = (\<lambda>_. None), mn_args = [''flint-init''],
     mn_config = Inl 2, mn_cfg_toml = (\<lambda>_. Inl ''no config''), mn_codec = plain_codec,
     mn_toml = pair_toml, mn_disk = (\<lambda>_. pair_disk), mn_writes = writes_ok, mn_order = sample_order,
     mn_mkdir = (\<lambda>_. None), mn_users = users sample_env, mn_fork = fork_result sample_env,
     mn_read = no_file, mn_ticks = [exit_tick 0, exit_tick 0], mn_reboot = False, mn_exit = sample_exit,
     mn_waits = []\<rparr>"

theorem main_boots_directory_witness:
  "\<exists>defs services g r pre post. mr_run (main sample_main) = Some (services, g, r) \<and>
     ex_log (result_state r) = pre @ EvStarting ''b'' # post \<and>
     mset (map Inr defs) = mset [parse_toml pair_toml pair_disk ''a.toml'', parse_toml pair_toml pair_disk ''b.toml''] \<and>
     deps_of defs ''b'' \<subseteq> set (marks pre)"
proof -
  let ?k = "\<lambda>ev. ev \<noteq> EvStarting ''b''"
  let ?files = "[(''a.toml'', 5000000007), (''b.toml'', 6000000007)]"
  have "case mr_run (main sample_main) of
      Some (services, g, r) \<Rightarrow>
        ticks_ok False (\<lambda>_. False) sig_started (main_exec_env sample_main) (mn_ticks sample_main)
          (init_exec (main_exec_env sample_main) (mn_read sample_main) g services new_shared_state) \<and>
        EvStarting ''b'' \<in> set (ex_log (result_state r))
    | None \<Rightarrow> False" by code_simp
  then obtain services g r where r: "mr_run (main sample_main) = Some (services, g, r)"
    "ticks_ok False (\<lambda>_. False) sig_started (main_exec_env sample_main) (mn_ticks sample_main)
       (init_exec (main_exec_env sample_main) (mn_read sample_main) g services new_shared_state)"
    "EvStarting ''b'' \<in> set (ex_log (result_state r))"
    by (auto split: option.splits)
  obtain pre post where l: "ex_log (result_state r) = pre @ EvStarting ''b'' # post"
    using r(3) by (meson split_list)
  have h: "is_hash_order (mn_order sample_main)" "codec_ok (mn_codec sample_main)"
    by (simp_all add: sample_main_def sample_order_ok)
  have d: "pair_disk = mn_disk sample_main (services_dir sample_main)" by (simp add: sample_main_def)
  have s: "scan_toml_files pair_disk = Inr ?files" by code_simp
  have m: "\<forall>m. read_manifest (mn_codec sample_main) pair_disk = Inr (Some m) \<longrightarrow>
      sound_entries (mn_toml sample_main) pair_disk ?files (mf_entries m)"
    by (simp add: read_manifest_def pair_disk_def)
  have "distinct (map fst ?files)" by simp
  from main_boots_directory[OF h d s this m r(1)] r(1,2) l
  show ?thesis by (fastforce simp: sample_main_def)
qed

text \<open>C38: an unvalidated readiness path is deleted at boot. \<open>main\<close> never validates what it loads. Let a file
  of the directory parse to a definition that \<open>validate\<close> refuses, so that the loader of \<open>service.rs\<close>
  fails on the directory. Whenever \<open>main\<close> nevertheless reaches the executor (with a manifest that is up to
  date wherever its times are), it has removed the file at the readiness path of that definition,
  wherever that is.\<close>

theorem boot_removes_unvalidated_path:
  assumes "codec_ok (mn_codec env)" "dk = mn_disk env (services_dir env)" "dk_entries dk = Inr es"
    "scan_toml_files dk = Inr files" "distinct (map fst files)"
    "\<forall>m. read_manifest (mn_codec env) dk = Inr (Some m) \<longrightarrow> sound_entries (mn_toml env) dk files (mf_entries m)"
    "(f, t) \<in> set files" "parse_toml (mn_toml env) dk f = Inr def" "validate def = Inl v" "sd_ready_path def = Some p"
    "mr_run (main env) = Some (services, g, r)"
  shows "(\<exists>e. load_services_from_dir (mn_toml env) (dk_entries dk) = Inl e) \<and>
    RemoveReady p \<in> set (mr_actions (main env))"
proof
  have l: "load_services_from_dir (mn_toml env) (dk_entries dk) \<noteq> Inr ss" for ss
    using loader_validates_parsed[OF assms(3-5,7,8)] assms(9) by auto
  then show "\<exists>e. load_services_from_dir (mn_toml env) (dk_entries dk) = Inl e" by (metis sum.exhaust)
next
  obtain defs where m: "fst (load_services_cached (mn_codec env) (mn_toml env) (mn_writes env) dk) = Inr defs"
    "services = apply_to (boot_config env) defs"
    using main_runs[OF assms(11)] assms(2) by metis
  have "set (map Inr defs) = set (map (\<lambda>(f, t). parse_toml (mn_toml env) dk f) files)"
    using loaded_defs[OF assms(1,4,5) assms(6)[rule_format] m(1)] by (rule mset_eq_setD)
  moreover have "Inr def \<in> set (map (\<lambda>(f, t). parse_toml (mn_toml env) dk f) files)"
    using assms(7,8) by force
  ultimately have "(Inr def :: cache_error + service_def) \<in> set (map Inr defs)" by simp
  then have "def \<in> set defs" by auto
  then have "apply_user (boot_config env) def \<in> set services" by (simp add: m(2) apply_to_def)
  then show "RemoveReady p \<in> set (mr_actions (main env))"
    using main_removes[OF assms(11)] assms(10) by (simp add: sd_ready_path_def)
qed

definition wild_main :: "manifest main_env" where
  "wild_main = sample_main\<lparr>mn_toml := name_toml, mn_disk := (\<lambda>_. wild_disk)\<rparr>"

theorem boot_removes_unvalidated_path_witness:
  "RemoveReady ''/etc/passwd'' \<in> set (mr_actions (main wild_main))"
proof -
  have "case mr_run (main wild_main) of None \<Rightarrow> False | Some _ \<Rightarrow> True" by code_simp
  then obtain services g r where r: "mr_run (main wild_main) = Some (services, g, r)"
    by (auto split: option.splits)
  have d: "codec_ok (mn_codec wild_main)" "wild_disk = mn_disk wild_main (services_dir wild_main)"
    "dk_entries wild_disk = Inr [sample_dirent ''left.toml'' ''wild'' 5]"
    by (simp_all add: wild_main_def sample_main_def wild_disk_def)
  have s: "scan_toml_files wild_disk = Inr [(''left.toml'', 5000000007)]"
    "parse_toml name_toml wild_disk ''left.toml'' = Inr wild_service"
    "validate wild_service = Inl (NotUnderRun ''left'' ''/etc/passwd'')"
    "sd_ready_path wild_service = Some ''/etc/passwd''" by code_simp+
  have p: "parse_toml (mn_toml wild_main) wild_disk ''left.toml'' = Inr wild_service"
    using s(2) by (simp add: wild_main_def)
  have m: "\<forall>m. read_manifest (mn_codec wild_main) wild_disk = Inr (Some m) \<longrightarrow>
      sound_entries (mn_toml wild_main) wild_disk [(''left.toml'', 5000000007)] (mf_entries m)"
    by (simp add: read_manifest_def wild_disk_def)
  have "(''left.toml'', 5000000007) \<in> set [(''left.toml'', 5000000007 :: int)]" by simp
  from boot_removes_unvalidated_path[OF d s(1) _ m this p s(3,4) r] show ?thesis by simp
qed

text \<open>As PID 1, \<open>main\<close> returns when there is no service to run; the kernel does not survive that.\<close>

lemma pid1_returns_without_services:
  "mr_end (main (sample_main\<lparr>mn_disk := (\<lambda>_. pair_disk\<lparr>dk_entries := Inr []\<rparr>)\<rparr>)) = MainReturned"
  by code_simp

section \<open>The check and the boot\<close>

text \<open>C23: an exit code of 0 from \<open>flint-ctl check\<close> is a promise about the next boot from the same
  directory, when it could be listed completely and every entry of the manifest whose recorded time
  equals the time of its file holds what the file parses to. Whatever hash orders the two programs use,
  the boot does not fail on the dependency graph; it does not fail on loading the services either, unless the
  manifest cannot be read or written or a file has a time before 1970; and no service needs one that is not
  there.\<close>

theorem check_pass_means_boot_builds:
  assumes "ctl_main fuel cenv jl xc [''check'', ''--services-dir'', services_dir env] w = Some (Continue w')"
    "fe_dir cenv (services_dir env) = (True, dk_entries dk)" "dk = mn_disk env (services_dir env)"
    "fe_toml cenv = mn_toml env" "is_hash_order (fe_order cenv)" "is_hash_order (mn_order env)"
    "codec_ok (mn_codec env)" "dk_entries dk = Inr (map Inr ds)" "scan_toml_files dk = Inr files"
    "distinct (map fst files)"
    "\<forall>m. read_manifest (mn_codec env) dk = Inr (Some m) \<longrightarrow> sound_entries (mn_toml env) dk files (mf_entries m)"
  shows "(\<forall>e. mr_end (main env) \<noteq> MainError (GraphFailed e)) \<and>
    (\<forall>e. mr_end (main env) = MainError (LoadFailed e) \<longrightarrow>
       (\<exists>io. e = CacheIo io \<and> (dk_manifest dk = Unreadable io \<or> wr_write (mn_writes env) = Some io \<or>
          wr_rename (mn_writes env) = Some io)) \<or>
       (\<exists>f t. e = BeforeEpoch f \<and> (f, t) \<in> set files \<and> t < 0)) \<and>
    (\<forall>services g r. mr_run (main env) = Some (services, g, r) \<longrightarrow> (\<forall>v. needs_of services v \<subseteq> names_of services))"
proof -
  let ?load = "load_services_cached (mn_codec env) (mn_toml env) (mn_writes env) dk"
  obtain ce where "pf_errors (run_preflight (fe_order cenv) ce (mn_toml env) (Inr (map Inr ds))) = []"
    using check_continues[OF assms(1,2)] assms(4,8) by auto
  then obtain services where s: "load_entries (mn_toml env) (map Inr ds) [] = Inr services"
    "\<not> has_cycle (fe_order cenv) services" "\<forall>s \<in> set services. set (need_names s) \<subseteq> names_of services"
    by (rule preflight_no_errors) auto
  have ok: "\<exists>g. build (fe_order cenv) services = Ok g" using s(2) has_cycle_build[OF assms(5,5)] by blast
  have agree: "mset raw = mset services" if "fst ?load = Inr raw" for raw
    by (rule check_load_agree[OF assms(7-10) assms(11)[rule_format] s(1) that])
  have "mr_end (main env) \<noteq> MainError (GraphFailed e)" for e
  proof
    assume "mr_end (main env) = MainError (GraphFailed e)"
    then obtain raw where raw: "fst ?load = Inr raw" "build (mn_order env) (apply_to (boot_config env) raw) = Err e"
      using assms(3) by (auto elim: main_graph_error)
    with build_apply_to[OF assms(5,6) agree[OF raw(1), symmetric] ok, of "boot_config env"] show False by simp
  qed
  moreover have "(\<exists>io. e = CacheIo io \<and> (dk_manifest dk = Unreadable io \<or> wr_write (mn_writes env) = Some io \<or>
        wr_rename (mn_writes env) = Some io)) \<or> (\<exists>f t. e = BeforeEpoch f \<and> (f, t) \<in> set files \<and> t < 0)"
    if "mr_end (main env) = MainError (LoadFailed e)" for e
  proof -
    have "fst ?load = Inl e" using main_load_error[OF that] assms(3) by simp
    from load_error[OF assms(9) _ this] checked_parses[OF assms(8-10) s(1)] show ?thesis by blast
  qed
  moreover have "needs_of ss v \<subseteq> names_of ss" if run: "mr_run (main env) = Some (ss, g, r)" for ss g r v
  proof -
    obtain raw where raw: "fst ?load = Inr raw" "ss = apply_to (boot_config env) raw"
      using main_runs[OF run] assms(3) by metis
    have "set raw = set services" using agree[OF raw(1)] by (rule mset_eq_setD)
    then have "needs_of raw v = needs_of services v" "names_of raw = names_of services"
      by (simp_all add: needs_of_def names_of_def)
    moreover have "needs_of services v \<subseteq> names_of services" using s(3) by (auto simp: needs_of_def)
    ultimately show ?thesis by (simp add: raw(2))
  qed
  ultimately show ?thesis by blast
qed

definition sample_ctl :: ctl_env where
  "sample_ctl = loop_env\<lparr>fe_toml := pair_toml, fe_dir := (\<lambda>_. (True, dk_entries pair_disk)),
     fe_metadata := (\<lambda>_. Some \<lparr>fm_is_file = True, fm_mode = 0x1ED\<rparr>)\<rparr>"

theorem check_pass_means_boot_builds_witness:
  "(\<forall>e. mr_end (main sample_main) \<noteq> MainError (GraphFailed e)) \<and>
   (\<exists>w'. ctl_main 0 sample_ctl sample_json \<lparr>xc_connect = None, xc_write = None, xc_lines = []\<rparr>
     [''check'', ''--services-dir'', services_dir sample_main] empty_world = Some (Continue w'))"
proof -
  let ?xc = "\<lparr>xc_connect = None, xc_write = None, xc_lines = []\<rparr> :: exchange"
  have "case ctl_main 0 sample_ctl sample_json ?xc
      [''check'', ''--services-dir'', services_dir sample_main] empty_world of
      Some (Continue w') \<Rightarrow> True | _ \<Rightarrow> False" by code_simp
  then obtain w' where c: "ctl_main 0 sample_ctl sample_json ?xc
      [''check'', ''--services-dir'', services_dir sample_main] empty_world = Some (Continue w')"
    by (auto split: option.splits ctl_result.splits)
  have d: "fe_dir sample_ctl (services_dir sample_main) = (True, dk_entries pair_disk)"
    "pair_disk = mn_disk sample_main (services_dir sample_main)" "fe_toml sample_ctl = mn_toml sample_main"
    "is_hash_order (fe_order sample_ctl)" "is_hash_order (mn_order sample_main)" "codec_ok (mn_codec sample_main)"
    by (simp_all add: sample_ctl_def sample_main_def loop_env_def sample_order_ok plain_codec_ok)
  obtain ds where e: "dk_entries pair_disk = Inr (map Inr ds)"
    by (auto simp: pair_disk_def sample_disk_def sample_dirent_def intro: that[of "[_, _, _]"])
  have f: "scan_toml_files pair_disk = Inr [(''a.toml'', 5000000007), (''b.toml'', 6000000007)]" by code_simp
  have "\<forall>m. read_manifest (mn_codec sample_main) pair_disk = Inr (Some m) \<longrightarrow>
      sound_entries (mn_toml sample_main) pair_disk [(''a.toml'', 5000000007), (''b.toml'', 6000000007)] (mf_entries m)"
    by (simp add: read_manifest_def pair_disk_def)
  from check_pass_means_boot_builds[OF c d e f _ this] c show ?thesis by simp
qed

section \<open>The watchers\<close>

text \<open>No watcher sees an old file. Each readiness watcher that \<open>main\<close> starts is for the readiness path
  of one service, there is one for each service that has a path, in order, and before it starts the
  file of an earlier run was removed and the directory it watches was created.\<close>

lemma watchers_start_clean:
  assumes "start_watchers mk services = (acts, None)"
  shows "[(st, p, n). WatchFile st p n \<leftarrow> acts] =
      [(rd_strategy r, p, sd_name d). d \<leftarrow> services, r \<leftarrow> (case sd_ready d of None \<Rightarrow> [] | Some r \<Rightarrow> [r]),
         p \<leftarrow> (case rd_path r of None \<Rightarrow> [] | Some p \<Rightarrow> [p])] \<and>
    (\<forall>pre st p n post. acts = pre @ WatchFile st p n # post \<longrightarrow> RemoveReady p \<in> set pre \<and>
       (\<forall>d. path_parent p = Some d \<longrightarrow> CreateReadyDir d \<in> set pre))"
  using start_watchers_all[of mk services] start_watchers_before[of mk services] assms by auto

definition bus_service :: service_def where
  "bus_service = (sample_service ''dbus'' [] [] None)
     \<lparr>sd_ready := Some \<lparr>rd_strategy = Socket, rd_path = Some ''/run/dbus/socket''\<rparr>\<rparr>"

section \<open>The boot among its threads\<close>

text \<open>C3: nothing starts before what it depends on is really there. Let the executor that \<open>main\<close> calls run
  among the watchers that \<open>main\<close> has started, with file operations at any point in between, where a
  readiness file is only made by its own service once that was started, the files of earlier runs are
  gone when the watchers start, and only the watchers signal.
  Then, before a service is started, each of its dependencies has, after its own start, made its
  readiness file, or it has ended, or it was given up. And as long as the loop goes on, the executor's
  part of the trace is that of a run.\<close>

theorem boot_waits_for_files:
  assumes "is_hash_order (mn_order env)" "mr_run (main env) = Some (services, g, r)"
    "world (main_exec_env env) services (watchers_of (mr_actions (main env)))
       (init_exec (main_exec_env env) (mn_read env) g services new_shared_state)
       (pre @ Exec (EvStarting n) # post) s ph"
    "m \<in> deps_of services n"
  shows "((\<exists>a e b d p. pre = a @ e # b \<and> d \<in> set services \<and> sd_name d = m \<and> sd_ready_path d = Some p \<and>
        makes p e \<and> Exec (EvStarting m) \<in> set a) \<or>
      Exec (EvBlocked m) \<in> set pre \<or> (\<exists>c. Exec (EvExitedLine m c) \<in> set pre) \<or>
      (\<exists>sig. Exec (EvKilledLine m sig) \<in> set pre)) \<and>
    (ph = Top \<longrightarrow> (\<exists>ts. run (main_exec_env env) (mn_read env) g services new_shared_state ts = StillRunning s \<and>
       ex_log s = exec_events (pre @ Exec (EvStarting n) # post)))"
proof -
  have b: "build (mn_order env) services = Ok g" using main_runs[OF assms(2)] by metis
  note inv = world_keeps[OF assms(3) world_inv_init[OF assms(1) b] main_watchers[OF assms(2)]]
  have "\<exists>ts. run (main_exec_env env) (mn_read env) g services new_shared_state ts = StillRunning s" if "ph = Top"
    using world_run[OF assms(3)] that by (simp add: run_def run_with_marker_def)
  with world_start_order[OF inv main_watchers[OF assms(2)] assms(4)] inv show ?thesis
    by (auto simp: world_inv_def)
qed

text \<open>Two services: \<open>a\<close> with a pid file, and \<open>b\<close> after it.\<close>

definition pidfile_pair :: "service_def list" where
  "pidfile_pair =
     [(sample_service ''a'' [] [] None)\<lparr>sd_ready := Some \<lparr>rd_strategy = Pidfile, rd_path = Some ''/run/a.pid''\<rparr>\<rparr>,
      sample_service ''b'' [''a''] [] None]"

definition pidfile_toml :: toml_parser where
  "pidfile_toml s = Inr (if s = ''b'' then pidfile_pair ! 1 else pidfile_pair ! 0)"

definition pidfile_main :: "manifest main_env" where
  "pidfile_main = sample_main\<lparr>mn_toml := pidfile_toml\<rparr>"

definition pidfile_init :: exec where
  "pidfile_init = init_exec (main_exec_env pidfile_main) no_file (graph_of pidfile_pair) pidfile_pair new_shared_state"

definition late_tick :: tick where
  "late_tick = quiet_tick\<lparr>tk_late := Some ''a''\<rparr>"

text \<open>The states after the first launch phase, the first poll phase and the second launch phase.\<close>

definition pidfile_s1 :: exec where
  "pidfile_s1 = flow_state (launch_phase (main_exec_env pidfile_main) late_tick pidfile_init)"

definition pidfile_s2 :: exec where
  "pidfile_s2 = flow_state (poll_phase (main_exec_env pidfile_main) late_tick pidfile_s1)"

definition pidfile_s3 :: exec where
  "pidfile_s3 = flow_state (launch_phase (main_exec_env pidfile_main) quiet_tick pidfile_s2)"

definition pidfile_input :: watch_input where
  "pidfile_input = \<lparr>wi_exists1 = False, wi_init = None, wi_add = None, wi_exists2 = False,
     wi_reads = [Inr (op_events (OpCreate ''a.pid''))], wi_connects = False, wi_send_ok = True\<rparr>"

lemma pidfile_run:
  "\<exists>r. mr_run (main pidfile_main) = Some (pidfile_pair, graph_of pidfile_pair, r)"
proof -
  have "case mr_run (main pidfile_main) of
      Some (services, g, r) \<Rightarrow> services = pidfile_pair \<and> g = graph_of pidfile_pair
    | None \<Rightarrow> False" by code_simp
  then show ?thesis by (auto split: option.splits)
qed

lemma Go_flow_state: "(case r of Go _ \<Rightarrow> True | _ \<Rightarrow> False) \<Longrightarrow> r = Go (flow_state r)"
  by (cases r) auto

lemma pidfile_phases:
  "launch_phase (main_exec_env pidfile_main) late_tick pidfile_init = Go pidfile_s1"
  "poll_phase (main_exec_env pidfile_main) late_tick pidfile_s1 = Go pidfile_s2"
  "launch_phase (main_exec_env pidfile_main) quiet_tick pidfile_s2 = Go pidfile_s3"
  unfolding pidfile_s1_def[symmetric] pidfile_s2_def pidfile_s3_def
  by (subst pidfile_s1_def, rule Go_flow_state, code_simp) (rule Go_flow_state, code_simp)+

definition pidfile_trace :: "world_event list" where
  "pidfile_trace = news pidfile_init pidfile_s1 @ [FileOp ''/run'' (OpCreate ''a.pid'')]"

lemma pidfile_announced: "announced (watchers_of (mr_actions (main pidfile_main))) pidfile_trace ''a''"
proof -
  have ws: "(Pidfile, ''/run/a.pid'', ''a'') \<in> set (watchers_of (mr_actions (main pidfile_main)))" by code_simp
  have "path_parent ''/run/a.pid'' = Some ''/run'' \<and> path_file_name ''/run/a.pid'' = Some ''a.pid'' \<and>
      dir_history ''/run'' pidfile_trace = [] @ [OpRemove ''a.pid''] @ [] @ [] @ [OpCreate ''a.pid''] @ [] \<and>
      ''a'' \<in> set (sent (fst (run_watcher (Pidfile, ''/run/a.pid'', ''a'') pidfile_input)))" by code_simp
  moreover have "observes ''a.pid'' (present ''a.pid'' False [OpRemove ''a.pid'']) [] [] [OpCreate ''a.pid''] pidfile_input"
    by (simp add: observes_def present_def pidfile_input_def)
  ultimately show ?thesis using ws unfolding announced_def by blast
qed

lemma pidfile_world:
  "world (main_exec_env pidfile_main) pidfile_pair (watchers_of (mr_actions (main pidfile_main))) pidfile_init
     ((pidfile_trace @ news pidfile_s1 pidfile_s2) @ news pidfile_s2 pidfile_s3) pidfile_s3 (Receiving quiet_tick)"
proof (rule world_launch_Go[OF world_poll_Go[where t = late_tick]])
  let ?xe = "main_exec_env pidfile_main" and ?ws = "watchers_of (mr_actions (main pidfile_main))"
  have "world ?xe pidfile_pair ?ws pidfile_init ([] @ news pidfile_init pidfile_s1) pidfile_s1 (Receiving late_tick)"
    by (rule world_launch_Go[OF world_begin]) (simp_all add: pidfile_phases, simp_all add: late_tick_def quiet_tick_def)
  moreover have "permitted pidfile_pair ([] @ news pidfile_init pidfile_s1) (FileOp ''/run'' (OpCreate ''a.pid''))"
    by code_simp
  ultimately show "world ?xe pidfile_pair ?ws pidfile_init pidfile_trace pidfile_s1 (Receiving late_tick)"
    unfolding pidfile_trace_def by (metis append_Nil world_file)
  show "\<forall>n. tk_late late_tick = Some n \<longrightarrow> announced ?ws pidfile_trace n"
    using pidfile_announced by (simp add: late_tick_def)
qed (simp_all add: pidfile_phases, simp_all add: quiet_tick_def)

theorem boot_waits_for_files_witness:
  "\<exists>pre post a e b.
     world (main_exec_env pidfile_main) pidfile_pair (watchers_of (mr_actions (main pidfile_main))) pidfile_init
       (pre @ Exec (EvStarting ''b'') # post) pidfile_s3 (Receiving quiet_tick) \<and>
     pre = a @ e # b \<and> makes ''/run/a.pid'' e \<and> Exec (EvStarting ''a'') \<in> set a"
proof -
  let ?tr = "(pidfile_trace @ news pidfile_s1 pidfile_s2) @ news pidfile_s2 pidfile_s3"
  obtain r where r: "mr_run (main pidfile_main) = Some (pidfile_pair, graph_of pidfile_pair, r)"
    using pidfile_run by blast
  have "Exec (EvStarting ''b'') \<in> set ?tr" by code_simp
  then obtain pre post where tr: "?tr = pre @ Exec (EvStarting ''b'') # post" by (meson split_list)
  have o: "is_hash_order (mn_order pidfile_main)" "mn_read pidfile_main = no_file"
    by (simp_all add: pidfile_main_def sample_main_def sample_order_ok)
  have a: "''a'' \<in> deps_of pidfile_pair ''b''"
    by (auto simp: deps_of_def names_of_def pidfile_pair_def)
  have "list_all (\<lambda>e. case e of Exec (EvBlocked m) \<Rightarrow> False | Exec (EvExitedLine m c) \<Rightarrow> False
      | Exec (EvKilledLine m g) \<Rightarrow> False | _ \<Rightarrow> True) ?tr" by code_simp
  then have none: "Exec (EvBlocked m) \<notin> set pre" "Exec (EvExitedLine m c) \<notin> set pre"
    "Exec (EvKilledLine m g) \<notin> set pre" for m c g
    unfolding tr list_all_iff by - (fastforce dest: bspec)+
  note w = pidfile_world[unfolded tr]
  have p: "\<forall>d \<in> set pidfile_pair. sd_name d = ''a'' \<longrightarrow> sd_ready_path d = Some ''/run/a.pid''" by code_simp
  from boot_waits_for_files[OF o(1) r _ a, unfolded o(2), folded pidfile_init_def, OF w] none
  obtain a e b d p' where c: "pre = a @ e # b" "d \<in> set pidfile_pair" "sd_name d = ''a''"
    "sd_ready_path d = Some p'" "makes p' e" "Exec (EvStarting ''a'') \<in> set a" by blast
  then have "p' = ''/run/a.pid''" using p by auto
  with c w show ?thesis by blast
qed

end
